theory Spec2Isabelle
  imports Main
begin

section \<open>rss\_monitor: data model\<close>

text \<open>
  The program polls a list of feeds, stores the articles it has not seen yet in an
  SQLite database, mails one notification per feed and prunes old rows.  The theory
  follows \<^verbatim>\<open>rss_monitor.py\<close> function by function.

  Python strings are \<^typ>\<open>string\<close>, a list of bytes: a text is the list of the bytes of
  its UTF-8 encoding.  A dictionary entry that may be missing is a \<^typ>\<open>string option\<close>;
  Python integers are \<^typ>\<open>int\<close>.
\<close>

text \<open>A \<^verbatim>\<open>datetime\<close> object.  \<open>wall\<close> stands for its calendar and clock fields, year to
  microsecond: the number of microseconds from 0001-01-01 00:00:00 to that reading.
  \<open>utcoffset\<close> is \<^verbatim>\<open>None\<close> for a naive value and the offset from UTC, in microseconds,
  for an aware one.\<close>

record datetime =
  wall :: int
  utcoffset :: "int option"

text \<open>A parsed feed entry, with the keys the program reads.\<close>

record item =
  guid :: "string option"
  link :: "string option"
  title :: "string option"
  description :: "string option"
  published :: "string option"
  pubdate :: "string option"

text \<open>What \<^verbatim>\<open>feedparser.parse\<close> returns, as far as the program looks at it.\<close>

record parsed_feed =
  bozo :: bool
  bozo_exception :: string
  feed_title :: "string option"
  entries :: "item list"

text \<open>The response object of \<^verbatim>\<open>requests.get\<close>.\<close>

record response =
  status_code :: int
  response_text :: string

text \<open>
  The collaborators of one pass: the library functions the program calls and the local
  clock.  None of them is part of the program, so each is a parameter: \<^verbatim>\<open>feedparser.parse\<close>,
  \<^verbatim>\<open>requests.get\<close>, \<^verbatim>\<open>Response.raise_for_status\<close>, \<^verbatim>\<open>Document(...).summary()\<close>, the data
  chunks \<^verbatim>\<open>HTMLParser.feed\<close> hands out, \<^verbatim>\<open>hashlib.sha256(...).hexdigest()\<close>, \<^verbatim>\<open>str.lower\<close>,
  \<^verbatim>\<open>datetime.fromisoformat\<close>, \<^verbatim>\<open>datetime.isoformat\<close>, and the adapter by which \<^verbatim>\<open>sqlite3\<close>
  writes a \<^verbatim>\<open>datetime\<close> into a column, as text.  A call that may raise returns a sum,
  \<open>Inl\<close> carrying the exception's message.  Within one pass every collaborator is a
  function of its argument and the clock shows one reading, \<open>now\<close>.
\<close>

record world =
  parse :: "string \<Rightarrow> parsed_feed"
  requests_get :: "string \<Rightarrow> string + response"
  raise_for_status :: "response \<Rightarrow> string option"
  Document_summary :: "string \<Rightarrow> string + string"
  HTMLParser_feed :: "string \<Rightarrow> string + string list"
  sha256_hexdigest :: "string \<Rightarrow> string"
  str_lower :: "string \<Rightarrow> string"
  fromisoformat :: "string \<Rightarrow> datetime option"
  isoformat :: "datetime \<Rightarrow> string"
  adapt_datetime :: "datetime \<Rightarrow> string"
  now :: int

text \<open>The two tables.  The \<^verbatim>\<open>feeds\<close> table has \<^verbatim>\<open>feed_url\<close> as primary key, so it
  is a map from the URL to the rest of the row; the \<^verbatim>\<open>articles\<close> table is the list of
  its rows in insertion order (the order of the autoincremented \<^verbatim>\<open>id\<close>).  The two
  \<^verbatim>\<open>TIMESTAMP\<close> columns hold the text that the adapter wrote.\<close>

record feed_row =
  last_checked :: string
  failure_count :: int

record article =
  feed_url :: string
  art_identifier :: string
  art_title :: string
  art_link :: string
  art_description :: string
  fetched_content :: "string option"
  pub_date :: string

record db =
  feeds :: "string \<rightharpoonup> feed_row"
  articles :: "article list"

text \<open>Exceptions that would leave \<^verbatim>\<open>monitor_feeds\<close>: the UNIQUE constraint of
  \<^verbatim>\<open>articles\<close>, and subscripting the \<^verbatim>\<open>None\<close> that \<^verbatim>\<open>fetchone\<close> returns for no row.\<close>

datatype error = IntegrityError | TypeError

text \<open>What a pass does to the outside: page requests and calls of \<^verbatim>\<open>send_email\<close>
  with subject and body.\<close>

datatype event = Fetch string | Email string string

section \<open>Configuration\<close>

definition RSS_FEEDS :: "(string \<times> string option) list" where
  "RSS_FEEDS = [(''https://news.opensuse.org/feed/'', Some ''''),
                (''https://www.reddit.com/r/python.rss'', Some ''python'')]"

definition PRUNE_OLDER_THAN_DAYS :: int where
  "PRUNE_OLDER_THAN_DAYS = 30"

definition ERROR_THRESHOLD :: int where
  "ERROR_THRESHOLD = 3"

section \<open>Python and SQLite built-ins used by the program\<close>

text \<open>\<^verbatim>\<open>d.get(key, default)\<close>\<close>

fun dict_get :: "'a option \<Rightarrow> 'a \<Rightarrow> 'a" where
  "dict_get None d = d"
| "dict_get (Some v) d = v"

text \<open>\<^verbatim>\<open>x or y\<close> on an optional string: \<^verbatim>\<open>None\<close> and the empty string are false.\<close>

fun py_or :: "string option \<Rightarrow> string \<Rightarrow> string" where
  "py_or None d = d"
| "py_or (Some s) d = (if s = [] then d else s)"

text \<open>\<^verbatim>\<open>a in b\<close> on strings: \<open>a\<close> starts at some position of \<open>b\<close>.\<close>

fun startswith :: "string \<Rightarrow> string \<Rightarrow> bool" where
  "startswith s [] = True"
| "startswith [] (p # ps) = False"
| "startswith (c # cs) (p # ps) = (c = p \<and> startswith cs ps)"

fun str_in :: "string \<Rightarrow> string \<Rightarrow> bool" where
  "str_in a [] = (a = [])"
| "str_in a (c # cs) = (startswith (c # cs) a \<or> str_in a cs)"

text \<open>\<^verbatim>\<open>s.replace("Z", "+00:00")\<close>: every occurrence of the one-character pattern.\<close>

definition replace_Z :: "string \<Rightarrow> string" where
  "replace_Z s = concat (map (\<lambda>c. if c = CHR ''Z'' then ''+00:00'' else [c]) s)"

text \<open>\<^verbatim>\<open>str(n)\<close> of an integer, as an f-string prints it.\<close>

fun str_nat :: "nat \<Rightarrow> string" where
  "str_nat n = (if n < 10 then [char_of (48 + n)] else str_nat (n div 10) @ [char_of (48 + n mod 10)])"

declare str_nat.simps [simp del]

definition str_int :: "int \<Rightarrow> string" where
  "str_int i = (if i < 0 then ''-'' @ str_nat (nat (- i)) else str_nat (nat i))"

text \<open>\<^verbatim>\<open>datetime.now()\<close>: the local clock's reading, naive.\<close>

definition datetime_now :: "world \<Rightarrow> datetime" where
  "datetime_now w = \<lparr>wall = now w, utcoffset = None\<rparr>"

text \<open>\<^verbatim>\<open>timedelta(days=d)\<close> in microseconds, and \<^verbatim>\<open>dt - delta\<close>: the fields move back, the
  zone stays.\<close>

definition timedelta_days :: "int \<Rightarrow> int" where
  "timedelta_days d = d * 86400000000"

definition minus_timedelta :: "datetime \<Rightarrow> int \<Rightarrow> datetime" where
  "minus_timedelta dt delta = dt\<lparr>wall := wall dt - delta\<rparr>"

text \<open>SQLite's \<^verbatim>\<open><\<close> on two \<^verbatim>\<open>TEXT\<close> values: the bytes are compared from the left, and
  a proper prefix is smaller.\<close>

fun text_less :: "string \<Rightarrow> string \<Rightarrow> bool" where
  "text_less [] [] = False"
| "text_less [] (y # ys) = True"
| "text_less (x # xs) [] = False"
| "text_less (x # xs) (y # ys) =
     ((of_char x :: nat) < of_char y \<or> (x = y \<and> text_less xs ys))"

section \<open>The functions of the program\<close>

text \<open>\<^verbatim>\<open>get_article_identifier(item)\<close>\<close>

definition get_article_identifier :: "world \<Rightarrow> item \<Rightarrow> string" where
  "get_article_identifier w it =
     (let by_hash = sha256_hexdigest w
            (dict_get (title it) '''' @ dict_get (published it) (dict_get (pubdate it) ''''));
          by_link = (case link it of
                       Some l \<Rightarrow> if l \<noteq> [] then l else by_hash
                     | None \<Rightarrow> by_hash)
      in case guid it of
           Some g \<Rightarrow> if g \<noteq> [] then g else by_link
         | None \<Rightarrow> by_link)"

text \<open>\<^verbatim>\<open>fetch_article_content(url)\<close>: the body of the \<^verbatim>\<open>try\<close>, where each call may
  raise, and the \<^verbatim>\<open>except Exception\<close> around it.  \<^verbatim>\<open>MLStripper\<close> collects the data
  chunks that \<^verbatim>\<open>HTMLParser.feed\<close> hands to \<^verbatim>\<open>handle_data\<close> and joins them.  The function
  returns the text or \<^verbatim>\<open>None\<close>; the model returns with it the page request that the call
  makes.\<close>

definition fetch_try :: "world \<Rightarrow> string \<Rightarrow> string + string" where
  "fetch_try w url =
     (case requests_get w url of
        Inl e \<Rightarrow> Inl e
      | Inr resp \<Rightarrow>
          (case raise_for_status w resp of
             Some e \<Rightarrow> Inl e
           | None \<Rightarrow>
               (case Document_summary w (response_text resp) of
                  Inl e \<Rightarrow> Inl e
                | Inr content \<Rightarrow>
                    (case HTMLParser_feed w content of
                       Inl e \<Rightarrow> Inl e
                     | Inr fed \<Rightarrow> Inr (concat fed)))))"

definition fetch_article_content :: "world \<Rightarrow> string \<Rightarrow> string option \<times> event list" where
  "fetch_article_content w url =
     (case fetch_try w url of Inl e \<Rightarrow> None | Inr data \<Rightarrow> Some data, [Fetch url])"

text \<open>\<^verbatim>\<open>matches_filter(item, fetched_content, filter_keywords)\<close>\<close>

definition matches_filter :: "world \<Rightarrow> item \<Rightarrow> string option \<Rightarrow> string option \<Rightarrow> bool" where
  "matches_filter w it content filter_keywords =
     (case filter_keywords of
        None \<Rightarrow> True
      | Some kw \<Rightarrow>
          if kw = [] then True
          else str_in (str_lower w kw)
                 (str_lower w (dict_get (title it) '''') @ str_lower w (dict_get (description it) '''')
                    @ str_lower w (py_or content '''')))"

text \<open>\<^verbatim>\<open>prune_old_articles()\<close>: the cutoff goes through the adapter like every
  \<^verbatim>\<open>datetime\<close> parameter, and the \<^verbatim>\<open>DELETE\<close> keeps the rows whose \<^verbatim>\<open>pub_date\<close> text is not
  smaller than the cutoff's text.  The function has no \<^verbatim>\<open>return\<close>, so its value is
  \<^verbatim>\<open>None\<close>; the model returns the new database and that value.\<close>

definition prune_old_articles :: "world \<Rightarrow> db \<Rightarrow> db \<times> int option" where
  "prune_old_articles w d =
     (let cutoff = minus_timedelta (datetime_now w) (timedelta_days PRUNE_OLDER_THAN_DAYS)
      in (d\<lparr>articles :=
              filter (\<lambda>a. \<not> text_less (pub_date a) (adapt_datetime w cutoff)) (articles d)\<rparr>,
          None))"

text \<open>The date handling inside \<^verbatim>\<open>monitor_feeds\<close>: the feed's date string, by default
  the clock's own ISO string, goes through \<^verbatim>\<open>fromisoformat\<close>; the bare \<^verbatim>\<open>except\<close>
  puts the clock's value in its place.\<close>

definition parse_pub_date :: "world \<Rightarrow> item \<Rightarrow> datetime" where
  "parse_pub_date w it =
     (let s = dict_get (published it) (dict_get (pubdate it) (isoformat w (datetime_now w)))
      in case fromisoformat w (replace_Z s) of
           Some t \<Rightarrow> t
         | None \<Rightarrow> datetime_now w)"

text \<open>\<^verbatim>\<open>fetch_article_content(link) if link else None\<close>\<close>

definition entry_content :: "world \<Rightarrow> item \<Rightarrow> string option \<times> event list" where
  "entry_content w it =
     (let l = dict_get (link it) ''No link''
      in if l \<noteq> [] then fetch_article_content w l else (None, []))"

text \<open>The tuples of \<^verbatim>\<open>new_articles\<close>:
  \<^verbatim>\<open>(identifier, title, link, description, fetched_content, pub_date)\<close>.\<close>

type_synonym new_article = "string \<times> string \<times> string \<times> string \<times> string option \<times> datetime"

text \<open>The body of \<^verbatim>\<open>for item in feed.entries\<close>.  Its state is the \<^verbatim>\<open>seen\<close> set, the
  list \<^verbatim>\<open>new_articles\<close> and the page requests made so far.\<close>

definition process_entry ::
  "world \<Rightarrow> string option \<Rightarrow> item \<Rightarrow> string set \<times> new_article list \<times> event list
     \<Rightarrow> string set \<times> new_article list \<times> event list" where
  "process_entry w filter_keywords it st =
     (let (seen, new_articles, trace) = st;
          ident = get_article_identifier w it
      in if ident \<notin> seen then
           (let t = dict_get (title it) ''No title'';
                l = dict_get (link it) ''No link'';
                d = dict_get (description it) ''No description'';
                (content, requests) = entry_content w it;
                p = parse_pub_date w it
            in if matches_filter w it content filter_keywords
               then (insert ident seen, new_articles @ [(ident, t, l, d, content, p)],
                     trace @ requests)
               else (seen, new_articles, trace @ requests))
         else st)"

text \<open>\<^verbatim>\<open>INSERT INTO articles\<close>, with the constraint \<^verbatim>\<open>UNIQUE(feed_url, identifier)\<close>.\<close>

definition insert_article :: "article \<Rightarrow> db \<Rightarrow> error + db" where
  "insert_article a d =
     (if (feed_url a, art_identifier a) \<in> set (map (\<lambda>r. (feed_url r, art_identifier r)) (articles d))
      then Inl IntegrityError
      else Inr (d\<lparr>articles := articles d @ [a]\<rparr>))"

text \<open>The row that the \<^verbatim>\<open>INSERT\<close> builds from the feed URL and a tuple of
  \<^verbatim>\<open>new_articles\<close>; the adapter writes the \<^verbatim>\<open>datetime\<close>.\<close>

fun article_row :: "world \<Rightarrow> string \<Rightarrow> new_article \<Rightarrow> article" where
  "article_row w url (ident, t, l, ds, content, p) =
     \<lparr>feed_url = url, art_identifier = ident, art_title = t, art_link = l,
      art_description = ds, fetched_content = content, pub_date = adapt_datetime w p\<rparr>"

text \<open>The loop over \<^verbatim>\<open>new_articles\<close> that extends the mail body and inserts the row.\<close>

fun insert_new_articles ::
  "world \<Rightarrow> string \<Rightarrow> new_article list \<Rightarrow> string \<Rightarrow> db \<Rightarrow> error + (string \<times> db)" where
  "insert_new_articles w url [] body d = Inr (body, d)"
| "insert_new_articles w url ((ident, t, l, ds, content, p) # rest) body d =
     (case insert_article (article_row w url (ident, t, l, ds, content, p)) d of
        Inl e \<Rightarrow> Inl e
      | Inr d' \<Rightarrow>
          insert_new_articles w url rest
            (body @ ''Title: '' @ t @ [CHR 0x0A] @ ''Link: '' @ l @ [CHR 0x0A]
               @ ''Content: '' @ py_or content ds @ [CHR 0x0A, CHR 0x0A]) d')"

text \<open>\<^verbatim>\<open>UPDATE feeds SET ... WHERE feed_url = ?\<close> changes the row if there is one.\<close>

definition update_feed :: "string \<Rightarrow> (feed_row \<Rightarrow> feed_row) \<Rightarrow> db \<Rightarrow> db" where
  "update_feed url f d =
     (case feeds d url of
        None \<Rightarrow> d
      | Some r \<Rightarrow> d\<lparr>feeds := (feeds d)(url \<mapsto> f r)\<rparr>)"

text \<open>\<^verbatim>\<open>SELECT identifier FROM articles WHERE feed_url = ?\<close>, as a set.\<close>

definition stored_identifiers :: "db \<Rightarrow> string \<Rightarrow> string set" where
  "stored_identifiers d url = set (map art_identifier (filter (\<lambda>a. feed_url a = url) (articles d)))"

text \<open>The body of \<^verbatim>\<open>for feed_url, filter_keywords in RSS_FEEDS\<close>.\<close>

definition process_feed :: "world \<Rightarrow> string \<times> string option \<Rightarrow> db \<Rightarrow> error + (db \<times> event list)" where
  "process_feed w fk d =
     (let (url, filter_keywords) = fk;
          feed = parse w url
      in if bozo feed then
           (let d1 = update_feed url (\<lambda>r. r\<lparr>failure_count := failure_count r + 1\<rparr>) d
            in case feeds d1 url of
                 None \<Rightarrow> Inl TypeError
               | Some r \<Rightarrow>
                   Inr (d1,
                        if failure_count r \<ge> ERROR_THRESHOLD
                        then [Email (''RSS Monitor Error: '' @ url)
                                (''Failed to parse feed '' @ url @ '' '' @ str_int (failure_count r)
                                   @ '' times. Error: '' @ bozo_exception feed)]
                        else []))
         else
           (let d1 = update_feed url
                       (\<lambda>r. r\<lparr>failure_count := 0,
                               last_checked := adapt_datetime w (datetime_now w)\<rparr>) d;
                seen = stored_identifiers d1 url;
                (seen', new_articles, trace) =
                   fold (process_entry w filter_keywords) (entries feed) (seen, [], [])
            in if new_articles \<noteq> [] then
                 (let ft = dict_get (feed_title feed) url
                  in case insert_new_articles w url new_articles
                            (''New articles in '' @ ft @ '':'' @ [CHR 0x0A, CHR 0x0A]) d1 of
                       Inl e \<Rightarrow> Inl e
                     | Inr (body, d2) \<Rightarrow> Inr (d2, trace @ [Email (''New RSS Articles: '' @ ft) body]))
               else Inr (d1, trace)))"

fun process_feeds :: "world \<Rightarrow> (string \<times> string option) list \<Rightarrow> db \<Rightarrow> error + (db \<times> event list)" where
  "process_feeds w [] d = Inr (d, [])"
| "process_feeds w (fk # rest) d =
     (case process_feed w fk d of
        Inl e \<Rightarrow> Inl e
      | Inr (d1, tr1) \<Rightarrow>
          (case process_feeds w rest d1 of
             Inl e \<Rightarrow> Inl e
           | Inr (d2, tr2) \<Rightarrow> Inr (d2, tr1 @ tr2)))"

text \<open>\<^verbatim>\<open>INSERT OR IGNORE INTO feeds\<close>, for every configured feed.\<close>

definition insert_or_ignore_feed :: "world \<Rightarrow> string \<Rightarrow> db \<Rightarrow> db" where
  "insert_or_ignore_feed w url d =
     (case feeds d url of
        None \<Rightarrow> d\<lparr>feeds := (feeds d)(url \<mapsto>
                  \<lparr>last_checked = adapt_datetime w (datetime_now w), failure_count = 0\<rparr>)\<rparr>
      | Some r \<Rightarrow> d)"

definition register_feeds :: "world \<Rightarrow> (string \<times> string option) list \<Rightarrow> db \<Rightarrow> db" where
  "register_feeds w rss_feeds d = fold (\<lambda>fk. insert_or_ignore_feed w (fst fk)) rss_feeds d"

text \<open>\<^verbatim>\<open>monitor_feeds()\<close>, one pass: the feed list is a parameter, \<^const>\<open>RSS_FEEDS\<close> in
  the program as shipped.\<close>

definition monitor_feeds :: "world \<Rightarrow> (string \<times> string option) list \<Rightarrow> db \<Rightarrow> error + (db \<times> event list)" where
  "monitor_feeds w rss_feeds d =
     (case process_feeds w rss_feeds (register_feeds w rss_feeds d) of
        Inl e \<Rightarrow> Inl e
      | Inr (d1, tr) \<Rightarrow> Inr (fst (prune_old_articles w d1), tr))"

section \<open>Notions used in the statements\<close>

text \<open>What the loop gets for an entry: the content, and the page requests made for it.\<close>

definition entry_text :: "world \<Rightarrow> item \<Rightarrow> string option" where
  "entry_text w it = fst (entry_content w it)"

definition entry_requests :: "world \<Rightarrow> item \<Rightarrow> event list" where
  "entry_requests w it = snd (entry_content w it)"

text \<open>The tuple that the loop appends for an entry.\<close>

definition entry_tuple :: "world \<Rightarrow> item \<Rightarrow> new_article" where
  "entry_tuple w it =
     (get_article_identifier w it, dict_get (title it) ''No title'', dict_get (link it) ''No link'',
      dict_get (description it) ''No description'', entry_text w it, parse_pub_date w it)"

text \<open>The texts that the adapter writes for the clock's reading and for the cutoff of
  the pruning.\<close>

definition now_text :: "world \<Rightarrow> string" where
  "now_text w = adapt_datetime w (datetime_now w)"

definition cutoff_text :: "world \<Rightarrow> string" where
  "cutoff_text w =
     adapt_datetime w (minus_timedelta (datetime_now w) (timedelta_days PRUNE_OLDER_THAN_DAYS))"


text \<open>The \<^verbatim>\<open>UNIQUE(feed_url, identifier)\<close> constraint as a property of the table.\<close>

definition unique_articles :: "db \<Rightarrow> bool" where
  "unique_articles d \<longleftrightarrow> distinct (map (\<lambda>r. (feed_url r, art_identifier r)) (articles d))"

text \<open>The loop state is well formed with respect to the set \<open>S\<close> loaded from the store:
  \<^verbatim>\<open>seen\<close> is \<open>S\<close> plus the identifiers collected, which are pairwise different and
  not in \<open>S\<close>.\<close>

definition loop_inv :: "string set \<Rightarrow> string set \<times> new_article list \<times> event list \<Rightarrow> bool" where
  "loop_inv S st \<longleftrightarrow>
     (case st of (seen, new, tr) \<Rightarrow>
        seen = S \<union> set (map fst new) \<and> distinct (map fst new) \<and> set (map fst new) \<inter> S = {})"

text \<open>What the loop over the entries of a feed leaves: its final state, the list
  \<^verbatim>\<open>new_articles\<close> and the page requests.\<close>

definition entries_loop :: "world \<Rightarrow> string \<Rightarrow> string option \<Rightarrow> db
    \<Rightarrow> string set \<times> new_article list \<times> event list" where
  "entries_loop w url kw d =
     fold (process_entry w kw) (entries (parse w url)) (stored_identifiers d url, [], [])"

definition batch :: "world \<Rightarrow> string \<Rightarrow> string option \<Rightarrow> db \<Rightarrow> new_article list" where
  "batch w url kw d = fst (snd (entries_loop w url kw d))"

definition fetches :: "world \<Rightarrow> string \<Rightarrow> string option \<Rightarrow> db \<Rightarrow> event list" where
  "fetches w url kw d = snd (snd (entries_loop w url kw d))"

text \<open>The two \<^verbatim>\<open>UPDATE\<close>s of a feed row.\<close>

definition count_failure :: "feed_row \<Rightarrow> feed_row" where
  "count_failure r = r\<lparr>failure_count := failure_count r + 1\<rparr>"

definition mark_checked :: "world \<Rightarrow> feed_row \<Rightarrow> feed_row" where
  "mark_checked w r = r\<lparr>failure_count := 0, last_checked := now_text w\<rparr>"

text \<open>The lines of the notification for one collected article, and the notification
  for a feed: header and the lines of the collected articles.\<close>

fun article_text :: "new_article \<Rightarrow> string" where
  "article_text (ident, t, l, ds, content, p) =
     ''Title: '' @ t @ [CHR 0x0A] @ ''Link: '' @ l @ [CHR 0x0A]
       @ ''Content: '' @ py_or content ds @ [CHR 0x0A, CHR 0x0A]"

definition article_mail :: "world \<Rightarrow> string \<Rightarrow> new_article list \<Rightarrow> event" where
  "article_mail w url new =
     Email (''New RSS Articles: '' @ dict_get (feed_title (parse w url)) url)
           (''New articles in '' @ dict_get (feed_title (parse w url)) url @ '':''
              @ [CHR 0x0A, CHR 0x0A] @ concat (map article_text new))"

text \<open>The subject of the mail that reports a failing feed.\<close>

definition alert_subject :: "string \<Rightarrow> string" where
  "alert_subject url = ''RSS Monitor Error: '' @ url"

text \<open>The mail that reports a failing feed, with the failure count \<open>n\<close>.\<close>

definition alert_mail :: "world \<Rightarrow> string \<Rightarrow> int \<Rightarrow> event" where
  "alert_mail w url n =
     Email (alert_subject url)
           (''Failed to parse feed '' @ url @ '' '' @ str_int n @ '' times. Error: ''
              @ bozo_exception (parse w url))"

text \<open>A configured feed is settled in a store when it does not parse, or each of its
  entries is stored for the feed or fails the feed's filter: a pass finds nothing new in
  it.\<close>

definition settled :: "world \<Rightarrow> db \<Rightarrow> string \<times> string option \<Rightarrow> bool" where
  "settled w d fk \<longleftrightarrow>
     (case fk of (url, kw) \<Rightarrow>
        bozo (parse w url) \<or>
        (\<forall>it \<in> set (entries (parse w url)).
           get_article_identifier w it \<in> stored_identifiers d url \<or>
           \<not> matches_filter w it (entry_text w it) kw))"

text \<open>The failure count persisted for a feed; a feed without a row has not failed yet
  (its row is created with count 0).\<close>

definition failures :: "db \<Rightarrow> string \<Rightarrow> int" where
  "failures d url = (case feeds d url of None \<Rightarrow> 0 | Some r \<Rightarrow> failure_count r)"

text \<open>The rows of the \<^verbatim>\<open>articles\<close> table that belong to a feed.\<close>

definition articles_of :: "db \<Rightarrow> string \<Rightarrow> article list" where
  "articles_of d url = filter (\<lambda>a. feed_url a = url) (articles d)"

text \<open>The scheduler calls \<^const>\<open>monitor_feeds\<close> again and again; each pass meets its own
  world and starts from the database the pass before left.\<close>

fun run_passes :: "world list \<Rightarrow> (string \<times> string option) list \<Rightarrow> db \<Rightarrow> error + db" where
  "run_passes [] rss_feeds d = Inr d"
| "run_passes (w # ws) rss_feeds d =
     (case monitor_feeds w rss_feeds d of
        Inl e \<Rightarrow> Inl e
      | Inr (d1, tr) \<Rightarrow> run_passes ws rss_feeds d1)"

section \<open>Example data\<close>

text \<open>Two readings of the clock, 2026-11-04 09:00:00 and one hour later, and three
  entries: one with a GUID and an ISO date, one with a link only and an RFC 822 date, one
  with neither.\<close>

definition ex_now :: int where
  "ex_now = 63929379600000000"

definition ex_later :: int where
  "ex_later = 63929383200000000"

definition ex_feed_url :: string where
  "ex_feed_url = ''https://news.opensuse.org/feed/''"

definition ex_item_guid :: item where
  "ex_item_guid =
     \<lparr>guid = Some ''urn:post:1'', link = Some ''https://news.opensuse.org/1'',
      title = Some ''Leap released'', description = Some ''Release notes'',
      published = Some ''2026-11-01T08:00:00Z'', pubdate = None\<rparr>"

definition ex_item_link :: item where
  "ex_item_link =
     \<lparr>guid = None, link = Some ''https://news.opensuse.org/2'',
      title = Some ''Python sprint'', description = None,
      published = Some ''Sun, 01 Nov 2026 08:00:00 GMT'', pubdate = None\<rparr>"

definition ex_item_bare :: item where
  "ex_item_bare =
     \<lparr>guid = Some '''', link = None, title = Some ''Untitled'', description = None,
      published = None, pubdate = None\<rparr>"

text \<open>The library functions on the values that the examples meet, as Python computes
  them.  \<^verbatim>\<open>raise_for_status\<close> of \<^verbatim>\<open>requests\<close> raises for a status from 400 to 599.
  \<^verbatim>\<open>str.lower\<close> maps the letters \<open>A\<close> to \<open>Z\<close>; a capital sigma (bytes CE A3) becomes the
  final sigma (CF 82) at the end of a word and the small sigma (CF 83) inside one.  The
  adapter of \<^verbatim>\<open>sqlite3\<close> writes \<^verbatim>\<open>isoformat(" ")\<close>.\<close>

definition requests_raise_for_status :: "response \<Rightarrow> string option" where
  "requests_raise_for_status r =
     (if 400 \<le> status_code r \<and> status_code r < 600 then Some ''HTTPError'' else None)"

definition ex_lower_char :: "char \<Rightarrow> char" where
  "ex_lower_char c =
     (if (65::nat) \<le> of_char c \<and> of_char c \<le> (90::nat) then char_of (of_char c + (32::nat)) else c)"

definition ex_lower :: "string \<Rightarrow> string" where
  "ex_lower s =
     (if s = [CHR ''A'', CHR 0xCE, CHR 0xA3] then [CHR ''a'', CHR 0xCF, CHR 0x82]
      else if s = [CHR ''A'', CHR 0xCE, CHR 0xA3, CHR ''B''] then [CHR ''a'', CHR 0xCF, CHR 0x83, CHR ''b'']
      else map ex_lower_char s)"

definition ex_adapt :: "datetime \<Rightarrow> string" where
  "ex_adapt x =
     (if wall x = 63929379600000000 \<and> utcoffset x = None then ''2026-11-04 09:00:00''
      else if wall x = 63929383200000000 \<and> utcoffset x = None then ''2026-11-04 10:00:00''
      else if wall x = 63926787600000000 \<and> utcoffset x = None then ''2026-10-05 09:00:00''
      else if wall x = 63926791200000000 \<and> utcoffset x = None then ''2026-10-05 10:00:00''
      else if wall x = 63929116800000000 \<and> utcoffset x = Some 0 then ''2026-11-01 08:00:00+00:00''
      else if wall x = 63926785800000000 \<and> utcoffset x = Some (- 18000000000)
        then ''2026-10-05 08:30:00-05:00''
      else if wall x = 63926791200000000 \<and> utcoffset x = Some 18000000000
        then ''2026-10-05 10:00:00+05:00''
      else [])"

definition ex_fromisoformat :: "string \<Rightarrow> datetime option" where
  "ex_fromisoformat s =
     (if s = ''2026-11-01T08:00:00+00:00'' then Some \<lparr>wall = 63929116800000000, utcoffset = Some 0\<rparr>
      else if s = ''2026-11-04T09:00:00'' then Some \<lparr>wall = 63929379600000000, utcoffset = None\<rparr>
      else if s = ''2026-11-04T10:00:00'' then Some \<lparr>wall = 63929383200000000, utcoffset = None\<rparr>
      else None)"

definition ex_isoformat :: "datetime \<Rightarrow> string" where
  "ex_isoformat x =
     (if wall x = 63929383200000000 then ''2026-11-04T10:00:00'' else ''2026-11-04T09:00:00'')"

text \<open>A world in which the example feed parses, every other feed is malformed, the first
  article's page can be read and every other request fails.  The digest is a stand-in
  that keeps its argument visible.\<close>

definition ex_world :: world where
  "ex_world =
     \<lparr>parse = (\<lambda>u. if u = ex_feed_url
                    then \<lparr>bozo = False, bozo_exception = [], feed_title = Some ''openSUSE News'',
                          entries = [ex_item_guid, ex_item_link]\<rparr>
                    else \<lparr>bozo = True, bozo_exception = ''not well-formed'', feed_title = None,
                          entries = []\<rparr>),
      requests_get = (\<lambda>u. if u = ''https://news.opensuse.org/1''
                           then Inr \<lparr>status_code = 200, response_text = ''Leap 16 is out''\<rparr>
                           else Inl ''ConnectionError''),
      raise_for_status = requests_raise_for_status,
      Document_summary = (\<lambda>html. Inr html),
      HTMLParser_feed = (\<lambda>html. Inr [html]),
      sha256_hexdigest = (\<lambda>s. ''sha256:'' @ s),
      str_lower = ex_lower,
      fromisoformat = ex_fromisoformat,
      isoformat = ex_isoformat,
      adapt_datetime = ex_adapt,
      now = ex_now\<rparr>"

text \<open>A store holding one article published 31 days and one published 1 day before
  \<^const>\<open>ex_now\<close>.\<close>

definition ex_old_article :: article where
  "ex_old_article =
     \<lparr>feed_url = ex_feed_url, art_identifier = ''urn:post:old'', art_title = ''Old'',
      art_link = ''https://news.opensuse.org/old'', art_description = ''Old news'',
      fetched_content = None, pub_date = ''2026-10-04 09:00:00''\<rparr>"

definition ex_recent_article :: article where
  "ex_recent_article =
     \<lparr>feed_url = ex_feed_url, art_identifier = ''urn:post:recent'', art_title = ''Recent'',
      art_link = ''https://news.opensuse.org/recent'', art_description = ''Fresh news'',
      fetched_content = None, pub_date = ''2026-11-03 09:00:00''\<rparr>"

definition ex_db :: db where
  "ex_db = \<lparr>feeds = Map.empty, articles = [ex_old_article, ex_recent_article]\<rparr>"

text \<open>The second configured feed, which does not parse in \<^const>\<open>ex_world\<close>, and a
  store in which it has failed twice already.\<close>

definition ex_reddit_url :: string where
  "ex_reddit_url = ''https://www.reddit.com/r/python.rss''"

definition ex_db_failing :: db where
  "ex_db_failing =
     ex_db\<lparr>feeds := [ex_reddit_url \<mapsto> \<lparr>last_checked = ''2026-11-03 09:00:00'', failure_count = 2\<rparr>]\<rparr>"

text \<open>The same world with every page request failing, and an empty store.\<close>

definition ex_world_offline :: world where
  "ex_world_offline = ex_world\<lparr>requests_get := (\<lambda>u. Inl ''ConnectionError'')\<rparr>"

definition ex_empty_db :: db where
  "ex_empty_db = \<lparr>feeds = Map.empty, articles = []\<rparr>"

text \<open>The same world with every page answered by status 300 (Multiple Choices) and a body.\<close>

definition ex_world_300 :: world where
  "ex_world_300 =
     ex_world\<lparr>requests_get := (\<lambda>u. Inr \<lparr>status_code = 300, response_text = ''Leap 16 is out''\<rparr>)\<rparr>"

text \<open>A world whose feed still lists the article that \<^const>\<open>ex_db\<close> stores as 31 days
  old, with a date in the RFC 822 format of RSS.\<close>

definition ex_item_old :: item where
  "ex_item_old =
     \<lparr>guid = Some ''urn:post:old'', link = Some ''https://news.opensuse.org/old'',
      title = Some ''Old'', description = Some ''Old news'',
      published = Some ''Sun, 04 Oct 2026 09:00:00 GMT'', pubdate = None\<rparr>"

definition ex_world_old :: world where
  "ex_world_old =
     ex_world\<lparr>parse := (\<lambda>u. \<lparr>bozo = False, bozo_exception = [],
                               feed_title = Some ''openSUSE News'', entries = [ex_item_old]\<rparr>)\<rparr>"

text \<open>A world whose feed lists two entries under one GUID: the first example entry and
  one titled like the second.\<close>

definition ex_item_twin :: item where
  "ex_item_twin =
     \<lparr>guid = Some ''urn:post:1'', link = Some ''https://news.opensuse.org/2'',
      title = Some ''Python sprint'', description = None,
      published = Some ''Sun, 01 Nov 2026 08:00:00 GMT'', pubdate = None\<rparr>"

definition ex_world_twin :: world where
  "ex_world_twin =
     ex_world\<lparr>parse := (\<lambda>u. \<lparr>bozo = False, bozo_exception = [],
                               feed_title = Some ''openSUSE News'',
                               entries = [ex_item_guid, ex_item_twin]\<rparr>)\<rparr>"

text \<open>An entry whose title ends in a capital sigma, and a keyword that starts with a
  small sigma.\<close>

definition ex_item_sigma :: item where
  "ex_item_sigma =
     \<lparr>guid = None, link = None, title = Some [CHR ''A'', CHR 0xCE, CHR 0xA3],
      description = Some ''B'', published = None, pubdate = None\<rparr>"

definition ex_sigma_keyword :: string where
  "ex_sigma_keyword = [CHR 0xCF, CHR 0x83, CHR ''b'']"








section \<open>Facts about the built-ins\<close>

lemma startswith_iff: "startswith s p \<longleftrightarrow> (\<exists>ss. s = p @ ss)"
  by (induction s p rule: startswith.induct) auto

lemma str_in_iff: "str_in a b \<longleftrightarrow> (\<exists>ps ss. b = ps @ a @ ss)"
proof (induction b)
  case Nil
  then show ?case by simp
next
  case (Cons c cs)
  show ?case
  proof
    assume "str_in a (c # cs)"
    then consider "startswith (c # cs) a" | "str_in a cs" by auto
    then show "\<exists>ps ss. c # cs = ps @ a @ ss"
    proof cases
      case 1
      then obtain ss where "c # cs = a @ ss" by (auto simp: startswith_iff)
      then have "c # cs = [] @ a @ ss" by simp
      then show ?thesis by blast
    next
      case 2
      then obtain ps ss where "cs = ps @ a @ ss" using Cons.IH by blast
      then have "c # cs = (c # ps) @ a @ ss" by simp
      then show ?thesis by blast
    qed
  next
    assume "\<exists>ps ss. c # cs = ps @ a @ ss"
    then obtain ps ss where e: "c # cs = ps @ a @ ss" by blast
    show "str_in a (c # cs)"
    proof (cases ps)
      case Nil
      with e have "startswith (c # cs) a" by (auto simp: startswith_iff)
      then show ?thesis by simp
    next
      case (Cons p ps')
      with e have "cs = ps' @ a @ ss" by simp
      then have "str_in a cs" using Cons.IH by blast
      then show ?thesis by simp
    qed
  qed
qed

lemma py_or_empty: "py_or c [] = dict_get c []"
  by (cases c) auto

lemma replace_Z_append: "replace_Z (a @ b) = replace_Z a @ replace_Z b"
  by (simp add: replace_Z_def)

lemma replace_Z_id: "CHR ''Z'' \<notin> set s \<Longrightarrow> replace_Z s = s"
  by (induction s) (auto simp: replace_Z_def)

lemma replace_Z_trailing: "CHR ''Z'' \<notin> set s \<Longrightarrow> replace_Z (s @ ''Z'') = s @ ''+00:00''"
  by (simp add: replace_Z_append replace_Z_id) (simp add: replace_Z_def)

lemma retention_window: "timedelta_days PRUNE_OLDER_THAN_DAYS = 2592000000000"
  by (simp add: timedelta_days_def PRUNE_OLDER_THAN_DAYS_def)

lemma cutoff_text_eq:
  "cutoff_text w = adapt_datetime w \<lparr>wall = now w - 2592000000000, utcoffset = None\<rparr>"
  by (simp add: cutoff_text_def retention_window minus_timedelta_def datetime_now_def)


section \<open>The identifier of an entry\<close>

text \<open>
  C3.  The identifier of an entry is its GUID when that is present and not empty,
  whatever the other fields hold; else its link when that is present and not empty;
  else the hex digest of the title followed by the date string (\<^verbatim>\<open>published\<close>, else
  \<^verbatim>\<open>pubdate\<close>), each the empty string when missing.  The function is total: one of the
  three cases applies to every entry.
\<close>

theorem get_article_identifier_priority:
  "(\<forall>g. guid it = Some g \<and> g \<noteq> [] \<longrightarrow> get_article_identifier w it = g) \<and>
   (\<forall>l. (guid it = None \<or> guid it = Some []) \<and> link it = Some l \<and> l \<noteq> []
        \<longrightarrow> get_article_identifier w it = l) \<and>
   ((guid it = None \<or> guid it = Some []) \<and> (link it = None \<or> link it = Some [])
        \<longrightarrow> get_article_identifier w it =
             sha256_hexdigest w
               (dict_get (title it) [] @ dict_get (published it) (dict_get (pubdate it) [])))"
  by (auto simp: get_article_identifier_def Let_def split: option.splits)

theorem get_article_identifier_priority_witness:
  "get_article_identifier ex_world ex_item_guid = ''urn:post:1'' \<and>
   get_article_identifier ex_world ex_item_link = ''https://news.opensuse.org/2'' \<and>
   get_article_identifier ex_world ex_item_bare = ''sha256:Untitled''"
  using get_article_identifier_priority [of ex_item_guid ex_world]
        get_article_identifier_priority [of ex_item_link ex_world]
        get_article_identifier_priority [of ex_item_bare ex_world]
  by (simp add: ex_item_guid_def ex_item_link_def ex_item_bare_def ex_world_def)

section \<open>The loop over the entries\<close>

lemma process_entry_cases:
  "process_entry w kw it (seen, new, tr) =
     (if get_article_identifier w it \<in> seen then (seen, new, tr)
      else if matches_filter w it (entry_text w it) kw
           then (insert (get_article_identifier w it) seen, new @ [entry_tuple w it],
                 tr @ entry_requests w it)
           else (seen, new, tr @ entry_requests w it))"
  by (simp add: process_entry_def Let_def entry_tuple_def entry_text_def entry_requests_def
        split_beta)

lemma entry_requests_eq:
  "entry_requests w it =
     (if dict_get (link it) ''No link'' \<noteq> [] then [Fetch (dict_get (link it) ''No link'')] else [])"
  by (simp add: entry_requests_def entry_content_def fetch_article_content_def Let_def)

lemma entry_text_eq:
  "entry_text w it =
     (if dict_get (link it) ''No link'' \<noteq> []
      then fst (fetch_article_content w (dict_get (link it) ''No link'')) else None)"
  by (simp add: entry_text_def entry_content_def Let_def)

lemma loop_inv_step: "loop_inv S st \<Longrightarrow> loop_inv S (process_entry w kw it st)"
  by (cases st) (auto simp: loop_inv_def process_entry_cases entry_tuple_def)

lemma loop_inv_fold: "loop_inv S st \<Longrightarrow> loop_inv S (fold (process_entry w kw) xs st)"
  by (induction xs arbitrary: st) (auto simp: loop_inv_step)

lemma loop_inv_init: "loop_inv S (S, [], [])"
  by (simp add: loop_inv_def)

section \<open>Inserting the new articles\<close>

lemma pair_stored_iff:
  "(url, i) \<in> set (map (\<lambda>r. (feed_url r, art_identifier r)) (articles d))
     \<longleftrightarrow> i \<in> stored_identifiers d url"
  by (auto simp: stored_identifiers_def)

lemma insert_article_new:
  "art_identifier a \<notin> stored_identifiers d (feed_url a)
     \<Longrightarrow> insert_article a d = Inr (d\<lparr>articles := articles d @ [a]\<rparr>)"
  by (simp add: insert_article_def pair_stored_iff del: set_map)

lemma stored_identifiers_append:
  "stored_identifiers (d\<lparr>articles := articles d @ rows\<rparr>) u
     = stored_identifiers d u \<union> art_identifier ` {r \<in> set rows. feed_url r = u}"
  by (auto simp: stored_identifiers_def)

lemma insert_new_articles_ok:
  "distinct (map fst new) \<Longrightarrow> set (map fst new) \<inter> stored_identifiers d url = {}
     \<Longrightarrow> insert_new_articles w url new body d
           = Inr (body @ concat (map article_text new),
                  d\<lparr>articles := articles d @ map (article_row w url) new\<rparr>)"
proof (induction new arbitrary: body d)
  case Nil
  then show ?case by simp
next
  case (Cons n new)
  obtain i t l ds c p where n: "n = (i, t, l, ds, c, p)" by (cases n)
  let ?d' = "d\<lparr>articles := articles d @ [article_row w url n]\<rparr>"
  from Cons.prems n have "i \<notin> stored_identifiers d url" by auto
  then have ins: "insert_article (article_row w url n) d = Inr ?d'"
    using insert_article_new [of "article_row w url n" d] by (simp add: n)
  have "set (map fst new) \<inter> stored_identifiers ?d' url = {}"
    using Cons.prems n by (auto simp: stored_identifiers_append)
  moreover have "distinct (map fst new)" using Cons.prems by simp
  ultimately have
    "insert_new_articles w url new
       (body @ ''Title: '' @ t @ [CHR 0x0A] @ ''Link: '' @ l @ [CHR 0x0A]
          @ ''Content: '' @ py_or c ds @ [CHR 0x0A, CHR 0x0A]) ?d'
     = Inr ((body @ ''Title: '' @ t @ [CHR 0x0A] @ ''Link: '' @ l @ [CHR 0x0A]
               @ ''Content: '' @ py_or c ds @ [CHR 0x0A, CHR 0x0A]) @ concat (map article_text new),
            ?d'\<lparr>articles := articles ?d' @ map (article_row w url) new\<rparr>)"
    using Cons.IH by blast
  then show ?case using ins by (simp add: n)
qed


section \<open>One feed\<close>

lemma update_feed_articles [simp]: "articles (update_feed url f d) = articles d"
  by (simp add: update_feed_def split: option.splits)

lemma update_feed_stored [simp]: "stored_identifiers (update_feed url f d) u = stored_identifiers d u"
  by (simp add: stored_identifiers_def)

lemma update_feed_feeds:
  "feeds (update_feed url f d) u = (if u = url then map_option f (feeds d url) else feeds d u)"
  by (simp add: update_feed_def split: option.splits)

lemma entries_loop_inv: "loop_inv (stored_identifiers d url) (entries_loop w url kw d)"
  unfolding entries_loop_def by (rule loop_inv_fold) (rule loop_inv_init)

lemma batch_fresh:
  "distinct (map fst (batch w url kw d))"
  "set (map fst (batch w url kw d)) \<inter> stored_identifiers d url = {}"
  using entries_loop_inv [of d url w kw]
  by (auto simp: loop_inv_def batch_def split: prod.splits)

lemma process_feed_success:
  assumes "\<not> bozo (parse w url)"
  shows "process_feed w (url, kw) d =
           Inr ((update_feed url (mark_checked w) d)
                  \<lparr>articles := articles d @ map (article_row w url) (batch w url kw d)\<rparr>,
                fetches w url kw d @
                  (if batch w url kw d = [] then []
                   else [article_mail w url (batch w url kw d)]))"
proof -
  let ?d1 = "update_feed url (mark_checked w) d"
  obtain seen' new tr where loop: "entries_loop w url kw d = (seen', new, tr)"
    by (cases "entries_loop w url kw d")
  then have b: "batch w url kw d = new" and f: "fetches w url kw d = tr"
    by (simp_all add: batch_def fetches_def)
  have fold: "fold (process_entry w kw) (entries (parse w url)) (stored_identifiers ?d1 url, [], [])
                = (seen', new, tr)"
    using loop by (simp add: entries_loop_def)
  have m: "(\<lambda>r. r\<lparr>failure_count := 0, last_checked := adapt_datetime w (datetime_now w)\<rparr>)
             = mark_checked w"
    by (simp add: mark_checked_def now_text_def fun_eq_iff)
  show ?thesis
  proof (cases "new = []")
    case True
    then show ?thesis
      using assms fold by (simp add: process_feed_def Let_def b f m)
  next
    case False
    have "distinct (map fst new)" "set (map fst new) \<inter> stored_identifiers ?d1 url = {}"
      using batch_fresh [of w url kw d] by (simp_all add: b)
    then have
      "insert_new_articles w url new
          (''New articles in '' @ dict_get (feed_title (parse w url)) url @ '':'' @ [CHR 0x0A, CHR 0x0A]) ?d1
        = Inr ((''New articles in '' @ dict_get (feed_title (parse w url)) url @ '':''
                  @ [CHR 0x0A, CHR 0x0A]) @ concat (map article_text new),
               ?d1\<lparr>articles := articles ?d1 @ map (article_row w url) new\<rparr>)"
      by (rule insert_new_articles_ok)
    then show ?thesis
      using assms fold False by (simp add: process_feed_def Let_def b f m article_mail_def)
  qed
qed

lemma process_feed_failure:
  assumes "bozo (parse w url)" and "feeds d url = Some r"
  shows "process_feed w (url, kw) d =
           Inr (d\<lparr>feeds := (feeds d)(url \<mapsto> count_failure r)\<rparr>,
                if ERROR_THRESHOLD \<le> failure_count r + 1
                then [alert_mail w url (failure_count r + 1)]
                else [])"
  using assms
  by (simp add: process_feed_def Let_def update_feed_def count_failure_def alert_subject_def
        alert_mail_def)

lemma process_feed_total:
  assumes "feeds d url \<noteq> None"
  shows "\<exists>d' tr. process_feed w (url, kw) d = Inr (d', tr)"
proof (cases "bozo (parse w url)")
  case True
  with assms show ?thesis using process_feed_failure by fastforce
next
  case False
  then show ?thesis using process_feed_success by blast
qed

lemma process_feed_result:
  assumes "process_feed w (url, kw) d = Inr (d', tr)"
  shows "(bozo (parse w url) \<and> (\<exists>r. feeds d url = Some r \<and>
            d' = d\<lparr>feeds := (feeds d)(url \<mapsto> count_failure r)\<rparr> \<and>
            tr = (if ERROR_THRESHOLD \<le> failure_count r + 1
                  then [alert_mail w url (failure_count r + 1)]
                  else []))) \<or>
         (\<not> bozo (parse w url) \<and>
            d' = (update_feed url (mark_checked w) d)
                   \<lparr>articles := articles d @ map (article_row w url) (batch w url kw d)\<rparr> \<and>
            tr = fetches w url kw d @
               (if batch w url kw d = [] then [] else [article_mail w url (batch w url kw d)]))"
proof (cases "bozo (parse w url)")
  case True
  show ?thesis
  proof (cases "feeds d url")
    case None
    with True assms show ?thesis
      by (simp add: process_feed_def Let_def update_feed_def)
  next
    case (Some r)
    with True assms process_feed_failure [of w url d r kw] show ?thesis by auto
  qed
next
  case False
  with assms process_feed_success [of w url kw d] show ?thesis by auto
qed

lemma process_feed_feeds_other:
  assumes "process_feed w (url, kw) d = Inr (d', tr)" and "u \<noteq> url"
  shows "feeds d' u = feeds d u"
  using process_feed_result [OF assms(1)] assms(2) by (auto simp: update_feed_feeds)

lemma process_feed_feeds_dom:
  assumes "process_feed w (url, kw) d = Inr (d', tr)"
  shows "feeds d' u = None \<longleftrightarrow> feeds d u = None"
  using process_feed_result [OF assms] by (auto simp: update_feed_feeds split: if_splits)

lemma process_feeds_total:
  "\<forall>u \<in> fst ` set rss. feeds d u \<noteq> None \<Longrightarrow> \<exists>d' tr. process_feeds w rss d = Inr (d', tr)"
proof (induction rss arbitrary: d)
  case Nil
  then show ?case by simp
next
  case (Cons fk rss)
  obtain url kw where fk: "fk = (url, kw)" by (cases fk)
  from Cons.prems fk have "feeds d url \<noteq> None" by simp
  then obtain d1 tr1 where p: "process_feed w (url, kw) d = Inr (d1, tr1)"
    using process_feed_total by blast
  have "\<forall>u \<in> fst ` set rss. feeds d1 u \<noteq> None"
    using Cons.prems process_feed_feeds_dom [OF p] by simp
  then obtain d2 tr2 where "process_feeds w rss d1 = Inr (d2, tr2)"
    using Cons.IH by blast
  with p fk show ?case by simp
qed

lemma insert_or_ignore_feed_feeds:
  "feeds (insert_or_ignore_feed w url d) u =
     (case feeds d u of
        Some r \<Rightarrow> Some r
      | None \<Rightarrow> if u = url then Some \<lparr>last_checked = now_text w, failure_count = 0\<rparr> else None)"
  by (auto simp: insert_or_ignore_feed_def now_text_def split: option.splits)

lemma insert_or_ignore_feed_articles [simp]:
  "articles (insert_or_ignore_feed w url d) = articles d"
  by (simp add: insert_or_ignore_feed_def split: option.splits)

lemma register_feeds_feeds:
  "feeds (register_feeds w rss d) u =
     (case feeds d u of
        Some r \<Rightarrow> Some r
      | None \<Rightarrow> if u \<in> fst ` set rss then Some \<lparr>last_checked = now_text w, failure_count = 0\<rparr> else None)"
  unfolding register_feeds_def
  by (induction rss arbitrary: d) (auto simp: insert_or_ignore_feed_feeds split: option.splits)

lemma register_feeds_articles [simp]: "articles (register_feeds w rss d) = articles d"
  unfolding register_feeds_def by (induction rss arbitrary: d) auto

lemma monitor_feeds_total: "\<exists>d' tr. monitor_feeds w rss d = Inr (d', tr)"
proof -
  have "\<forall>u \<in> fst ` set rss. feeds (register_feeds w rss d) u \<noteq> None"
    by (auto simp: register_feeds_feeds split: option.splits)
  then obtain d1 tr where "process_feeds w rss (register_feeds w rss d) = Inr (d1, tr)"
    using process_feeds_total by blast
  then show ?thesis by (simp add: monitor_feeds_def)
qed

lemma monitor_feeds_result:
  "monitor_feeds w rss d = Inr (d', tr) \<longleftrightarrow>
     (\<exists>d1. process_feeds w rss (register_feeds w rss d) = Inr (d1, tr) \<and>
           d' = fst (prune_old_articles w d1))"
  by (auto simp: monitor_feeds_def split: sum.splits)

section \<open>Uniqueness\<close>

lemma unique_articles_append:
  assumes "unique_articles d" and "distinct (map fst new)"
    and "set (map fst new) \<inter> stored_identifiers d url = {}"
  shows "unique_articles (d'\<lparr>articles := articles d @ map (article_row w url) new\<rparr>)"
proof -
  have pairs: "map (\<lambda>r. (feed_url r, art_identifier r)) (map (article_row w url) new)
                 = map (\<lambda>i. (url, i)) (map fst new)"
    by (induction new) auto
  have "distinct (map (\<lambda>i. (url, i)) (map fst new))"
    using assms(2) by (simp add: distinct_map inj_on_def)
  moreover have "set (map (\<lambda>r. (feed_url r, art_identifier r)) (articles d))
                   \<inter> set (map (\<lambda>i. (url, i)) (map fst new)) = {}"
    using assms(3) by (auto simp: stored_identifiers_def)
  ultimately show ?thesis
    using assms(1) by (simp add: unique_articles_def pairs del: map_map)
qed

lemma process_feed_unique:
  assumes "process_feed w (url, kw) d = Inr (d', tr)" and "unique_articles d"
  shows "unique_articles d'"
proof -
  have "unique_articles ((update_feed url (mark_checked w) d)
          \<lparr>articles := articles d @ map (article_row w url) (batch w url kw d)\<rparr>)"
    using assms(2) batch_fresh(1) batch_fresh(2) by (rule unique_articles_append)
  then show ?thesis
    using process_feed_result [OF assms(1)] assms(2) by (auto simp: unique_articles_def)
qed

lemma process_feeds_unique:
  "process_feeds w rss d = Inr (d', tr) \<Longrightarrow> unique_articles d \<Longrightarrow> unique_articles d'"
proof (induction rss arbitrary: d tr)
  case Nil
  then show ?case by simp
next
  case (Cons fk rss)
  obtain url kw where fk: "fk = (url, kw)" by (cases fk)
  from Cons.prems(1) fk obtain d1 tr1 tr2 where
    p: "process_feed w (url, kw) d = Inr (d1, tr1)" and q: "process_feeds w rss d1 = Inr (d', tr2)"
    by (auto split: sum.splits)
  from process_feed_unique [OF p Cons.prems(2)] Cons.IH [OF q] show ?case by blast
qed

lemma prune_unique: "unique_articles d \<Longrightarrow> unique_articles (fst (prune_old_articles w d))"
  by (simp add: unique_articles_def prune_old_articles_def Let_def distinct_map_filter)

lemma monitor_feeds_unique:
  "monitor_feeds w rss d = Inr (d', tr) \<Longrightarrow> unique_articles d \<Longrightarrow> unique_articles d'"
  by (auto simp: monitor_feeds_result unique_articles_def
      dest!: process_feeds_unique intro: prune_unique [unfolded unique_articles_def])

section \<open>Pruning\<close>

lemma prune_articles:
  "articles (fst (prune_old_articles w d))
     = filter (\<lambda>a. \<not> text_less (pub_date a) (cutoff_text w)) (articles d)"
  by (simp add: prune_old_articles_def Let_def cutoff_text_def)


lemma ex_texts:
  "now_text ex_world = ''2026-11-04 09:00:00''"
  "cutoff_text ex_world = ''2026-10-05 09:00:00''"
  "now_text (ex_world\<lparr>now := ex_later\<rparr>) = ''2026-11-04 10:00:00''"
  "cutoff_text (ex_world\<lparr>now := ex_later\<rparr>) = ''2026-10-05 10:00:00''"
  by (simp_all add: now_text_def cutoff_text_eq datetime_now_def ex_world_def ex_adapt_def
        ex_now_def ex_later_def)



section \<open>No duplicate insert\<close>

text \<open>
  C1.  While a feed is processed the \<^verbatim>\<open>seen\<close> set is the set of identifiers stored for
  the feed plus those collected in this pass, and the collected identifiers are pairwise
  different and not among the stored ones.  So processing a feed never ends in the
  constraint violation of \<^verbatim>\<open>INSERT\<close>, whatever the database holds; a whole pass ends
  without any exception, from every database, and if no (feed URL, identifier) pair
  occurs twice in the \<^verbatim>\<open>articles\<close> table before the pass, none does after it.
\<close>

theorem no_duplicate_insert:
  "loop_inv (stored_identifiers d url) (entries_loop w url kw d) \<and>
   process_feed w (url, kw) d \<noteq> Inl IntegrityError \<and>
   (\<exists>d' tr. monitor_feeds w rss_feeds d = Inr (d', tr) \<and>
            (unique_articles d \<longrightarrow> unique_articles d'))"
proof -
  have "process_feed w (url, kw) d \<noteq> Inl IntegrityError"
  proof (cases "bozo (parse w url)")
    case True
    then show ?thesis
      by (simp add: process_feed_def Let_def split: option.splits)
  next
    case False
    then show ?thesis using process_feed_success [of w url kw d] by auto
  qed
  moreover obtain d' tr where m: "monitor_feeds w rss_feeds d = Inr (d', tr)"
    using monitor_feeds_total by blast
  moreover have "unique_articles d \<longrightarrow> unique_articles d'"
    using monitor_feeds_unique [OF m] by blast
  ultimately show ?thesis
    using entries_loop_inv by blast
qed

theorem no_duplicate_insert_witness:
  "unique_articles ex_db \<and>
   (\<exists>d' tr. monitor_feeds ex_world RSS_FEEDS ex_db = Inr (d', tr) \<and> unique_articles d')"
proof -
  have u: "unique_articles ex_db"
    by (simp add: unique_articles_def ex_db_def ex_old_article_def ex_recent_article_def)
  with no_duplicate_insert [of ex_db ex_feed_url ex_world None RSS_FEEDS] show ?thesis
    by blast
qed

section \<open>The feed rows during a pass\<close>

lemma process_feed_feeds_same:
  assumes "process_feed w (url, kw) d = Inr (d', tr)"
  shows "feeds d' url =
           map_option (if bozo (parse w url) then count_failure else mark_checked w) (feeds d url)"
  using process_feed_result [OF assms] by (auto simp: update_feed_feeds)

lemma process_feeds_feeds_unlisted:
  "process_feeds w rss d = Inr (d', tr) \<Longrightarrow> url \<notin> fst ` set rss \<Longrightarrow> feeds d' url = feeds d url"
proof (induction rss arbitrary: d tr)
  case Nil
  then show ?case by simp
next
  case (Cons fk rss)
  obtain u kw where fk: "fk = (u, kw)" by (cases fk)
  from Cons.prems(1) fk obtain d1 tr1 tr2 where
    p: "process_feed w (u, kw) d = Inr (d1, tr1)" and q: "process_feeds w rss d1 = Inr (d', tr2)"
    by (auto split: sum.splits)
  from Cons.prems(2) fk have "url \<noteq> u" "url \<notin> fst ` set rss" by auto
  with process_feed_feeds_other [OF p] Cons.IH [OF q] show ?case by simp
qed

lemma process_feeds_feeds_listed:
  "process_feeds w rss d = Inr (d', tr) \<Longrightarrow> distinct (map fst rss) \<Longrightarrow> url \<in> fst ` set rss
     \<Longrightarrow> feeds d' url =
           map_option (if bozo (parse w url) then count_failure else mark_checked w) (feeds d url)"
proof (induction rss arbitrary: d tr)
  case Nil
  then show ?case by simp
next
  case (Cons fk rss)
  obtain u kw where fk: "fk = (u, kw)" by (cases fk)
  from Cons.prems(1) fk obtain d1 tr1 tr2 where
    p: "process_feed w (u, kw) d = Inr (d1, tr1)" and q: "process_feeds w rss d1 = Inr (d', tr2)"
    by (auto split: sum.splits)
  show ?case
  proof (cases "url = u")
    case True
    with Cons.prems(2) fk have "url \<notin> fst ` set rss" by auto
    then have "feeds d' url = feeds d1 url" using process_feeds_feeds_unlisted [OF q] by simp
    with True process_feed_feeds_same [OF p] show ?thesis by simp
  next
    case False
    with Cons.prems fk have "distinct (map fst rss)" "url \<in> fst ` set rss" by auto
    with Cons.IH [OF q] process_feed_feeds_other [OF p, of url] False show ?thesis by simp
  qed
qed

lemma prune_feeds [simp]: "feeds (fst (prune_old_articles w d)) = feeds d"
  by (simp add: prune_old_articles_def Let_def)

lemma monitor_feeds_feeds_listed:
  assumes "monitor_feeds w rss d = Inr (d', tr)" and "distinct (map fst rss)"
    and "url \<in> fst ` set rss"
  shows "feeds d' url =
           Some ((if bozo (parse w url) then count_failure else mark_checked w)
                   (case feeds d url of
                      None \<Rightarrow> \<lparr>last_checked = now_text w, failure_count = 0\<rparr>
                    | Some r \<Rightarrow> r))"
proof -
  from assms(1) obtain d1 where
    p: "process_feeds w rss (register_feeds w rss d) = Inr (d1, tr)"
    and d': "d' = fst (prune_old_articles w d1)"
    by (auto simp: monitor_feeds_result)
  have "feeds (register_feeds w rss d) url =
          Some (case feeds d url of None \<Rightarrow> \<lparr>last_checked = now_text w, failure_count = 0\<rparr> | Some r \<Rightarrow> r)"
    using assms(3) by (simp add: register_feeds_feeds split: option.splits)
  with process_feeds_feeds_listed [OF p assms(2) assms(3)] d' show ?thesis by simp
qed

lemma process_feeds_feeds_dom:
  "process_feeds w rss d = Inr (d', tr) \<Longrightarrow> feeds d' u = None \<longleftrightarrow> feeds d u = None"
proof (induction rss arbitrary: d tr)
  case Nil
  then show ?case by simp
next
  case (Cons fk rss)
  obtain url kw where fk: "fk = (url, kw)" by (cases fk)
  from Cons.prems(1) fk obtain d1 tr1 tr2 where
    p: "process_feed w (url, kw) d = Inr (d1, tr1)" and q: "process_feeds w rss d1 = Inr (d', tr2)"
    by (auto split: sum.splits)
  from process_feed_feeds_dom [OF p] Cons.IH [OF q] show ?case by simp
qed

lemma monitor_feeds_keeps_rows:
  assumes "monitor_feeds w rss d = Inr (d', tr)" and "feeds d u \<noteq> None"
  shows "feeds d' u \<noteq> None"
proof -
  from assms(1) obtain d1 where
    p: "process_feeds w rss (register_feeds w rss d) = Inr (d1, tr)"
    and d': "d' = fst (prune_old_articles w d1)"
    by (auto simp: monitor_feeds_result)
  from assms(2) have "feeds (register_feeds w rss d) u \<noteq> None"
    by (auto simp: register_feeds_feeds)
  with process_feeds_feeds_dom [OF p] d' show ?thesis by simp
qed

section \<open>The articles of a feed that does not parse\<close>

lemma article_row_feed_url [simp]: "feed_url (article_row w u n) = u"
  by (cases n) simp

lemma process_feed_articles_of:
  assumes "process_feed w (u, kw) d = Inr (d', tr)" and "u \<noteq> url \<or> bozo (parse w u)"
  shows "articles_of d' url = articles_of d url"
proof (cases "bozo (parse w u)")
  case True
  with process_feed_result [OF assms(1)] show ?thesis by (auto simp: articles_of_def)
next
  case False
  with assms(2) have "u \<noteq> url" by simp
  then have "filter (\<lambda>a. feed_url a = url) (map (article_row w u) (batch w u kw d)) = []"
    by (simp add: filter_empty_conv)
  with False process_feed_result [OF assms(1)] show ?thesis by (auto simp: articles_of_def)
qed

lemma process_feeds_articles_of:
  "process_feeds w rss d = Inr (d', tr) \<Longrightarrow> bozo (parse w url)
     \<Longrightarrow> articles_of d' url = articles_of d url"
proof (induction rss arbitrary: d tr)
  case Nil
  then show ?case by simp
next
  case (Cons fk rss)
  obtain u kw where fk: "fk = (u, kw)" by (cases fk)
  from Cons.prems(1) fk obtain d1 tr1 tr2 where
    p: "process_feed w (u, kw) d = Inr (d1, tr1)" and q: "process_feeds w rss d1 = Inr (d', tr2)"
    by (auto split: sum.splits)
  have "u \<noteq> url \<or> bozo (parse w u)" using Cons.prems(2) by auto
  from process_feed_articles_of [OF p this] Cons.IH [OF q Cons.prems(2)] show ?case by simp
qed

lemma prune_articles_of:
  "articles_of (fst (prune_old_articles w d)) url
     = filter (\<lambda>a. \<not> text_less (pub_date a) (cutoff_text w)) (articles_of d url)"
  by (auto simp: articles_of_def prune_articles intro: filter_cong)

section \<open>The events of a pass\<close>

lemma process_entry_trace:
  "\<forall>e \<in> set (snd (snd st)). \<exists>l. e = Fetch l
     \<Longrightarrow> \<forall>e \<in> set (snd (snd (process_entry w kw it st))). \<exists>l. e = Fetch l"
  by (cases st) (auto simp: process_entry_cases entry_requests_eq)

lemma fold_process_entry_trace:
  "\<forall>e \<in> set (snd (snd st)). \<exists>l. e = Fetch l
     \<Longrightarrow> \<forall>e \<in> set (snd (snd (fold (process_entry w kw) xs st))). \<exists>l. e = Fetch l"
proof (induction xs arbitrary: st)
  case Nil
  then show ?case by simp
next
  case (Cons x xs)
  from Cons.IH [OF process_entry_trace [OF Cons.prems]] show ?case by simp
qed

lemma fetches_only_Fetch: "e \<in> set (fetches w url kw d) \<Longrightarrow> \<exists>l. e = Fetch l"
  using fold_process_entry_trace [of "(stored_identifiers d url, [], [])" w kw "entries (parse w url)"]
  by (simp add: fetches_def entries_loop_def)

lemma alert_subject_inj [simp]: "alert_subject u = alert_subject url \<longleftrightarrow> u = url"
  by (simp add: alert_subject_def)

lemma failures_update [simp]:
  "failures (d\<lparr>feeds := (feeds d)(url \<mapsto> r)\<rparr>) u = (if u = url then failure_count r else failures d u)"
  by (simp add: failures_def)

lemma process_feed_alert:
  assumes "process_feed w (u, kw) d = Inr (d', tr)"
  shows "(\<exists>b. Email (alert_subject url) b \<in> set tr)
           \<longleftrightarrow> u = url \<and> bozo (parse w url) \<and> ERROR_THRESHOLD \<le> failures d' url"
proof (cases "bozo (parse w u)")
  case True
  with process_feed_result [OF assms] show ?thesis
    by (auto simp: count_failure_def alert_mail_def split: if_splits)
next
  case False
  have "Email (alert_subject url) b \<notin> set (fetches w u kw d)" for b
    using fetches_only_Fetch by blast
  with False process_feed_result [OF assms] show ?thesis
    by (auto simp: alert_subject_def article_mail_def split: if_splits)
qed

lemma process_feeds_alert:
  "process_feeds w rss d = Inr (d', tr) \<Longrightarrow> distinct (map fst rss)
     \<Longrightarrow> (\<exists>b. Email (alert_subject url) b \<in> set tr)
           \<longleftrightarrow> url \<in> fst ` set rss \<and> bozo (parse w url) \<and> ERROR_THRESHOLD \<le> failures d' url"
proof (induction rss arbitrary: d tr)
  case Nil
  then show ?case by auto
next
  case (Cons fk rss)
  obtain u kw where fk: "fk = (u, kw)" by (cases fk)
  from Cons.prems(1) fk obtain d1 tr1 tr2 where
    p: "process_feed w (u, kw) d = Inr (d1, tr1)" and q: "process_feeds w rss d1 = Inr (d', tr2)"
    and tr: "tr = tr1 @ tr2"
    by (auto split: sum.splits)
  from Cons.prems(2) fk have dist: "distinct (map fst rss)" and fresh: "u \<notin> fst ` set rss"
    by auto
  note head = process_feed_alert [OF p, of url]
  note tail = Cons.IH [OF q dist]
  show ?case
  proof (cases "u = url")
    case True
    with fresh have "feeds d' url = feeds d1 url"
      using process_feeds_feeds_unlisted [OF q] by simp
    then have "failures d' url = failures d1 url" by (simp add: failures_def)
    with True fresh head tail tr fk show ?thesis by auto
  next
    case False
    with head tail tr fk show ?thesis by auto
  qed
qed

lemma monitor_feeds_alert:
  assumes "monitor_feeds w rss d = Inr (d', tr)" and "distinct (map fst rss)"
  shows "(\<exists>b. Email (alert_subject url) b \<in> set tr)
           \<longleftrightarrow> url \<in> fst ` set rss \<and> bozo (parse w url) \<and> ERROR_THRESHOLD \<le> failures d' url"
proof -
  from assms(1) obtain d1 where
    p: "process_feeds w rss (register_feeds w rss d) = Inr (d1, tr)"
    and d': "d' = fst (prune_old_articles w d1)"
    by (auto simp: monitor_feeds_result)
  have "failures d' url = failures d1 url" using d' by (simp add: failures_def)
  with process_feeds_alert [OF p assms(2), of url] show ?thesis by simp
qed

lemma monitor_feeds_failures:
  assumes "monitor_feeds w rss d = Inr (d', tr)" and "distinct (map fst rss)"
    and "url \<in> fst ` set rss"
  shows "failures d' url = (if bozo (parse w url) then failures d url + 1 else 0)"
  using monitor_feeds_feeds_listed [OF assms]
  by (auto simp: failures_def count_failure_def mark_checked_def split: option.splits)

lemma run_passes_failures:
  assumes "distinct (map fst rss)" and "url \<in> fst ` set rss"
  shows "\<forall>w \<in> set ws. bozo (parse w url)
     \<Longrightarrow> \<exists>d'. run_passes ws rss d = Inr d' \<and> failures d' url = failures d url + int (length ws)"
proof (induction ws arbitrary: d)
  case Nil
  then show ?case by simp
next
  case (Cons w ws)
  obtain d1 tr where m: "monitor_feeds w rss d = Inr (d1, tr)"
    using monitor_feeds_total by blast
  from Cons.prems have "bozo (parse w url)" by simp
  with monitor_feeds_failures [OF m assms] have f: "failures d1 url = failures d url + 1" by simp
  from Cons.prems have "\<forall>w \<in> set ws. bozo (parse w url)" by simp
  from Cons.IH [OF this, of d1] obtain d' where
    "run_passes ws rss d1 = Inr d'" "failures d' url = failures d1 url + int (length ws)"
    by blast
  with m f show ?case by simp
qed

section \<open>The failure counter\<close>

text \<open>
  C4.  For a feed that is listed once in the configuration: after \<open>N\<close> passes in a row
  in which the feed does not parse, its persisted failure count has grown by \<open>N\<close>, so it
  is \<open>N\<close> for a feed that was new or had just parsed; a pass in which the feed parses
  sets the count to 0 and sends no alert for it; a pass in which it does not parse adds
  one and sends an alert for the feed exactly when the new count is at least
  \<^const>\<open>ERROR_THRESHOLD\<close>, which is 3 -- on every such pass, not only the first.
\<close>

theorem failure_counter:
  assumes "url \<in> fst ` set rss_feeds" and "distinct (map fst rss_feeds)"
  shows "ERROR_THRESHOLD = 3 \<and>
    ((\<forall>w \<in> set ws. bozo (parse w url)) \<longrightarrow>
       (\<exists>d'. run_passes ws rss_feeds d = Inr d' \<and>
             failures d' url = failures d url + int (length ws))) \<and>
    (\<exists>d' tr. monitor_feeds w rss_feeds d = Inr (d', tr) \<and>
       (\<not> bozo (parse w url) \<longrightarrow>
          failures d' url = 0 \<and> (\<forall>b. Email (alert_subject url) b \<notin> set tr)) \<and>
       (bozo (parse w url) \<longrightarrow>
          failures d' url = failures d url + 1 \<and>
          ((\<exists>b. Email (alert_subject url) b \<in> set tr) \<longleftrightarrow> ERROR_THRESHOLD \<le> failures d' url)))"
proof -
  obtain d' tr where m: "monitor_feeds w rss_feeds d = Inr (d', tr)"
    using monitor_feeds_total by blast
  note f = monitor_feeds_failures [OF m assms(2) assms(1)]
  note a = monitor_feeds_alert [OF m assms(2), of url]
  have "\<not> bozo (parse w url) \<longrightarrow>
          failures d' url = 0 \<and> (\<forall>b. Email (alert_subject url) b \<notin> set tr)"
    using f a by auto
  moreover have "bozo (parse w url) \<longrightarrow>
          failures d' url = failures d url + 1 \<and>
          ((\<exists>b. Email (alert_subject url) b \<in> set tr) \<longleftrightarrow> ERROR_THRESHOLD \<le> failures d' url)"
    using f a assms(1) by auto
  ultimately have "\<exists>d' tr. monitor_feeds w rss_feeds d = Inr (d', tr) \<and>
       (\<not> bozo (parse w url) \<longrightarrow>
          failures d' url = 0 \<and> (\<forall>b. Email (alert_subject url) b \<notin> set tr)) \<and>
       (bozo (parse w url) \<longrightarrow>
          failures d' url = failures d url + 1 \<and>
          ((\<exists>b. Email (alert_subject url) b \<in> set tr) \<longleftrightarrow> ERROR_THRESHOLD \<le> failures d' url))"
    using m by blast
  moreover have "(\<forall>w \<in> set ws. bozo (parse w url)) \<longrightarrow>
       (\<exists>d'. run_passes ws rss_feeds d = Inr d' \<and>
             failures d' url = failures d url + int (length ws))"
    using run_passes_failures [OF assms(2) assms(1)] by blast
  ultimately show ?thesis by (simp add: ERROR_THRESHOLD_def)
qed


theorem failure_counter_witness:
  "ex_reddit_url \<in> fst ` set RSS_FEEDS \<and> distinct (map fst RSS_FEEDS) \<and>
   bozo (parse ex_world ex_reddit_url) \<and>
   (\<exists>d'. run_passes [ex_world, ex_world, ex_world] RSS_FEEDS ex_db = Inr d' \<and>
         failures d' ex_reddit_url = 3) \<and>
   (\<exists>d' tr. monitor_feeds ex_world RSS_FEEDS ex_db_failing = Inr (d', tr) \<and>
            failures d' ex_reddit_url = 3 \<and> (\<exists>b. Email (alert_subject ex_reddit_url) b \<in> set tr)) \<and>
   \<not> bozo (parse ex_world ex_feed_url) \<and> ex_feed_url \<in> fst ` set RSS_FEEDS \<and>
   (\<exists>d' tr. monitor_feeds ex_world RSS_FEEDS ex_db_failing = Inr (d', tr) \<and>
            failures d' ex_feed_url = 0 \<and> (\<forall>b. Email (alert_subject ex_feed_url) b \<notin> set tr))"
proof -
  have l: "ex_reddit_url \<in> fst ` set RSS_FEEDS" "ex_feed_url \<in> fst ` set RSS_FEEDS"
    by (simp_all add: RSS_FEEDS_def ex_reddit_url_def ex_feed_url_def)
  have dist: "distinct (map fst RSS_FEEDS)"
    by (simp add: RSS_FEEDS_def)
  have b: "bozo (parse ex_world ex_reddit_url)" "\<not> bozo (parse ex_world ex_feed_url)"
    by (simp_all add: ex_world_def ex_reddit_url_def ex_feed_url_def)
  have f: "failures ex_db ex_reddit_url = 0" "failures ex_db_failing ex_reddit_url = 2"
    by (simp_all add: failures_def ex_db_def ex_db_failing_def)
  have 1: "\<exists>d'. run_passes [ex_world, ex_world, ex_world] RSS_FEEDS ex_db = Inr d' \<and>
         failures d' ex_reddit_url = 3"
    using failure_counter [OF l(1) dist, of "[ex_world, ex_world, ex_world]" ex_db ex_world,
        THEN conjunct2, THEN conjunct1] b f
    by simp
  have 2: "\<exists>d' tr. monitor_feeds ex_world RSS_FEEDS ex_db_failing = Inr (d', tr) \<and>
            failures d' ex_reddit_url = 3 \<and> (\<exists>b. Email (alert_subject ex_reddit_url) b \<in> set tr)"
    using failure_counter [OF l(1) dist, of "[]" ex_db_failing ex_world,
        THEN conjunct2, THEN conjunct2] b f
    by (auto simp: ERROR_THRESHOLD_def)
  have 3: "\<exists>d' tr. monitor_feeds ex_world RSS_FEEDS ex_db_failing = Inr (d', tr) \<and>
            failures d' ex_feed_url = 0 \<and> (\<forall>b. Email (alert_subject ex_feed_url) b \<notin> set tr)"
    using failure_counter [OF l(2) dist, of "[]" ex_db_failing ex_world,
        THEN conjunct2, THEN conjunct2] b
    by simp
  from l dist b 1 2 3 show ?thesis by simp
qed

section \<open>What a pass changes in a feed row\<close>

text \<open>
  C9.  For a feed that is listed once in the configuration.  On a pass in which the feed
  does not parse, its row afterwards is its row from before the pass with
  \<^verbatim>\<open>failure_count\<close> one higher and \<^verbatim>\<open>last_checked\<close> as it was (for a feed that had
  no row yet, the row created at the start of the pass, counted once), and the rows of
  the \<^verbatim>\<open>articles\<close> table that belong to the feed are those from before the pass, less
  what the pruning at the end deletes: none is added.  On a pass in which the feed parses,
  its row afterwards has \<^verbatim>\<open>failure_count\<close> 0 and \<^verbatim>\<open>last_checked\<close> the clock's value.
  No pass deletes a row of \<^verbatim>\<open>feeds\<close>, listed or not.
\<close>

theorem feed_row_frame:
  assumes "url \<in> fst ` set rss_feeds" and "distinct (map fst rss_feeds)"
  shows "\<exists>d' tr. monitor_feeds w rss_feeds d = Inr (d', tr) \<and>
     (\<forall>u. feeds d u \<noteq> None \<longrightarrow> feeds d' u \<noteq> None) \<and>
     (bozo (parse w url) \<longrightarrow>
        (\<forall>r. feeds d url = Some r \<longrightarrow>
             feeds d' url = Some (r\<lparr>failure_count := failure_count r + 1\<rparr>)) \<and>
        (feeds d url = None \<longrightarrow>
             feeds d' url = Some \<lparr>last_checked = now_text w, failure_count = 1\<rparr>) \<and>
        articles_of d' url
          = filter (\<lambda>a. \<not> text_less (pub_date a) (cutoff_text w)) (articles_of d url)) \<and>
     (\<not> bozo (parse w url) \<longrightarrow>
        feeds d' url = Some \<lparr>last_checked = now_text w, failure_count = 0\<rparr>)"
proof -
  obtain d' tr where m: "monitor_feeds w rss_feeds d = Inr (d', tr)"
    using monitor_feeds_total by blast
  then obtain d1 where
    p: "process_feeds w rss_feeds (register_feeds w rss_feeds d) = Inr (d1, tr)"
    and d': "d' = fst (prune_old_articles w d1)"
    by (auto simp: monitor_feeds_result)
  note row = monitor_feeds_feeds_listed [OF m assms(2) assms(1)]
  have keep: "\<forall>u. feeds d u \<noteq> None \<longrightarrow> feeds d' u \<noteq> None"
    using monitor_feeds_keeps_rows [OF m] by blast
  have arts: "articles_of d' url
          = filter (\<lambda>a. \<not> text_less (pub_date a) (cutoff_text w)) (articles_of d url)"
    if "bozo (parse w url)"
  proof -
    have "articles_of d1 url = articles_of (register_feeds w rss_feeds d) url"
      using process_feeds_articles_of [OF p that] .
    also have "\<dots> = articles_of d url" by (simp add: articles_of_def)
    finally show ?thesis using d' by (simp add: prune_articles_of)
  qed
  have fail: "bozo (parse w url) \<longrightarrow>
        (\<forall>r. feeds d url = Some r \<longrightarrow>
             feeds d' url = Some (r\<lparr>failure_count := failure_count r + 1\<rparr>)) \<and>
        (feeds d url = None \<longrightarrow>
             feeds d' url = Some \<lparr>last_checked = now_text w, failure_count = 1\<rparr>) \<and>
        articles_of d' url
          = filter (\<lambda>a. \<not> text_less (pub_date a) (cutoff_text w)) (articles_of d url)"
    using row arts by (auto simp: count_failure_def)
  have ok: "\<not> bozo (parse w url) \<longrightarrow>
        feeds d' url = Some \<lparr>last_checked = now_text w, failure_count = 0\<rparr>"
    using row by (auto simp: mark_checked_def split: option.splits)
  from m keep fail ok show ?thesis
    by (intro exI [of _ d'] exI [of _ tr] conjI) assumption+
qed

theorem feed_row_frame_witness:
  "ex_reddit_url \<in> fst ` set RSS_FEEDS \<and> distinct (map fst RSS_FEEDS) \<and>
   (\<exists>d' tr. monitor_feeds ex_world RSS_FEEDS ex_db_failing = Inr (d', tr) \<and>
            feeds d' ex_reddit_url
              = Some \<lparr>last_checked = ''2026-11-03 09:00:00'', failure_count = 3\<rparr> \<and>
            articles_of d' ex_reddit_url = []) \<and>
   (\<exists>d' tr. monitor_feeds ex_world RSS_FEEDS ex_db_failing = Inr (d', tr) \<and>
            feeds d' ex_feed_url
              = Some \<lparr>last_checked = ''2026-11-04 09:00:00'', failure_count = 0\<rparr>)"
proof -
  have l: "ex_reddit_url \<in> fst ` set RSS_FEEDS" "ex_feed_url \<in> fst ` set RSS_FEEDS"
    by (simp_all add: RSS_FEEDS_def ex_reddit_url_def ex_feed_url_def)
  have dist: "distinct (map fst RSS_FEEDS)"
    by (simp add: RSS_FEEDS_def)
  have b: "bozo (parse ex_world ex_reddit_url)" "\<not> bozo (parse ex_world ex_feed_url)"
    by (simp_all add: ex_world_def ex_reddit_url_def ex_feed_url_def)
  have r: "feeds ex_db_failing ex_reddit_url
             = Some \<lparr>last_checked = ''2026-11-03 09:00:00'', failure_count = 2\<rparr>"
    by (simp add: ex_db_failing_def)
  have a: "articles_of ex_db_failing ex_reddit_url = []"
    by (simp add: articles_of_def ex_db_failing_def ex_db_def ex_old_article_def
          ex_recent_article_def ex_feed_url_def ex_reddit_url_def)
  note n = ex_texts(1)
  have 1: "\<exists>d' tr. monitor_feeds ex_world RSS_FEEDS ex_db_failing = Inr (d', tr) \<and>
            feeds d' ex_reddit_url
              = Some \<lparr>last_checked = ''2026-11-03 09:00:00'', failure_count = 3\<rparr> \<and>
            articles_of d' ex_reddit_url = []"
    using feed_row_frame [OF l(1) dist, of ex_world ex_db_failing] b r a by auto
  have 2: "\<exists>d' tr. monitor_feeds ex_world RSS_FEEDS ex_db_failing = Inr (d', tr) \<and>
            feeds d' ex_feed_url
              = Some \<lparr>last_checked = ''2026-11-04 09:00:00'', failure_count = 0\<rparr>"
    using feed_row_frame [OF l(2) dist, of ex_world ex_db_failing] b n by auto
  from l dist 1 2 show ?thesis by simp
qed

section \<open>What the loop over the entries collects\<close>

lemma process_entry_seen_mono: "fst st \<subseteq> fst (process_entry w kw it st)"
  by (cases st) (auto simp: process_entry_cases)

lemma fold_process_entry_seen_mono: "fst st \<subseteq> fst (fold (process_entry w kw) xs st)"
proof (induction xs arbitrary: st)
  case Nil
  then show ?case by simp
next
  case (Cons x xs)
  from process_entry_seen_mono [of st w kw x] Cons.IH [of "process_entry w kw x st"]
  show ?case by auto
qed

text \<open>Every entry has been dealt with when the loop ends: its identifier is in
  \<^verbatim>\<open>seen\<close>, or it did not pass the filter.\<close>

lemma fold_process_entry_settles:
  "it \<in> set xs \<Longrightarrow>
     get_article_identifier w it \<in> fst (fold (process_entry w kw) xs st) \<or>
     \<not> matches_filter w it (entry_text w it) kw"
proof (induction xs arbitrary: st)
  case Nil
  then show ?case by simp
next
  case (Cons x xs)
  show ?case
  proof (cases "it \<in> set xs")
    case True
    from Cons.IH [OF this, of "process_entry w kw x st"] show ?thesis by simp
  next
    case False
    with Cons.prems have x: "x = it" by simp
    obtain seen new tr where st: "st = (seen, new, tr)" by (cases st)
    have "get_article_identifier w it \<in> fst (process_entry w kw it st) \<or>
          \<not> matches_filter w it (entry_text w it) kw"
      by (auto simp: st process_entry_cases)
    with fold_process_entry_seen_mono [of "process_entry w kw it st" w kw xs] x
    show ?thesis by auto
  qed
qed

text \<open>Every tuple the loop collects comes from an entry that passed the filter.\<close>

lemma fold_process_entry_matched:
  "n \<in> set (fst (snd (fold (process_entry w kw) xs st))) \<Longrightarrow>
     n \<in> set (fst (snd st)) \<or>
     (\<exists>it \<in> set xs. n = entry_tuple w it \<and> matches_filter w it (entry_text w it) kw)"
proof (induction xs arbitrary: st)
  case Nil
  then show ?case by simp
next
  case (Cons x xs)
  obtain seen new tr where st: "st = (seen, new, tr)" by (cases st)
  from Cons.IH [of "process_entry w kw x st"] Cons.prems
  consider "n \<in> set (fst (snd (process_entry w kw x st)))"
    | "\<exists>it \<in> set xs. n = entry_tuple w it \<and> matches_filter w it (entry_text w it) kw"
    by auto
  then show ?case
  proof cases
    case 1
    then show ?thesis by (auto simp: st process_entry_cases split: if_splits)
  next
    case 2
    then show ?thesis by auto
  qed
qed

text \<open>When every entry is known or fails the filter the loop collects nothing.\<close>

lemma fold_process_entry_idle:
  "\<forall>it \<in> set xs. get_article_identifier w it \<in> seen \<or> \<not> matches_filter w it (entry_text w it) kw
     \<Longrightarrow> \<exists>tr'. fold (process_entry w kw) xs (seen, new, tr) = (seen, new, tr')"
proof (induction xs arbitrary: tr)
  case Nil
  then show ?case by simp
next
  case (Cons x xs)
  then have "\<exists>tr1. process_entry w kw x (seen, new, tr) = (seen, new, tr1)"
    by (auto simp: process_entry_cases)
  then obtain tr1 where "process_entry w kw x (seen, new, tr) = (seen, new, tr1)" ..
  moreover from Cons.prems Cons.IH [of tr1]
  obtain tr' where "fold (process_entry w kw) xs (seen, new, tr1) = (seen, new, tr')" by auto
  ultimately show ?case by simp
qed

text \<open>The page of an entry is requested when its identifier is not known by the time
  the loop reaches it.\<close>

lemma process_entry_trace_mono: "set (snd (snd st)) \<subseteq> set (snd (snd (process_entry w kw it st)))"
  by (cases st) (auto simp: process_entry_cases)

lemma fold_process_entry_trace_mono:
  "set (snd (snd st)) \<subseteq> set (snd (snd (fold (process_entry w kw) xs st)))"
proof (induction xs arbitrary: st)
  case Nil
  then show ?case by simp
next
  case (Cons x xs)
  from process_entry_trace_mono [of st w kw x] Cons.IH [of "process_entry w kw x st"]
  show ?case by auto
qed

lemma fold_process_entry_fetches:
  assumes "it \<in> set xs" and "get_article_identifier w it \<notin> seen"
    and "\<forall>x \<in> set xs. get_article_identifier w x = get_article_identifier w it
            \<longrightarrow> \<not> matches_filter w x (entry_text w x) kw"
  shows "set (entry_requests w it) \<subseteq> set (snd (snd (fold (process_entry w kw) xs (seen, new, tr))))"
  using assms
proof (induction xs arbitrary: seen new tr)
  case Nil
  then show ?case by simp
next
  case (Cons x xs)
  obtain seen1 new1 tr1 where s1: "process_entry w kw x (seen, new, tr) = (seen1, new1, tr1)"
    by (cases "process_entry w kw x (seen, new, tr)")
  have unknown: "get_article_identifier w it \<notin> seen1"
    using s1 Cons.prems(2,3) by (auto simp: process_entry_cases split: if_splits)
  show ?case
  proof (cases "x = it")
    case True
    with s1 Cons.prems(2,3) have "set (entry_requests w it) \<subseteq> set tr1"
      by (auto simp: process_entry_cases split: if_splits)
    with fold_process_entry_trace_mono [of "(seen1, new1, tr1)" w kw xs] s1 show ?thesis
      by auto
  next
    case False
    with Cons.prems(1) have "it \<in> set xs" by simp
    from Cons.IH [OF this unknown, of new1 tr1] Cons.prems(3) s1 show ?thesis by simp
  qed
qed

lemma batch_matched:
  "n \<in> set (batch w url kw d) \<Longrightarrow>
     \<exists>it \<in> set (entries (parse w url)). n = entry_tuple w it \<and> matches_filter w it (entry_text w it) kw"
  using fold_process_entry_matched [of n w kw "entries (parse w url)" "(stored_identifiers d url, [], [])"]
  by (simp add: batch_def entries_loop_def)

lemma fetches_unknown:
  assumes "it \<in> set (entries (parse w url))"
    and "get_article_identifier w it \<notin> stored_identifiers d url"
    and "\<forall>x \<in> set (entries (parse w url)). get_article_identifier w x = get_article_identifier w it
            \<longrightarrow> \<not> matches_filter w x (entry_text w x) kw"
  shows "set (entry_requests w it) \<subseteq> set (fetches w url kw d)"
  using fold_process_entry_fetches [OF assms] by (simp add: fetches_def entries_loop_def)

section \<open>The identifiers stored for a feed during a pass\<close>

lemma article_row_identifier [simp]: "art_identifier (article_row w u n) = fst n"
  by (cases n) simp

lemma stored_identifiers_rows:
  assumes "articles d' = articles d @ map (article_row w u) new"
  shows "stored_identifiers d' url =
           stored_identifiers d url \<union> (if u = url then fst ` set new else {})"
proof (cases "u = url")
  case True
  have "filter (\<lambda>a. feed_url a = url) (map (article_row w url) new) = map (article_row w url) new"
    by (simp add: filter_map comp_def)
  moreover have "art_identifier ` article_row w url ` set new = fst ` set new"
    by (simp add: image_image)
  ultimately show ?thesis
    using True by (simp add: stored_identifiers_def assms)
next
  case False
  then have "filter (\<lambda>a. feed_url a = url) (map (article_row w u) new) = []"
    by (simp add: filter_map comp_def)
  with False show ?thesis
    by (simp add: stored_identifiers_def assms)
qed

lemma process_feed_stored:
  assumes "process_feed w (u, kw) d = Inr (d', tr)"
  shows "stored_identifiers d' url =
           stored_identifiers d url \<union>
             (if u = url \<and> \<not> bozo (parse w u) then fst ` set (batch w u kw d) else {})"
proof (cases "bozo (parse w u)")
  case True
  with process_feed_result [OF assms] show ?thesis by (auto simp: stored_identifiers_def)
next
  case False
  with process_feed_result [OF assms] have
    "articles d' = articles d @ map (article_row w u) (batch w u kw d)" by auto
  from stored_identifiers_rows [OF this] False show ?thesis by simp
qed

lemma prune_stored: "stored_identifiers (fst (prune_old_articles w d)) url \<subseteq> stored_identifiers d url"
  by (auto simp: stored_identifiers_def prune_articles)

lemma register_feeds_stored [simp]:
  "stored_identifiers (register_feeds w rss d) url = stored_identifiers d url"
  by (simp add: stored_identifiers_def)

text \<open>An identifier none of whose entries passes a filter configured for the feed is not
  stored by the pass, and the pages of its entries are requested.\<close>

lemma process_feeds_unknown:
  assumes "\<forall>k x. (url, k) \<in> set rss \<and> x \<in> set (entries (parse w url)) \<and>
                  get_article_identifier w x = i \<longrightarrow> \<not> matches_filter w x (entry_text w x) k"
  shows "process_feeds w rss d = Inr (d', tr) \<Longrightarrow> i \<notin> stored_identifiers d url
     \<Longrightarrow> i \<notin> stored_identifiers d' url \<and>
         (\<forall>k x. (url, k) \<in> set rss \<and> \<not> bozo (parse w url) \<and> x \<in> set (entries (parse w url)) \<and>
                 get_article_identifier w x = i \<longrightarrow> set (entry_requests w x) \<subseteq> set tr)"
  using assms
proof (induction rss arbitrary: d tr)
  case Nil
  then show ?case by simp
next
  case (Cons fk rss)
  obtain u kw where fk: "fk = (u, kw)" by (cases fk)
  from Cons.prems(1) fk obtain d1 tr1 tr2 where
    p: "process_feed w (u, kw) d = Inr (d1, tr1)" and q: "process_feeds w rss d1 = Inr (d', tr2)"
    and tr: "tr = tr1 @ tr2"
    by (auto split: sum.splits)
  have filt: "\<forall>k x. (url, k) \<in> set rss \<and> x \<in> set (entries (parse w url)) \<and>
                  get_article_identifier w x = i \<longrightarrow> \<not> matches_filter w x (entry_text w x) k"
    using Cons.prems(3) by auto
  have nb: "i \<notin> fst ` set (batch w u kw d)" if "u = url"
  proof
    assume "i \<in> fst ` set (batch w u kw d)"
    then obtain n where n: "n \<in> set (batch w u kw d)" "fst n = i" by auto
    from batch_matched [OF n(1)] obtain x where
      "x \<in> set (entries (parse w u))" "n = entry_tuple w x" "matches_filter w x (entry_text w x) kw"
      by blast
    moreover from this n(2) have "get_article_identifier w x = i" by (simp add: entry_tuple_def)
    ultimately show False using Cons.prems(3) that fk by auto
  qed
  have s1: "i \<notin> stored_identifiers d1 url"
    using process_feed_stored [OF p, of url] Cons.prems(2) nb by (auto split: if_splits)
  from Cons.IH [OF q s1 filt] have
    tail: "i \<notin> stored_identifiers d' url"
      "\<forall>k x. (url, k) \<in> set rss \<and> \<not> bozo (parse w url) \<and> x \<in> set (entries (parse w url)) \<and>
             get_article_identifier w x = i \<longrightarrow> set (entry_requests w x) \<subseteq> set tr2"
    by blast+
  have head: "set (entry_requests w x) \<subseteq> set tr1"
    if "u = url" "\<not> bozo (parse w url)" "x \<in> set (entries (parse w url))"
       "get_article_identifier w x = i" for x
  proof -
    have "\<forall>y \<in> set (entries (parse w url)). get_article_identifier w y = get_article_identifier w x
            \<longrightarrow> \<not> matches_filter w y (entry_text w y) kw"
      using Cons.prems(3) that fk by auto
    from fetches_unknown [OF that(3) _ this] Cons.prems(2) that
    have "set (entry_requests w x) \<subseteq> set (fetches w url kw d)" by simp
    with process_feed_result [OF p] that show ?thesis by auto
  qed
  show ?case
    using tail head tr fk by auto
qed

lemma monitor_feeds_unknown:
  assumes "\<forall>k x. (url, k) \<in> set rss \<and> x \<in> set (entries (parse w url)) \<and>
                  get_article_identifier w x = i \<longrightarrow> \<not> matches_filter w x (entry_text w x) k"
    and "i \<notin> stored_identifiers d url"
  shows "\<exists>d' tr. monitor_feeds w rss d = Inr (d', tr) \<and> i \<notin> stored_identifiers d' url \<and>
           (\<forall>k x. (url, k) \<in> set rss \<and> \<not> bozo (parse w url) \<and> x \<in> set (entries (parse w url)) \<and>
                   get_article_identifier w x = i \<longrightarrow> set (entry_requests w x) \<subseteq> set tr)"
proof -
  obtain d' tr where m: "monitor_feeds w rss d = Inr (d', tr)"
    using monitor_feeds_total by blast
  then obtain d1 where
    p: "process_feeds w rss (register_feeds w rss d) = Inr (d1, tr)"
    and d': "d' = fst (prune_old_articles w d1)"
    by (auto simp: monitor_feeds_result)
  from assms(2) have "i \<notin> stored_identifiers (register_feeds w rss d) url" by simp
  from process_feeds_unknown [OF assms(1) p this] prune_stored [of w d1 url] d' m
  show ?thesis by blast
qed

lemma run_passes_unknown:
  "\<forall>w \<in> set ws. \<forall>k x. (url, k) \<in> set rss \<and> x \<in> set (entries (parse w url)) \<and>
                  get_article_identifier w x = i \<longrightarrow> \<not> matches_filter w x (entry_text w x) k
   \<Longrightarrow> i \<notin> stored_identifiers d url
   \<Longrightarrow> \<exists>d'. run_passes ws rss d = Inr d' \<and> i \<notin> stored_identifiers d' url"
proof (induction ws arbitrary: d)
  case Nil
  then show ?case by simp
next
  case (Cons w ws)
  from Cons.prems(1) have
    "\<forall>k x. (url, k) \<in> set rss \<and> x \<in> set (entries (parse w url)) \<and>
            get_article_identifier w x = i \<longrightarrow> \<not> matches_filter w x (entry_text w x) k"
    by simp
  from monitor_feeds_unknown [OF this Cons.prems(2)] obtain d1 tr where
    m: "monitor_feeds w rss d = Inr (d1, tr)" and u: "i \<notin> stored_identifiers d1 url"
    by blast
  from Cons.prems(1) have "\<forall>w \<in> set ws. \<forall>k x. (url, k) \<in> set rss \<and> x \<in> set (entries (parse w url)) \<and>
                  get_article_identifier w x = i \<longrightarrow> \<not> matches_filter w x (entry_text w x) k"
    by simp
  from Cons.IH [OF this u] m show ?case by simp
qed

section \<open>Settled feeds\<close>

lemma entries_loop_seen:
  "fst (entries_loop w url kw d) = stored_identifiers d url \<union> fst ` set (batch w url kw d)"
  using entries_loop_inv [of d url w kw]
  by (auto simp: loop_inv_def batch_def split: prod.splits)

lemma process_feed_settles:
  assumes "process_feed w (url, kw) d = Inr (d', tr)"
  shows "settled w d' (url, kw)"
proof (cases "bozo (parse w url)")
  case True
  then show ?thesis by (simp add: settled_def)
next
  case False
  have "get_article_identifier w it \<in> stored_identifiers d' url \<or>
        \<not> matches_filter w it (entry_text w it) kw"
    if "it \<in> set (entries (parse w url))" for it
  proof -
    from fold_process_entry_settles [OF that, of w kw "(stored_identifiers d url, [], [])"]
    have "get_article_identifier w it \<in> fst (entries_loop w url kw d) \<or>
          \<not> matches_filter w it (entry_text w it) kw"
      by (simp add: entries_loop_def)
    with process_feed_stored [OF assms, of url] False show ?thesis
      by (auto simp: entries_loop_seen)
  qed
  with False show ?thesis by (simp add: settled_def)
qed

lemma settled_mono:
  "settled w d fk \<Longrightarrow> stored_identifiers d (fst fk) \<subseteq> stored_identifiers d' (fst fk)
     \<Longrightarrow> settled w d' fk"
  by (cases fk) (auto simp: settled_def)

lemma process_feed_stored_mono:
  "process_feed w (u, kw) d = Inr (d', tr) \<Longrightarrow> stored_identifiers d url \<subseteq> stored_identifiers d' url"
  using process_feed_stored [of w u kw d d' tr url] by auto

lemma process_feeds_stored_mono:
  "process_feeds w rss d = Inr (d', tr) \<Longrightarrow> stored_identifiers d url \<subseteq> stored_identifiers d' url"
proof (induction rss arbitrary: d tr)
  case Nil
  then show ?case by simp
next
  case (Cons fk rss)
  obtain u kw where fk: "fk = (u, kw)" by (cases fk)
  from Cons.prems fk obtain d1 tr1 tr2 where
    p: "process_feed w (u, kw) d = Inr (d1, tr1)" and q: "process_feeds w rss d1 = Inr (d', tr2)"
    by (auto split: sum.splits)
  from process_feed_stored_mono [OF p, of url] Cons.IH [OF q] show ?case by auto
qed

text \<open>After the loop over the feeds every configured feed is settled.\<close>

lemma process_feeds_settles:
  "process_feeds w rss d = Inr (d', tr) \<Longrightarrow> \<forall>fk \<in> set rss. settled w d' fk"
proof (induction rss arbitrary: d tr)
  case Nil
  then show ?case by simp
next
  case (Cons fk rss)
  obtain u kw where fk: "fk = (u, kw)" by (cases fk)
  from Cons.prems fk obtain d1 tr1 tr2 where
    p: "process_feed w (u, kw) d = Inr (d1, tr1)" and q: "process_feeds w rss d1 = Inr (d', tr2)"
    by (auto split: sum.splits)
  have "settled w d' fk"
    using settled_mono [OF process_feed_settles [OF p], of d'] process_feeds_stored_mono [OF q, of u] fk
    by simp
  with Cons.IH [OF q] show ?case by simp
qed

text \<open>A pass over settled feeds collects nothing.\<close>

lemma settled_batch:
  assumes "settled w d (url, kw)" and "\<not> bozo (parse w url)"
  shows "batch w url kw d = []"
proof -
  from assms have "\<forall>it \<in> set (entries (parse w url)).
      get_article_identifier w it \<in> stored_identifiers d url \<or>
      \<not> matches_filter w it (entry_text w it) kw"
    by (simp add: settled_def)
  from fold_process_entry_idle [OF this, of "[]" "[]"] show ?thesis
    by (auto simp: batch_def entries_loop_def)
qed

lemma process_feed_idle:
  assumes "process_feed w (url, kw) d = Inr (d', tr)" and "settled w d (url, kw)"
  shows "articles d' = articles d \<and>
         (\<forall>e \<in> set tr. (\<exists>l. e = Fetch l) \<or> (\<exists>u b. e = Email (alert_subject u) b))"
proof (cases "bozo (parse w url)")
  case True
  with process_feed_result [OF assms(1)] obtain r where
    d': "d' = d\<lparr>feeds := (feeds d)(url \<mapsto> count_failure r)\<rparr>" and
    tr: "tr = (if ERROR_THRESHOLD \<le> failure_count r + 1
               then [alert_mail w url (failure_count r + 1)] else [])"
    by blast
  have "\<exists>u b. alert_mail w url n = Email (alert_subject u) b" for n
    unfolding alert_mail_def by blast
  with tr have "\<forall>e \<in> set tr. \<exists>u b. e = Email (alert_subject u) b"
    by (cases "ERROR_THRESHOLD \<le> failure_count r + 1") simp_all
  with d' show ?thesis by simp
next
  case False
  from settled_batch [OF assms(2) False] process_feed_result [OF assms(1)] False
  have "articles d' = articles d" and "tr = fetches w url kw d" by auto
  with fetches_only_Fetch show ?thesis by blast
qed

lemma settled_articles:
  "articles d' = articles d \<Longrightarrow> settled w d' fk = settled w d fk"
  by (simp add: settled_def stored_identifiers_def)

lemma process_feeds_idle:
  "process_feeds w rss d = Inr (d', tr) \<Longrightarrow> \<forall>fk \<in> set rss. settled w d fk
     \<Longrightarrow> articles d' = articles d \<and>
         (\<forall>e \<in> set tr. (\<exists>l. e = Fetch l) \<or> (\<exists>u b. e = Email (alert_subject u) b))"
proof (induction rss arbitrary: d tr)
  case Nil
  then show ?case by simp
next
  case (Cons fk rss)
  let ?quiet = "\<lambda>e. (\<exists>l. e = Fetch l) \<or> (\<exists>u b. e = Email (alert_subject u) b)"
  obtain u kw where fk: "fk = (u, kw)" by (cases fk)
  from Cons.prems(1) fk obtain d1 tr1 tr2 where
    p: "process_feed w (u, kw) d = Inr (d1, tr1)" and q: "process_feeds w rss d1 = Inr (d', tr2)"
    and tr: "tr = tr1 @ tr2"
    by (auto split: sum.splits)
  from Cons.prems(2) fk have "settled w d (u, kw)" by simp
  from process_feed_idle [OF p this] have
    h1: "articles d1 = articles d" and h2: "\<forall>e \<in> set tr1. ?quiet e"
    by (rule conjunct1, rule conjunct2)
  from Cons.prems(2) have "\<forall>fk \<in> set rss. settled w d1 fk"
    by (simp add: settled_articles [OF h1])
  from Cons.IH [OF q this] have
    t1: "articles d' = articles d1" and t2: "\<forall>e \<in> set tr2. ?quiet e"
    by (rule conjunct1, rule conjunct2)
  have "\<forall>e \<in> set tr. ?quiet e"
  proof
    fix e assume "e \<in> set tr"
    with tr have "e \<in> set tr1 \<or> e \<in> set tr2" by simp
    then show "?quiet e"
    proof
      assume "e \<in> set tr1" with h2 show ?thesis by (rule bspec)
    next
      assume "e \<in> set tr2" with t2 show ?thesis by (rule bspec)
    qed
  qed
  moreover from t1 h1 have "articles d' = articles d" by (rule trans)
  ultimately show ?case by (intro conjI)
qed

text \<open>Being settled depends on the world through the feed's entries, their identifiers
  and their contents only.\<close>

lemma matches_filter_same_lower:
  "str_lower w2 = str_lower w1 \<Longrightarrow> matches_filter w2 it c kw = matches_filter w1 it c kw"
  by (simp add: matches_filter_def split: option.splits)

lemma settled_same_observations:
  assumes "parse w2 = parse w1" and "str_lower w2 = str_lower w1"
    and "\<forall>x \<in> set (entries (parse w1 (fst fk))).
           get_article_identifier w2 x = get_article_identifier w1 x \<and>
           entry_text w2 x = entry_text w1 x"
  shows "settled w2 d fk = settled w1 d fk"
  using assms(1,3) by (cases fk) (auto simp: settled_def matches_filter_same_lower [OF assms(2)])

text \<open>Pruning keeps a feed settled when it deletes no row of an entry the feed lists.\<close>

lemma settled_prune:
  assumes "settled w d (url, kw)"
    and "\<forall>a \<in> set (articles d). feed_url a = url \<and>
            art_identifier a \<in> get_article_identifier w ` set (entries (parse w url))
            \<longrightarrow> \<not> text_less (pub_date a) (cutoff_text w')"
  shows "settled w (fst (prune_old_articles w' d)) (url, kw)"
proof (cases "bozo (parse w url)")
  case True
  then show ?thesis by (simp add: settled_def)
next
  case False
  have "get_article_identifier w it \<in> stored_identifiers (fst (prune_old_articles w' d)) url \<or>
        \<not> matches_filter w it (entry_text w it) kw"
    if it: "it \<in> set (entries (parse w url))" for it
  proof (cases "matches_filter w it (entry_text w it) kw")
    case True
    with assms(1) False it have "get_article_identifier w it \<in> stored_identifiers d url"
      by (auto simp: settled_def)
    then obtain a where a: "a \<in> set (articles d)" "feed_url a = url"
        "art_identifier a = get_article_identifier w it"
      by (auto simp: stored_identifiers_def)
    with assms(2) it have "\<not> text_less (pub_date a) (cutoff_text w')" by auto
    with a have "a \<in> set (articles (fst (prune_old_articles w' d)))"
      by (simp add: prune_articles)
    with a show ?thesis by (force simp: stored_identifiers_def)
  next
    case False
    then show ?thesis by simp
  qed
  with False show ?thesis by (simp add: settled_def)
qed

section \<open>What page requests and contents are\<close>

lemma fetch_article_content_requests: "snd (fetch_article_content w url) = [Fetch url]"
  by (simp add: fetch_article_content_def)

lemma fetch_article_content_None_iff:
  "fst (fetch_article_content w url) = None \<longleftrightarrow>
     (\<exists>e. requests_get w url = Inl e) \<or>
     (\<exists>r. requests_get w url = Inr r \<and>
        (raise_for_status w r \<noteq> None \<or>
         (\<exists>e. Document_summary w (response_text r) = Inl e) \<or>
         (\<exists>c e. Document_summary w (response_text r) = Inr c \<and> HTMLParser_feed w c = Inl e)))"
  by (auto simp: fetch_article_content_def fetch_try_def split: sum.splits option.splits)

lemma fetch_article_content_Some_iff:
  "fst (fetch_article_content w url) = Some s \<longleftrightarrow>
     (\<exists>r c fed. requests_get w url = Inr r \<and> raise_for_status w r = None \<and>
        Document_summary w (response_text r) = Inr c \<and> HTMLParser_feed w c = Inr fed \<and>
        s = concat fed)"
  by (auto simp: fetch_article_content_def fetch_try_def split: sum.splits option.splits)

section \<open>An entry that is collected\<close>

lemma process_entry_new_mono:
  "set (fst (snd st)) \<subseteq> set (fst (snd (process_entry w kw it st)))"
  by (cases st) (auto simp: process_entry_cases)

lemma fold_process_entry_new_mono:
  "set (fst (snd st)) \<subseteq> set (fst (snd (fold (process_entry w kw) xs st)))"
proof (induction xs arbitrary: st)
  case Nil
  then show ?case by simp
next
  case (Cons x xs)
  from process_entry_new_mono [of st w kw x] Cons.IH [of "process_entry w kw x st"]
  show ?case by auto
qed

text \<open>An entry that passes the filter, whose identifier is not known when the loop
  starts and is carried by no other entry of the list, is collected.\<close>

lemma fold_process_entry_collects:
  assumes "it \<in> set xs" and "get_article_identifier w it \<notin> seen"
    and "\<forall>x \<in> set xs. get_article_identifier w x = get_article_identifier w it \<longrightarrow> x = it"
    and "matches_filter w it (entry_text w it) kw"
  shows "entry_tuple w it \<in> set (fst (snd (fold (process_entry w kw) xs (seen, new, tr))))"
  using assms(1,2,3)
proof (induction xs arbitrary: seen new tr)
  case Nil
  then show ?case by simp
next
  case (Cons x xs)
  obtain seen1 new1 tr1 where s1: "process_entry w kw x (seen, new, tr) = (seen1, new1, tr1)"
    by (cases "process_entry w kw x (seen, new, tr)")
  show ?case
  proof (cases "x = it")
    case True
    with s1 Cons.prems(2) assms(4) have "entry_tuple w it \<in> set new1"
      by (auto simp: process_entry_cases)
    with fold_process_entry_new_mono [of "(seen1, new1, tr1)" w kw xs] s1 show ?thesis
      by auto
  next
    case False
    with Cons.prems(1) have in_tail: "it \<in> set xs" by simp
    from False Cons.prems(3) have "get_article_identifier w x \<noteq> get_article_identifier w it"
      by auto
    with s1 Cons.prems(2) have unknown: "get_article_identifier w it \<notin> seen1"
      by (auto simp: process_entry_cases split: if_splits)
    from Cons.prems(3) have
      "\<forall>x \<in> set xs. get_article_identifier w x = get_article_identifier w it \<longrightarrow> x = it"
      by simp
    from Cons.IH [OF in_tail unknown this, of new1 tr1] s1 show ?thesis by simp
  qed
qed

lemma batch_collects:
  assumes "it \<in> set (entries (parse w url))"
    and "get_article_identifier w it \<notin> stored_identifiers d url"
    and "\<forall>x \<in> set (entries (parse w url)).
           get_article_identifier w x = get_article_identifier w it \<longrightarrow> x = it"
    and "matches_filter w it (entry_text w it) kw"
  shows "entry_tuple w it \<in> set (batch w url kw d)"
  using fold_process_entry_collects [OF assms] by (simp add: batch_def entries_loop_def)

section \<open>The example worlds\<close>

lemma ex_entries:
  "entries (parse ex_world ex_feed_url) = [ex_item_guid, ex_item_link]"
  "entries (parse ex_world_offline ex_feed_url) = [ex_item_guid, ex_item_link]"
  "\<not> bozo (parse ex_world ex_feed_url)" "\<not> bozo (parse ex_world_offline ex_feed_url)"
  "feed_title (parse ex_world ex_feed_url) = Some ''openSUSE News''"
  by (simp_all add: ex_world_def ex_world_offline_def)

lemma ex_identifiers:
  "get_article_identifier w ex_item_guid = ''urn:post:1''"
  "get_article_identifier w ex_item_link = ''https://news.opensuse.org/2''"
  "get_article_identifier w ex_item_twin = ''urn:post:1''"
  "get_article_identifier w ex_item_old = ''urn:post:old''"
  by (simp_all add: get_article_identifier_def ex_item_guid_def ex_item_link_def
        ex_item_twin_def ex_item_old_def)

lemma ex_page:
  "fetch_article_content ex_world ''https://news.opensuse.org/1''
     = (Some ''Leap 16 is out'', [Fetch ''https://news.opensuse.org/1''])"
  "fetch_article_content ex_world ''https://news.opensuse.org/2''
     = (None, [Fetch ''https://news.opensuse.org/2''])"
  "fetch_article_content ex_world_offline u = (None, [Fetch u])"
  by (simp_all add: fetch_article_content_def fetch_try_def ex_world_def ex_world_offline_def
        requests_raise_for_status_def)

lemma ex_contents:
  "entry_text ex_world ex_item_guid = Some ''Leap 16 is out''"
  "entry_text ex_world ex_item_link = None"
  "entry_text ex_world_offline ex_item_guid = None"
  "entry_text ex_world_offline ex_item_link = None"
  by (simp_all add: entry_text_eq ex_page) (simp_all add: ex_item_guid_def ex_item_link_def ex_page)

lemma ex_fetch:
  "entry_requests w ex_item_guid = [Fetch ''https://news.opensuse.org/1'']"
  "entry_requests w ex_item_link = [Fetch ''https://news.opensuse.org/2'']"
  "entry_requests w ex_item_twin = [Fetch ''https://news.opensuse.org/2'']"
  "entry_requests w ex_item_old = [Fetch ''https://news.opensuse.org/old'']"
  by (simp_all add: entry_requests_eq ex_item_guid_def ex_item_link_def ex_item_twin_def
        ex_item_old_def)

lemma ex_filter_16:
  "matches_filter ex_world ex_item_guid (Some ''Leap 16 is out'') (Some ''16'')"
  "\<not> matches_filter ex_world_offline ex_item_guid None (Some ''16'')"
  "\<not> matches_filter ex_world ex_item_link None (Some ''16'')"
  "\<not> matches_filter ex_world_offline ex_item_link None (Some ''16'')"
  by code_simp+

lemma ex_filter_python:
  "\<not> matches_filter ex_world ex_item_guid (Some ''Leap 16 is out'') (Some ''python'')"
  "matches_filter ex_world ex_item_link None (Some ''PYTHON'')"
  "matches_filter ex_world ex_item_twin None (Some ''python'')"
  by code_simp+

lemma matches_filter_no_keyword [simp]: "matches_filter w it c (Some [])"
  by (simp add: matches_filter_def)

lemma ex_dates:
  "parse_pub_date ex_world ex_item_guid = \<lparr>wall = 63929116800000000, utcoffset = Some 0\<rparr>"
  "parse_pub_date ex_world ex_item_link = datetime_now ex_world"
  "parse_pub_date ex_world ex_item_bare = datetime_now ex_world"
proof -
  have "replace_Z ''2026-11-01T08:00:00Z'' = ''2026-11-01T08:00:00+00:00''"
    by (simp add: replace_Z_def)
  then show "parse_pub_date ex_world ex_item_guid = \<lparr>wall = 63929116800000000, utcoffset = Some 0\<rparr>"
    by (simp add: parse_pub_date_def ex_item_guid_def) (simp add: ex_world_def ex_fromisoformat_def)
  have "replace_Z ''Sun, 01 Nov 2026 08:00:00 GMT'' = ''Sun, 01 Nov 2026 08:00:00 GMT''"
    by (simp add: replace_Z_def)
  then show "parse_pub_date ex_world ex_item_link = datetime_now ex_world"
    by (simp add: parse_pub_date_def ex_item_link_def) (simp add: ex_world_def ex_fromisoformat_def)
  have "replace_Z (isoformat ex_world (datetime_now ex_world)) = ''2026-11-04T09:00:00''"
    by (simp add: replace_Z_def ex_world_def ex_isoformat_def datetime_now_def ex_now_def)
  then show "parse_pub_date ex_world ex_item_bare = datetime_now ex_world"
    by (simp add: parse_pub_date_def ex_item_bare_def)
       (simp add: ex_world_def ex_fromisoformat_def datetime_now_def ex_now_def)
qed

lemma ex_guid_tuple:
  "entry_tuple ex_world ex_item_guid =
     (''urn:post:1'', ''Leap released'', ''https://news.opensuse.org/1'', ''Release notes'',
      Some ''Leap 16 is out'', \<lparr>wall = 63929116800000000, utcoffset = Some 0\<rparr>)"
  by (simp add: entry_tuple_def ex_identifiers ex_contents ex_dates) (simp add: ex_item_guid_def)

lemma ex_link_tuple:
  "entry_tuple ex_world ex_item_link =
     (''https://news.opensuse.org/2'', ''Python sprint'', ''https://news.opensuse.org/2'',
      ''No description'', None, datetime_now ex_world)"
  by (simp add: entry_tuple_def ex_identifiers ex_contents ex_dates) (simp add: ex_item_link_def)

lemma ex_rows:
  "article_row ex_world url (i, t, l, ds, c, \<lparr>wall = 63929116800000000, utcoffset = Some 0\<rparr>)
     = \<lparr>feed_url = url, art_identifier = i, art_title = t, art_link = l, art_description = ds,
        fetched_content = c, pub_date = ''2026-11-01 08:00:00+00:00''\<rparr>"
  "article_row ex_world url (i, t, l, ds, c, datetime_now ex_world)
     = \<lparr>feed_url = url, art_identifier = i, art_title = t, art_link = l, art_description = ds,
        fetched_content = c, pub_date = ''2026-11-04 09:00:00''\<rparr>"
  by (simp_all add: ex_world_def ex_adapt_def datetime_now_def ex_now_def)

lemma one_feed_pass:
  "monitor_feeds w [(url, kw)] d =
     (case process_feed w (url, kw) (insert_or_ignore_feed w url d) of
        Inl e \<Rightarrow> Inl e
      | Inr (d1, tr) \<Rightarrow> Inr (fst (prune_old_articles w d1), tr))"
  by (simp add: monitor_feeds_def register_feeds_def split: sum.splits)

section \<open>The keyword filter\<close>

text \<open>
  C6 (amended).  \<^const>\<open>matches_filter\<close> is a total predicate.  It holds for every entry and
  content when the keyword is absent or empty; for any other keyword it holds exactly
  when the lower-cased keyword is a substring of the lower-cased title followed by the
  lower-cased description and the lower-cased extracted content, a missing field counting
  as the empty string.  Where lower-casing the concatenation of the three gives the same
  text, that is: exactly when the lower-cased keyword is a substring of the lower-cased
  concatenation.
\<close>

theorem matches_filter_iff:
  "(matches_filter w it content kw \<longleftrightarrow>
     (kw = None \<or> kw = Some [] \<or>
      (\<exists>k ps ss. kw = Some k \<and>
         str_lower w (dict_get (title it) []) @ str_lower w (dict_get (description it) [])
           @ str_lower w (dict_get content [])
         = ps @ str_lower w k @ ss))) \<and>
   (str_lower w (dict_get (title it) [] @ dict_get (description it) [] @ dict_get content [])
      = str_lower w (dict_get (title it) []) @ str_lower w (dict_get (description it) [])
          @ str_lower w (dict_get content [])
    \<longrightarrow> (matches_filter w it content kw \<longleftrightarrow>
           (kw = None \<or> kw = Some [] \<or>
            (\<exists>k ps ss. kw = Some k \<and>
               str_lower w (dict_get (title it) [] @ dict_get (description it) [] @ dict_get content [])
               = ps @ str_lower w k @ ss))))"
proof -
  have parts: "matches_filter w it content kw \<longleftrightarrow>
     (kw = None \<or> kw = Some [] \<or>
      (\<exists>k ps ss. kw = Some k \<and>
         str_lower w (dict_get (title it) []) @ str_lower w (dict_get (description it) [])
           @ str_lower w (dict_get content [])
         = ps @ str_lower w k @ ss))"
    by (cases kw) (auto simp: matches_filter_def str_in_iff py_or_empty)
  then show ?thesis by simp
qed

theorem matches_filter_iff_witness:
  "matches_filter ex_world ex_item_link None (Some ''PYTHON'') \<and>
   \<not> matches_filter ex_world ex_item_guid (Some ''Leap 16 is out'') (Some ''python'') \<and>
   matches_filter ex_world ex_item_guid None (Some '''') \<and>
   matches_filter ex_world ex_item_guid None None"
proof -
  note t1 = matches_filter_iff [of ex_world ex_item_link None "Some ''PYTHON''"]
  note t2 = matches_filter_iff [of ex_world ex_item_guid "Some ''Leap 16 is out''" "Some ''python''"]
  have d: "str_lower ex_world (dict_get (title ex_item_link) [] @ dict_get (description ex_item_link) []
                    @ dict_get None [])
             = str_lower ex_world (dict_get (title ex_item_link) [])
                 @ str_lower ex_world (dict_get (description ex_item_link) [])
                 @ str_lower ex_world (dict_get None [])"
    by code_simp
  have a: "str_lower ex_world (dict_get (title ex_item_link) [] @ dict_get (description ex_item_link) []
                    @ dict_get None [])
             = [] @ str_lower ex_world ''PYTHON'' @ '' sprint''"
    by code_simp
  have b: "\<not> str_in (str_lower ex_world ''python'')
               (str_lower ex_world (dict_get (title ex_item_guid) [])
                  @ str_lower ex_world (dict_get (description ex_item_guid) [])
                  @ str_lower ex_world (dict_get (Some ''Leap 16 is out'') []))"
    by code_simp
  from t1 [THEN conjunct2, rule_format, OF d] a
  have "matches_filter ex_world ex_item_link None (Some ''PYTHON'')" by blast
  moreover from b
  have "\<not> matches_filter ex_world ex_item_guid (Some ''Leap 16 is out'') (Some ''python'')"
    using t2 [THEN conjunct1] by (auto simp: str_in_iff)
  moreover have "matches_filter ex_world ex_item_guid None (Some '''')"
    using matches_filter_iff [of ex_world ex_item_guid None "Some ''''", THEN conjunct1] by simp
  moreover have "matches_filter ex_world ex_item_guid None None"
    using matches_filter_iff [of ex_world ex_item_guid None None, THEN conjunct1] by simp
  ultimately show ?thesis by (intro conjI)
qed

text \<open>
  C6 as stated takes the lower-cased concatenation.  \<^verbatim>\<open>str.lower\<close> writes a capital sigma
  at the end of a text as the final sigma: the title \<open>A\<close>, capital sigma becomes \<open>a\<close>,
  final sigma, while title and description \<open>B\<close> together become \<open>a\<close>, small sigma, \<open>b\<close>.
  The keyword small sigma, \<open>b\<close> is a substring of the lower-cased concatenation, and the
  filter rejects the entry.
\<close>

theorem lower_of_parts_counterexample:
  "ex_sigma_keyword \<noteq> [] \<and>
   \<not> matches_filter ex_world ex_item_sigma None (Some ex_sigma_keyword) \<and>
   str_lower ex_world
       (dict_get (title ex_item_sigma) [] @ dict_get (description ex_item_sigma) []
          @ dict_get None [])
     = ''a'' @ str_lower ex_world ex_sigma_keyword @ []"
proof -
  have 1: "ex_sigma_keyword \<noteq> []"
    by (simp add: ex_sigma_keyword_def)
  have 2: "\<not> matches_filter ex_world ex_item_sigma None (Some ex_sigma_keyword)"
    by code_simp
  have 3: "str_lower ex_world
       (dict_get (title ex_item_sigma) [] @ dict_get (description ex_item_sigma) []
          @ dict_get None [])
     = ''a'' @ str_lower ex_world ex_sigma_keyword @ []"
    by code_simp
  from 1 2 3 show ?thesis by (intro conjI)
qed

section \<open>The row of a collected entry\<close>

lemma process_feed_articles_mono:
  assumes "process_feed w (u, k) d = Inr (d', tr)"
  shows "set (articles d) \<subseteq> set (articles d')"
  using process_feed_result [OF assms] by auto

lemma process_feeds_articles_mono:
  "process_feeds w rss d = Inr (d', tr) \<Longrightarrow> set (articles d) \<subseteq> set (articles d')"
proof (induction rss arbitrary: d tr)
  case Nil
  then show ?case by simp
next
  case (Cons fk rss)
  obtain u kw where fk: "fk = (u, kw)" by (cases fk)
  from Cons.prems fk obtain d1 tr1 tr2 where
    p: "process_feed w (u, kw) d = Inr (d1, tr1)" and q: "process_feeds w rss d1 = Inr (d', tr2)"
    by (auto split: sum.splits)
  from process_feed_articles_mono [OF p] Cons.IH [OF q] show ?case by auto
qed

text \<open>Once the identifier of an entry that is alone with its identifier in its feed is
  stored by the pass, the row stored under it is the row of that entry.\<close>

lemma process_feed_row:
  assumes p: "process_feed w (u, k) d = Inr (d', tr)"
    and alone: "\<forall>x \<in> set (entries (parse w url)).
                  get_article_identifier w x = get_article_identifier w it \<longrightarrow> x = it"
    and inv: "get_article_identifier w it \<in> stored_identifiers d url
                \<longrightarrow> article_row w url (entry_tuple w it) \<in> set (articles d)"
  shows "get_article_identifier w it \<in> stored_identifiers d' url
           \<longrightarrow> article_row w url (entry_tuple w it) \<in> set (articles d')"
proof
  assume "get_article_identifier w it \<in> stored_identifiers d' url"
  with process_feed_stored [OF p, of url]
  consider "get_article_identifier w it \<in> stored_identifiers d url"
    | "u = url" "\<not> bozo (parse w u)" "get_article_identifier w it \<in> fst ` set (batch w u k d)"
    by (auto split: if_splits)
  then show "article_row w url (entry_tuple w it) \<in> set (articles d')"
  proof cases
    case 1
    with inv process_feed_articles_mono [OF p] show ?thesis by auto
  next
    case 2
    then obtain n where n: "n \<in> set (batch w url k d)" "fst n = get_article_identifier w it"
      by auto
    from batch_matched [OF n(1)] obtain x where
      x: "x \<in> set (entries (parse w url))" "n = entry_tuple w x"
      by blast
    with n(2) have "get_article_identifier w x = get_article_identifier w it"
      by (simp add: entry_tuple_def)
    with alone x(1) have "x = it" by blast
    with x(2) n(1) have "entry_tuple w it \<in> set (batch w url k d)" by simp
    moreover from 2 process_feed_result [OF p] have
      "articles d' = articles d @ map (article_row w url) (batch w url k d)"
      by auto
    ultimately show ?thesis by simp
  qed
qed

lemma process_feeds_row:
  assumes alone: "\<forall>x \<in> set (entries (parse w url)).
                  get_article_identifier w x = get_article_identifier w it \<longrightarrow> x = it"
  shows "process_feeds w rss d = Inr (d', tr)
     \<Longrightarrow> get_article_identifier w it \<in> stored_identifiers d url
           \<longrightarrow> article_row w url (entry_tuple w it) \<in> set (articles d)
     \<Longrightarrow> get_article_identifier w it \<in> stored_identifiers d' url
           \<longrightarrow> article_row w url (entry_tuple w it) \<in> set (articles d')"
proof (induction rss arbitrary: d tr)
  case Nil
  then show ?case by simp
next
  case (Cons fk rss)
  obtain u kw where fk: "fk = (u, kw)" by (cases fk)
  from Cons.prems(1) fk obtain d1 tr1 tr2 where
    p: "process_feed w (u, kw) d = Inr (d1, tr1)" and q: "process_feeds w rss d1 = Inr (d', tr2)"
    by (auto split: sum.splits)
  from Cons.IH [OF q process_feed_row [OF p alone Cons.prems(2)]] show ?case .
qed

lemma process_feeds_stores:
  assumes p: "process_feeds w rss d = Inr (d', tr)"
    and listed: "(url, kw) \<in> set rss" and ok: "\<not> bozo (parse w url)"
    and it: "it \<in> set (entries (parse w url))"
    and alone: "\<forall>x \<in> set (entries (parse w url)).
                  get_article_identifier w x = get_article_identifier w it \<longrightarrow> x = it"
    and new: "get_article_identifier w it \<notin> stored_identifiers d url"
    and passes: "matches_filter w it (entry_text w it) kw"
  shows "article_row w url (entry_tuple w it) \<in> set (articles d')"
proof -
  from process_feeds_settles [OF p] listed have "settled w d' (url, kw)" by blast
  with ok it passes have "get_article_identifier w it \<in> stored_identifiers d' url"
    by (auto simp: settled_def)
  moreover from new have "get_article_identifier w it \<in> stored_identifiers d url
           \<longrightarrow> article_row w url (entry_tuple w it) \<in> set (articles d)"
    by simp
  ultimately show ?thesis using process_feeds_row [OF alone p] by blast
qed

section \<open>Publication dates\<close>

text \<open>
  C8.  The date string of an entry is \<^verbatim>\<open>published\<close>, else \<^verbatim>\<open>pubdate\<close>.  A string
  without \<open>Z\<close> that \<^verbatim>\<open>fromisoformat\<close> accepts gives the value parsed; a string ending in a
  \<open>Z\<close> is read as the same string ending in \<open>+00:00\<close>; a string that does not parse gives
  the clock's value; so does a missing date, since the default is the clock's own ISO
  string, which parses back to the clock's value or not at all.  The date plays no part
  in accepting the entry: an unseen entry that passes the filter is appended with the date
  so computed, and after the loop over the feeds of a pass the \<^verbatim>\<open>articles\<close> table holds
  its row, whose \<^verbatim>\<open>pub_date\<close> is what the adapter writes for that date (the entry being
  alone with its identifier in a configured feed that parses, and the identifier not
  stored before).  The pass ends with the pruning of that table.
\<close>

theorem parse_pub_date_never_rejects:
  "(\<forall>s t. (published it = Some s \<or> published it = None \<and> pubdate it = Some s) \<and>
          CHR ''Z'' \<notin> set s \<and> fromisoformat w s = Some t
        \<longrightarrow> parse_pub_date w it = t) \<and>
   (\<forall>s t. (published it = Some (s @ ''Z'') \<or> published it = None \<and> pubdate it = Some (s @ ''Z'')) \<and>
          CHR ''Z'' \<notin> set s \<and> fromisoformat w (s @ ''+00:00'') = Some t
        \<longrightarrow> parse_pub_date w it = t) \<and>
   (\<forall>s. (published it = Some s \<or> published it = None \<and> pubdate it = Some s) \<and>
        fromisoformat w (replace_Z s) = None
        \<longrightarrow> parse_pub_date w it = datetime_now w) \<and>
   (published it = None \<and> pubdate it = None \<and>
      (fromisoformat w (replace_Z (isoformat w (datetime_now w))) = None \<or>
       fromisoformat w (replace_Z (isoformat w (datetime_now w))) = Some (datetime_now w))
        \<longrightarrow> parse_pub_date w it = datetime_now w) \<and>
   (get_article_identifier w it \<notin> seen \<and> matches_filter w it (entry_text w it) kw
        \<longrightarrow> (\<exists>tr'. process_entry w kw it (seen, new, tr) =
                   (insert (get_article_identifier w it) seen,
                    new @ [(get_article_identifier w it, dict_get (title it) ''No title'',
                            dict_get (link it) ''No link'',
                            dict_get (description it) ''No description'',
                            entry_text w it, parse_pub_date w it)],
                    tr'))) \<and>
   ((url, kw) \<in> set rss_feeds \<and> \<not> bozo (parse w url) \<and> it \<in> set (entries (parse w url)) \<and>
    (\<forall>x \<in> set (entries (parse w url)).
        get_article_identifier w x = get_article_identifier w it \<longrightarrow> x = it) \<and>
    get_article_identifier w it \<notin> stored_identifiers d url \<and>
    matches_filter w it (entry_text w it) kw
        \<longrightarrow> (\<exists>dm tr'. process_feeds w rss_feeds (register_feeds w rss_feeds d) = Inr (dm, tr') \<and>
               monitor_feeds w rss_feeds d = Inr (fst (prune_old_articles w dm), tr') \<and>
               \<lparr>feed_url = url, art_identifier = get_article_identifier w it,
                art_title = dict_get (title it) ''No title'',
                art_link = dict_get (link it) ''No link'',
                art_description = dict_get (description it) ''No description'',
                fetched_content = entry_text w it,
                pub_date = adapt_datetime w (parse_pub_date w it)\<rparr> \<in> set (articles dm)))"
proof -
  have 1: "\<forall>s t. (published it = Some s \<or> published it = None \<and> pubdate it = Some s) \<and>
          CHR ''Z'' \<notin> set s \<and> fromisoformat w s = Some t
        \<longrightarrow> parse_pub_date w it = t"
    by (auto simp: parse_pub_date_def replace_Z_id)
  have 2: "\<forall>s t. (published it = Some (s @ ''Z'') \<or> published it = None \<and> pubdate it = Some (s @ ''Z'')) \<and>
          CHR ''Z'' \<notin> set s \<and> fromisoformat w (s @ ''+00:00'') = Some t
        \<longrightarrow> parse_pub_date w it = t"
    by (auto simp: parse_pub_date_def replace_Z_trailing)
  have 3: "\<forall>s. (published it = Some s \<or> published it = None \<and> pubdate it = Some s) \<and>
        fromisoformat w (replace_Z s) = None
        \<longrightarrow> parse_pub_date w it = datetime_now w"
    by (auto simp: parse_pub_date_def)
  have 4: "published it = None \<and> pubdate it = None \<and>
      (fromisoformat w (replace_Z (isoformat w (datetime_now w))) = None \<or>
       fromisoformat w (replace_Z (isoformat w (datetime_now w))) = Some (datetime_now w))
        \<longrightarrow> parse_pub_date w it = datetime_now w"
    by (auto simp: parse_pub_date_def)
  have 5: "get_article_identifier w it \<notin> seen \<and> matches_filter w it (entry_text w it) kw
        \<longrightarrow> (\<exists>tr'. process_entry w kw it (seen, new, tr) =
                   (insert (get_article_identifier w it) seen,
                    new @ [(get_article_identifier w it, dict_get (title it) ''No title'',
                            dict_get (link it) ''No link'',
                            dict_get (description it) ''No description'',
                            entry_text w it, parse_pub_date w it)],
                    tr'))"
    by (simp add: process_entry_cases entry_tuple_def)
  have 6: "(url, kw) \<in> set rss_feeds \<and> \<not> bozo (parse w url) \<and> it \<in> set (entries (parse w url)) \<and>
    (\<forall>x \<in> set (entries (parse w url)).
        get_article_identifier w x = get_article_identifier w it \<longrightarrow> x = it) \<and>
    get_article_identifier w it \<notin> stored_identifiers d url \<and>
    matches_filter w it (entry_text w it) kw
        \<longrightarrow> (\<exists>dm tr'. process_feeds w rss_feeds (register_feeds w rss_feeds d) = Inr (dm, tr') \<and>
               monitor_feeds w rss_feeds d = Inr (fst (prune_old_articles w dm), tr') \<and>
               \<lparr>feed_url = url, art_identifier = get_article_identifier w it,
                art_title = dict_get (title it) ''No title'',
                art_link = dict_get (link it) ''No link'',
                art_description = dict_get (description it) ''No description'',
                fetched_content = entry_text w it,
                pub_date = adapt_datetime w (parse_pub_date w it)\<rparr> \<in> set (articles dm))"
  proof (intro impI, elim conjE)
    assume listed: "(url, kw) \<in> set rss_feeds" and ok: "\<not> bozo (parse w url)"
      and it: "it \<in> set (entries (parse w url))"
      and alone: "\<forall>x \<in> set (entries (parse w url)).
                    get_article_identifier w x = get_article_identifier w it \<longrightarrow> x = it"
      and new: "get_article_identifier w it \<notin> stored_identifiers d url"
      and passes: "matches_filter w it (entry_text w it) kw"
    obtain d' tr' where m: "monitor_feeds w rss_feeds d = Inr (d', tr')"
      using monitor_feeds_total by blast
    then obtain dm where
      p: "process_feeds w rss_feeds (register_feeds w rss_feeds d) = Inr (dm, tr')"
      and d': "d' = fst (prune_old_articles w dm)"
      by (auto simp: monitor_feeds_result)
    from new have "get_article_identifier w it \<notin> stored_identifiers (register_feeds w rss_feeds d) url"
      by simp
    from process_feeds_stores [OF p listed ok it alone this passes]
    have "article_row w url (entry_tuple w it) \<in> set (articles dm)" .
    then have "\<lparr>feed_url = url, art_identifier = get_article_identifier w it,
                art_title = dict_get (title it) ''No title'',
                art_link = dict_get (link it) ''No link'',
                art_description = dict_get (description it) ''No description'',
                fetched_content = entry_text w it,
                pub_date = adapt_datetime w (parse_pub_date w it)\<rparr> \<in> set (articles dm)"
      by (simp add: entry_tuple_def)
    with p m d' show "\<exists>dm tr'. process_feeds w rss_feeds (register_feeds w rss_feeds d) = Inr (dm, tr') \<and>
               monitor_feeds w rss_feeds d = Inr (fst (prune_old_articles w dm), tr') \<and>
               \<lparr>feed_url = url, art_identifier = get_article_identifier w it,
                art_title = dict_get (title it) ''No title'',
                art_link = dict_get (link it) ''No link'',
                art_description = dict_get (description it) ''No description'',
                fetched_content = entry_text w it,
                pub_date = adapt_datetime w (parse_pub_date w it)\<rparr> \<in> set (articles dm)"
      by blast
  qed
  from 1 2 3 4 5 6 show ?thesis by (intro conjI)
qed

theorem parse_pub_date_never_rejects_witness:
  "parse_pub_date ex_world ex_item_guid = \<lparr>wall = 63929116800000000, utcoffset = Some 0\<rparr> \<and>
   parse_pub_date ex_world ex_item_link = datetime_now ex_world \<and>
   parse_pub_date ex_world ex_item_bare = datetime_now ex_world \<and>
   (\<exists>dm tr. process_feeds ex_world [(ex_feed_url, Some [])]
               (register_feeds ex_world [(ex_feed_url, Some [])] ex_empty_db) = Inr (dm, tr) \<and>
            monitor_feeds ex_world [(ex_feed_url, Some [])] ex_empty_db
               = Inr (fst (prune_old_articles ex_world dm), tr) \<and>
            \<lparr>feed_url = ex_feed_url, art_identifier = ''urn:post:1'',
             art_title = ''Leap released'', art_link = ''https://news.opensuse.org/1'',
             art_description = ''Release notes'', fetched_content = Some ''Leap 16 is out'',
             pub_date = ''2026-11-01 08:00:00+00:00''\<rparr> \<in> set (articles dm)) \<and>
   (\<exists>dm tr. process_feeds ex_world [(ex_feed_url, Some [])]
               (register_feeds ex_world [(ex_feed_url, Some [])] ex_empty_db) = Inr (dm, tr) \<and>
            monitor_feeds ex_world [(ex_feed_url, Some [])] ex_empty_db
               = Inr (fst (prune_old_articles ex_world dm), tr) \<and>
            \<lparr>feed_url = ex_feed_url, art_identifier = ''https://news.opensuse.org/2'',
             art_title = ''Python sprint'', art_link = ''https://news.opensuse.org/2'',
             art_description = ''No description'', fetched_content = None,
             pub_date = ''2026-11-04 09:00:00''\<rparr> \<in> set (articles dm))"
proof -
  note g = parse_pub_date_never_rejects [where it = ex_item_guid and w = ex_world
      and kw = "Some []" and url = ex_feed_url and rss_feeds = "[(ex_feed_url, Some [])]"
      and d = ex_empty_db]
  note l = parse_pub_date_never_rejects [where it = ex_item_link and w = ex_world
      and kw = "Some []" and url = ex_feed_url and rss_feeds = "[(ex_feed_url, Some [])]"
      and d = ex_empty_db]
  note b = parse_pub_date_never_rejects [where it = ex_item_bare and w = ex_world]
  have pg: "published ex_item_guid = Some (''2026-11-01T08:00:00'' @ ''Z'')"
    "CHR ''Z'' \<notin> set ''2026-11-01T08:00:00''"
    "fromisoformat ex_world (''2026-11-01T08:00:00'' @ ''+00:00'')
       = Some \<lparr>wall = 63929116800000000, utcoffset = Some 0\<rparr>"
    by (simp_all add: ex_item_guid_def ex_world_def ex_fromisoformat_def)
  from g [THEN conjunct2, THEN conjunct1] pg
  have dg: "parse_pub_date ex_world ex_item_guid = \<lparr>wall = 63929116800000000, utcoffset = Some 0\<rparr>"
    by blast
  have "replace_Z ''Sun, 01 Nov 2026 08:00:00 GMT'' = ''Sun, 01 Nov 2026 08:00:00 GMT''"
    by (simp add: replace_Z_def)
  then have pl: "published ex_item_link = Some ''Sun, 01 Nov 2026 08:00:00 GMT''"
    "fromisoformat ex_world (replace_Z ''Sun, 01 Nov 2026 08:00:00 GMT'') = None"
    by (simp_all add: ex_item_link_def ex_world_def ex_fromisoformat_def)
  from l [THEN conjunct2, THEN conjunct2, THEN conjunct1] pl
  have dl: "parse_pub_date ex_world ex_item_link = datetime_now ex_world"
    by blast
  have "replace_Z (isoformat ex_world (datetime_now ex_world)) = ''2026-11-04T09:00:00''"
    by (simp add: replace_Z_def ex_world_def ex_isoformat_def datetime_now_def ex_now_def)
  then have pb: "published ex_item_bare = None" "pubdate ex_item_bare = None"
    "fromisoformat ex_world (replace_Z (isoformat ex_world (datetime_now ex_world)))
       = Some (datetime_now ex_world)"
    by (simp_all add: ex_item_bare_def)
       (simp add: ex_world_def ex_fromisoformat_def datetime_now_def ex_now_def)
  from b [THEN conjunct2, THEN conjunct2, THEN conjunct2, THEN conjunct1] pb
  have db: "parse_pub_date ex_world ex_item_bare = datetime_now ex_world"
    by blast
  have texts: "adapt_datetime ex_world \<lparr>wall = 63929116800000000, utcoffset = Some 0\<rparr>
                 = ''2026-11-01 08:00:00+00:00''"
    "adapt_datetime ex_world (datetime_now ex_world) = ''2026-11-04 09:00:00''"
    by (simp_all add: ex_world_def ex_adapt_def datetime_now_def ex_now_def)
  have fields: "dict_get (title ex_item_guid) ''No title'' = ''Leap released''"
    "dict_get (link ex_item_guid) ''No link'' = ''https://news.opensuse.org/1''"
    "dict_get (description ex_item_guid) ''No description'' = ''Release notes''"
    "dict_get (title ex_item_link) ''No title'' = ''Python sprint''"
    "dict_get (link ex_item_link) ''No link'' = ''https://news.opensuse.org/2''"
    "dict_get (description ex_item_link) ''No description'' = ''No description''"
    by (simp_all add: ex_item_guid_def ex_item_link_def)
  have hyps: "(ex_feed_url, Some []) \<in> set [(ex_feed_url, Some [])]"
    "\<not> bozo (parse ex_world ex_feed_url)"
    "ex_item_guid \<in> set (entries (parse ex_world ex_feed_url))"
    "ex_item_link \<in> set (entries (parse ex_world ex_feed_url))"
    "\<forall>x \<in> set (entries (parse ex_world ex_feed_url)).
        get_article_identifier ex_world x = get_article_identifier ex_world ex_item_guid
          \<longrightarrow> x = ex_item_guid"
    "\<forall>x \<in> set (entries (parse ex_world ex_feed_url)).
        get_article_identifier ex_world x = get_article_identifier ex_world ex_item_link
          \<longrightarrow> x = ex_item_link"
    "get_article_identifier ex_world ex_item_guid \<notin> stored_identifiers ex_empty_db ex_feed_url"
    "get_article_identifier ex_world ex_item_link \<notin> stored_identifiers ex_empty_db ex_feed_url"
    "matches_filter ex_world ex_item_guid (entry_text ex_world ex_item_guid) (Some [])"
    "matches_filter ex_world ex_item_link (entry_text ex_world ex_item_link) (Some [])"
    by (simp_all add: ex_entries ex_identifiers stored_identifiers_def ex_empty_db_def)
  from g [THEN conjunct2, THEN conjunct2, THEN conjunct2, THEN conjunct2, THEN conjunct2] hyps
  have sg: "\<exists>dm tr. process_feeds ex_world [(ex_feed_url, Some [])]
               (register_feeds ex_world [(ex_feed_url, Some [])] ex_empty_db) = Inr (dm, tr) \<and>
            monitor_feeds ex_world [(ex_feed_url, Some [])] ex_empty_db
               = Inr (fst (prune_old_articles ex_world dm), tr) \<and>
            \<lparr>feed_url = ex_feed_url, art_identifier = ''urn:post:1'',
             art_title = ''Leap released'', art_link = ''https://news.opensuse.org/1'',
             art_description = ''Release notes'', fetched_content = Some ''Leap 16 is out'',
             pub_date = ''2026-11-01 08:00:00+00:00''\<rparr> \<in> set (articles dm)"
    by (simp add: ex_identifiers fields ex_contents dg texts)
  from l [THEN conjunct2, THEN conjunct2, THEN conjunct2, THEN conjunct2, THEN conjunct2] hyps
  have sl: "\<exists>dm tr. process_feeds ex_world [(ex_feed_url, Some [])]
               (register_feeds ex_world [(ex_feed_url, Some [])] ex_empty_db) = Inr (dm, tr) \<and>
            monitor_feeds ex_world [(ex_feed_url, Some [])] ex_empty_db
               = Inr (fst (prune_old_articles ex_world dm), tr) \<and>
            \<lparr>feed_url = ex_feed_url, art_identifier = ''https://news.opensuse.org/2'',
             art_title = ''Python sprint'', art_link = ''https://news.opensuse.org/2'',
             art_description = ''No description'', fetched_content = None,
             pub_date = ''2026-11-04 09:00:00''\<rparr> \<in> set (articles dm)"
    by (simp add: ex_identifiers fields ex_contents dl texts)
  from dg dl db sg sl show ?thesis by (intro conjI)
qed

section \<open>Entries that fail the filter\<close>

lemma ex_twin_world:
  "parse ex_world_twin u =
     \<lparr>bozo = False, bozo_exception = [], feed_title = Some ''openSUSE News'',
      entries = [ex_item_guid, ex_item_twin]\<rparr>"
  "entry_text ex_world_twin ex_item_guid = Some ''Leap 16 is out''"
  "entry_text ex_world_twin ex_item_twin = None"
  "now_text ex_world_twin = ''2026-11-04 09:00:00''"
  "cutoff_text ex_world_twin = ''2026-10-05 09:00:00''"
  "parse_pub_date ex_world_twin ex_item_twin = datetime_now ex_world_twin"
proof -
  show "parse ex_world_twin u =
     \<lparr>bozo = False, bozo_exception = [], feed_title = Some ''openSUSE News'',
      entries = [ex_item_guid, ex_item_twin]\<rparr>"
    by (simp add: ex_world_twin_def)
  show "entry_text ex_world_twin ex_item_guid = Some ''Leap 16 is out''"
    by (simp add: entry_text_eq ex_item_guid_def)
       (simp add: fetch_article_content_def fetch_try_def ex_world_twin_def ex_world_def
          requests_raise_for_status_def)
  show "entry_text ex_world_twin ex_item_twin = None"
    by (simp add: entry_text_eq ex_item_twin_def)
       (simp add: fetch_article_content_def fetch_try_def ex_world_twin_def ex_world_def)
  show "now_text ex_world_twin = ''2026-11-04 09:00:00''"
    by (simp add: now_text_def datetime_now_def ex_world_twin_def ex_world_def ex_adapt_def
          ex_now_def)
  show "cutoff_text ex_world_twin = ''2026-10-05 09:00:00''"
    by (simp add: cutoff_text_eq ex_world_twin_def ex_world_def ex_adapt_def ex_now_def)
  have "replace_Z ''Sun, 01 Nov 2026 08:00:00 GMT'' = ''Sun, 01 Nov 2026 08:00:00 GMT''"
    by (simp add: replace_Z_def)
  then show "parse_pub_date ex_world_twin ex_item_twin = datetime_now ex_world_twin"
    by (simp add: parse_pub_date_def ex_item_twin_def)
       (simp add: ex_world_twin_def ex_world_def ex_fromisoformat_def)
qed

lemma ex_twin_filter:
  "\<not> matches_filter ex_world_twin ex_item_guid (Some ''Leap 16 is out'') (Some ''python'')"
  "matches_filter ex_world_twin ex_item_twin None (Some ''python'')"
  by code_simp+

text \<open>
  C10 (amended).  An entry whose identifier is not in \<^verbatim>\<open>seen\<close> when the loop reaches it
  and which fails the filter leaves \<^verbatim>\<open>seen\<close> and \<^verbatim>\<open>new_articles\<close> as they are.  Its page
  has been requested: the content the filter saw is the value of
  \<^verbatim>\<open>fetch_article_content\<close> for its link in this pass (for the string \<open>No link\<close> when the
  entry has no link; nothing is requested and the content is \<^verbatim>\<open>None\<close> when the link is
  empty), which makes one request and is the text extracted from the page exactly when
  the request, the status check, the summary and the stripping all succeed.  Had the
  entry passed on that content, it would have been collected.  What a feed's pass
  collects, inserts and mails are tuples of entries that passed the filter in this pass.
  So an identifier that is not stored for the feed, and none of whose entries passes a
  filter configured for the feed, is still not stored after the pass, while the pages of
  its entries have been requested; and it is still not stored after any number of such
  passes.
\<close>

theorem filtered_entry_stays_unknown:
  "(get_article_identifier w it \<notin> seen \<and> \<not> matches_filter w it (entry_text w it) kw \<longrightarrow>
      process_entry w kw it (seen, new, tr) = (seen, new, tr @ entry_requests w it)) \<and>
   (get_article_identifier w it \<notin> seen \<and> matches_filter w it (entry_text w it) kw \<longrightarrow>
      process_entry w kw it (seen, new, tr) =
        (insert (get_article_identifier w it) seen, new @ [entry_tuple w it],
         tr @ entry_requests w it)) \<and>
   (\<not> bozo (parse w url) \<longrightarrow>
      process_feed w (url, kw) d =
        Inr ((update_feed url (mark_checked w) d)
               \<lparr>articles := articles d @ map (article_row w url) (batch w url kw d)\<rparr>,
             fetches w url kw d @
               (if batch w url kw d = [] then [] else [article_mail w url (batch w url kw d)]))) \<and>
   (\<forall>n \<in> set (batch w url kw d).
      \<exists>x \<in> set (entries (parse w url)). n = entry_tuple w x \<and> matches_filter w x (entry_text w x) kw) \<and>
   ((\<forall>k x. (url, k) \<in> set rss_feeds \<and> x \<in> set (entries (parse w url)) \<and>
           get_article_identifier w x = i \<longrightarrow> \<not> matches_filter w x (entry_text w x) k) \<and>
    i \<notin> stored_identifiers d url \<longrightarrow>
      (\<exists>d' tr'. monitor_feeds w rss_feeds d = Inr (d', tr') \<and> i \<notin> stored_identifiers d' url \<and>
         (\<forall>k x. (url, k) \<in> set rss_feeds \<and> \<not> bozo (parse w url) \<and>
                 x \<in> set (entries (parse w url)) \<and> get_article_identifier w x = i
                 \<longrightarrow> set (entry_requests w x) \<subseteq> set tr'))) \<and>
   ((\<forall>p \<in> set ws. \<forall>k x. (url, k) \<in> set rss_feeds \<and> x \<in> set (entries (parse p url)) \<and>
           get_article_identifier p x = i \<longrightarrow> \<not> matches_filter p x (entry_text p x) k) \<and>
    i \<notin> stored_identifiers d url \<longrightarrow>
      (\<exists>d'. run_passes ws rss_feeds d = Inr d' \<and> i \<notin> stored_identifiers d' url)) \<and>
   entry_content w it = (entry_text w it, entry_requests w it) \<and>
   (\<forall>l. link it = Some l \<and> l \<noteq> [] \<or> link it = None \<and> l = ''No link''
        \<longrightarrow> entry_content w it = fetch_article_content w l) \<and>
   (link it = Some [] \<longrightarrow> entry_content w it = (None, [])) \<and>
   (\<forall>u. snd (fetch_article_content w u) = [Fetch u]) \<and>
   (\<forall>u s. fst (fetch_article_content w u) = Some s \<longleftrightarrow>
      (\<exists>r c fed. requests_get w u = Inr r \<and> raise_for_status w r = None \<and>
         Document_summary w (response_text r) = Inr c \<and> HTMLParser_feed w c = Inr fed \<and>
         s = concat fed))"
proof -
  have 1: "get_article_identifier w it \<notin> seen \<and> \<not> matches_filter w it (entry_text w it) kw \<longrightarrow>
      process_entry w kw it (seen, new, tr) = (seen, new, tr @ entry_requests w it)"
    by (simp add: process_entry_cases)
  have 2: "get_article_identifier w it \<notin> seen \<and> matches_filter w it (entry_text w it) kw \<longrightarrow>
      process_entry w kw it (seen, new, tr) =
        (insert (get_article_identifier w it) seen, new @ [entry_tuple w it],
         tr @ entry_requests w it)"
    by (simp add: process_entry_cases)
  have 3: "\<not> bozo (parse w url) \<longrightarrow>
      process_feed w (url, kw) d =
        Inr ((update_feed url (mark_checked w) d)
               \<lparr>articles := articles d @ map (article_row w url) (batch w url kw d)\<rparr>,
             fetches w url kw d @
               (if batch w url kw d = [] then [] else [article_mail w url (batch w url kw d)]))"
    using process_feed_success by blast
  have 4: "\<forall>n \<in> set (batch w url kw d).
      \<exists>x \<in> set (entries (parse w url)). n = entry_tuple w x \<and> matches_filter w x (entry_text w x) kw"
    using batch_matched by blast
  have 5: "(\<forall>k x. (url, k) \<in> set rss_feeds \<and> x \<in> set (entries (parse w url)) \<and>
           get_article_identifier w x = i \<longrightarrow> \<not> matches_filter w x (entry_text w x) k) \<and>
    i \<notin> stored_identifiers d url \<longrightarrow>
      (\<exists>d' tr'. monitor_feeds w rss_feeds d = Inr (d', tr') \<and> i \<notin> stored_identifiers d' url \<and>
         (\<forall>k x. (url, k) \<in> set rss_feeds \<and> \<not> bozo (parse w url) \<and>
                 x \<in> set (entries (parse w url)) \<and> get_article_identifier w x = i
                 \<longrightarrow> set (entry_requests w x) \<subseteq> set tr'))"
    using monitor_feeds_unknown [of url rss_feeds w i d] by blast
  have 6: "(\<forall>p \<in> set ws. \<forall>k x. (url, k) \<in> set rss_feeds \<and> x \<in> set (entries (parse p url)) \<and>
           get_article_identifier p x = i \<longrightarrow> \<not> matches_filter p x (entry_text p x) k) \<and>
    i \<notin> stored_identifiers d url \<longrightarrow>
      (\<exists>d'. run_passes ws rss_feeds d = Inr d' \<and> i \<notin> stored_identifiers d' url)"
    using run_passes_unknown [of ws url rss_feeds i d] by blast
  have 7: "entry_content w it = (entry_text w it, entry_requests w it)"
    by (simp add: entry_text_def entry_requests_def)
  have 8: "\<forall>l. link it = Some l \<and> l \<noteq> [] \<or> link it = None \<and> l = ''No link''
        \<longrightarrow> entry_content w it = fetch_article_content w l"
    by (auto simp: entry_content_def)
  have 9: "link it = Some [] \<longrightarrow> entry_content w it = (None, [])"
    by (simp add: entry_content_def)
  have 10: "\<forall>u. snd (fetch_article_content w u) = [Fetch u]"
    by (simp add: fetch_article_content_requests)
  have 11: "\<forall>u s. fst (fetch_article_content w u) = Some s \<longleftrightarrow>
      (\<exists>r c fed. requests_get w u = Inr r \<and> raise_for_status w r = None \<and>
         Document_summary w (response_text r) = Inr c \<and> HTMLParser_feed w c = Inr fed \<and>
         s = concat fed)"
    using fetch_article_content_Some_iff by blast
  from 1 2 3 4 5 6 7 8 9 10 11 show ?thesis by (intro conjI)
qed

theorem filtered_entry_stays_unknown_witness:
  "get_article_identifier ex_world ex_item_guid = ''urn:post:1'' \<and>
   entry_content ex_world ex_item_guid
     = (Some ''Leap 16 is out'', [Fetch ''https://news.opensuse.org/1'']) \<and>
   \<not> matches_filter ex_world ex_item_guid (Some ''Leap 16 is out'') (Some ''python'') \<and>
   process_entry ex_world (Some ''python'') ex_item_guid ({}, [], [])
     = ({}, [], [Fetch ''https://news.opensuse.org/1'']) \<and>
   matches_filter ex_world ex_item_guid (Some ''Leap 16 is out'') (Some ''16'') \<and>
   process_entry ex_world (Some ''16'') ex_item_guid ({}, [], [])
     = ({''urn:post:1''},
        [(''urn:post:1'', ''Leap released'', ''https://news.opensuse.org/1'', ''Release notes'',
          Some ''Leap 16 is out'', \<lparr>wall = 63929116800000000, utcoffset = Some 0\<rparr>)],
        [Fetch ''https://news.opensuse.org/1'']) \<and>
   ''urn:post:1'' \<notin> stored_identifiers ex_db ex_feed_url \<and>
   (\<exists>d' tr'. monitor_feeds ex_world [(ex_feed_url, Some ''python'')] ex_db = Inr (d', tr') \<and>
       ''urn:post:1'' \<notin> stored_identifiers d' ex_feed_url \<and>
       Fetch ''https://news.opensuse.org/1'' \<in> set tr') \<and>
   (\<exists>d'. run_passes [ex_world, ex_world] [(ex_feed_url, Some ''python'')] ex_db = Inr d' \<and>
       ''urn:post:1'' \<notin> stored_identifiers d' ex_feed_url)"
proof -
  let ?rss = "[(ex_feed_url, Some ''python'')]"
  note t = filtered_entry_stays_unknown [where w = ex_world and it = ex_item_guid
      and seen = "{}" and kw = "Some ''python''" and new = "[]" and tr = "[]"
      and url = ex_feed_url and d = ex_db and rss_feeds = ?rss and i = "''urn:post:1''"
      and ws = "[ex_world, ex_world]"]
  note t16 = filtered_entry_stays_unknown [where w = ex_world and it = ex_item_guid
      and seen = "{}" and kw = "Some ''16''" and new = "[]" and tr = "[]"]
  note rest = t [THEN conjunct2, THEN conjunct2, THEN conjunct2, THEN conjunct2]
  note pins = rest [THEN conjunct2, THEN conjunct2]
  have g: "get_article_identifier ex_world ex_item_guid = ''urn:post:1''"
    by (simp add: get_article_identifier_def ex_item_guid_def)
  have l: "get_article_identifier ex_world ex_item_link \<noteq> ''urn:post:1''"
    by (simp add: get_article_identifier_def ex_item_link_def)
  have lk: "link ex_item_guid = Some ''https://news.opensuse.org/1''"
    "''https://news.opensuse.org/1'' \<noteq> []"
    by (simp_all add: ex_item_guid_def)
  from pins [THEN conjunct2, THEN conjunct1] lk
  have c1: "entry_content ex_world ex_item_guid
              = fetch_article_content ex_world ''https://news.opensuse.org/1''"
    by blast
  have page: "requests_get ex_world ''https://news.opensuse.org/1''
                = Inr \<lparr>status_code = 200, response_text = ''Leap 16 is out''\<rparr>"
    "raise_for_status ex_world \<lparr>status_code = 200, response_text = ''Leap 16 is out''\<rparr> = None"
    "Document_summary ex_world
        (response_text \<lparr>status_code = 200, response_text = ''Leap 16 is out''\<rparr>)
       = Inr ''Leap 16 is out''"
    "HTMLParser_feed ex_world ''Leap 16 is out'' = Inr [''Leap 16 is out'']"
    "''Leap 16 is out'' = concat [''Leap 16 is out'']"
    by (simp_all add: ex_world_def requests_raise_for_status_def)
  from pins [THEN conjunct2, THEN conjunct2, THEN conjunct2, THEN conjunct2] page
  have "fst (fetch_article_content ex_world ''https://news.opensuse.org/1'')
          = Some ''Leap 16 is out''"
    by blast
  moreover from pins [THEN conjunct2, THEN conjunct2, THEN conjunct2, THEN conjunct1]
  have "snd (fetch_article_content ex_world ''https://news.opensuse.org/1'')
          = [Fetch ''https://news.opensuse.org/1'']"
    by blast
  ultimately have c: "entry_content ex_world ex_item_guid
     = (Some ''Leap 16 is out'', [Fetch ''https://news.opensuse.org/1''])"
    using c1 by (simp add: prod_eq_iff)
  with pins [THEN conjunct1]
  have tx: "entry_text ex_world ex_item_guid = Some ''Leap 16 is out''"
    and f: "entry_requests ex_world ex_item_guid = [Fetch ''https://news.opensuse.org/1'']"
    by simp_all
  have m: "\<not> matches_filter ex_world ex_item_guid (Some ''Leap 16 is out'') (Some ''python'')"
    by code_simp
  have m16: "matches_filter ex_world ex_item_guid (Some ''Leap 16 is out'') (Some ''16'')"
    by code_simp
  have e: "entries (parse ex_world ex_feed_url) = [ex_item_guid, ex_item_link]"
    and b: "\<not> bozo (parse ex_world ex_feed_url)"
    by (simp_all add: ex_world_def)
  have s: "''urn:post:1'' \<notin> stored_identifiers ex_db ex_feed_url"
    by (simp add: stored_identifiers_def ex_db_def ex_old_article_def ex_recent_article_def)
  have h: "\<forall>k x. (ex_feed_url, k) \<in> set ?rss \<and> x \<in> set (entries (parse ex_world ex_feed_url)) \<and>
           get_article_identifier ex_world x = ''urn:post:1''
           \<longrightarrow> \<not> matches_filter ex_world x (entry_text ex_world x) k"
    using m l tx by (auto simp: e)
  have 1: "process_entry ex_world (Some ''python'') ex_item_guid ({}, [], [])
     = ({}, [], [Fetch ''https://news.opensuse.org/1''])"
    using t [THEN conjunct1] g m f tx by simp
  have 16: "process_entry ex_world (Some ''16'') ex_item_guid ({}, [], [])
     = ({''urn:post:1''},
        [(''urn:post:1'', ''Leap released'', ''https://news.opensuse.org/1'', ''Release notes'',
          Some ''Leap 16 is out'', \<lparr>wall = 63929116800000000, utcoffset = Some 0\<rparr>)],
        [Fetch ''https://news.opensuse.org/1''])"
    using t16 [THEN conjunct2, THEN conjunct1] g m16 f tx by (simp add: ex_guid_tuple)
  from rest [THEN conjunct1] h s
  obtain d' tr' where 2: "monitor_feeds ex_world ?rss ex_db = Inr (d', tr')"
      "''urn:post:1'' \<notin> stored_identifiers d' ex_feed_url"
      "\<forall>k x. (ex_feed_url, k) \<in> set ?rss \<and> \<not> bozo (parse ex_world ex_feed_url) \<and>
                 x \<in> set (entries (parse ex_world ex_feed_url)) \<and>
                 get_article_identifier ex_world x = ''urn:post:1''
                 \<longrightarrow> set (entry_requests ex_world x) \<subseteq> set tr'"
    by blast
  from 2(3) b g have "set (entry_requests ex_world ex_item_guid) \<subseteq> set tr'"
    by (simp add: e)
  with f have 3: "Fetch ''https://news.opensuse.org/1'' \<in> set tr'" by simp
  have 4: "\<exists>d'. run_passes [ex_world, ex_world] ?rss ex_db = Inr d' \<and>
       ''urn:post:1'' \<notin> stored_identifiers d' ex_feed_url"
    using rest [THEN conjunct2, THEN conjunct1] h s
    by (simp del: run_passes.simps)
  from g c m 1 m16 16 s 2(1,2) 3 4 show ?thesis by blast
qed

text \<open>
  C10 as stated fails when the feed lists a second entry under the same identifier.
  The feed of \<^const>\<open>ex_world_twin\<close> lists two entries with the GUID \<open>urn:post:1\<close>; the
  keyword is \<open>python\<close> and the store is empty.  The first entry is unseen and fails the
  filter on its title, its description and the page fetched for it.  The second entry
  passes, so the pass stores a row under \<open>urn:post:1\<close>: the identifier of the first entry
  is known after the pass.  In the next pass, with the first entry still in the feed, no
  page is requested and no filter is evaluated: the trace is empty.
\<close>

theorem same_identifier_entry_counterexample:
  "entries (parse ex_world_twin ex_feed_url) = [ex_item_guid, ex_item_twin] \<and>
   get_article_identifier ex_world_twin ex_item_guid = ''urn:post:1'' \<and>
   ''urn:post:1'' \<notin> stored_identifiers ex_empty_db ex_feed_url \<and>
   entry_content ex_world_twin ex_item_guid
     = (Some ''Leap 16 is out'', [Fetch ''https://news.opensuse.org/1'']) \<and>
   \<not> matches_filter ex_world_twin ex_item_guid (Some ''Leap 16 is out'') (Some ''python'') \<and>
   monitor_feeds ex_world_twin [(ex_feed_url, Some ''python'')] ex_empty_db
     = Inr (\<lparr>feeds = [ex_feed_url \<mapsto> \<lparr>last_checked = ''2026-11-04 09:00:00'', failure_count = 0\<rparr>],
             articles =
               [\<lparr>feed_url = ex_feed_url, art_identifier = ''urn:post:1'',
                 art_title = ''Python sprint'', art_link = ''https://news.opensuse.org/2'',
                 art_description = ''No description'', fetched_content = None,
                 pub_date = ''2026-11-04 09:00:00''\<rparr>]\<rparr>,
            [Fetch ''https://news.opensuse.org/1'', Fetch ''https://news.opensuse.org/2'',
             article_mail ex_world_twin ex_feed_url
               [(''urn:post:1'', ''Python sprint'', ''https://news.opensuse.org/2'',
                 ''No description'', None, datetime_now ex_world_twin)]]) \<and>
   ''urn:post:1'' \<in> stored_identifiers
       \<lparr>feeds = [ex_feed_url \<mapsto> \<lparr>last_checked = ''2026-11-04 09:00:00'', failure_count = 0\<rparr>],
        articles =
          [\<lparr>feed_url = ex_feed_url, art_identifier = ''urn:post:1'',
            art_title = ''Python sprint'', art_link = ''https://news.opensuse.org/2'',
            art_description = ''No description'', fetched_content = None,
            pub_date = ''2026-11-04 09:00:00''\<rparr>]\<rparr> ex_feed_url \<and>
   monitor_feeds ex_world_twin [(ex_feed_url, Some ''python'')]
       \<lparr>feeds = [ex_feed_url \<mapsto> \<lparr>last_checked = ''2026-11-04 09:00:00'', failure_count = 0\<rparr>],
        articles =
          [\<lparr>feed_url = ex_feed_url, art_identifier = ''urn:post:1'',
            art_title = ''Python sprint'', art_link = ''https://news.opensuse.org/2'',
            art_description = ''No description'', fetched_content = None,
            pub_date = ''2026-11-04 09:00:00''\<rparr>]\<rparr>
     = Inr (\<lparr>feeds = [ex_feed_url \<mapsto> \<lparr>last_checked = ''2026-11-04 09:00:00'', failure_count = 0\<rparr>],
             articles =
               [\<lparr>feed_url = ex_feed_url, art_identifier = ''urn:post:1'',
                 art_title = ''Python sprint'', art_link = ''https://news.opensuse.org/2'',
                 art_description = ''No description'', fetched_content = None,
                 pub_date = ''2026-11-04 09:00:00''\<rparr>]\<rparr>, [])"
proof -
  let ?rss = "[(ex_feed_url, Some ''python'')]"
  let ?row = "\<lparr>feed_url = ex_feed_url, art_identifier = ''urn:post:1'',
                 art_title = ''Python sprint'', art_link = ''https://news.opensuse.org/2'',
                 art_description = ''No description'', fetched_content = None,
                 pub_date = ''2026-11-04 09:00:00''\<rparr>"
  let ?d1 = "\<lparr>feeds = [ex_feed_url \<mapsto> \<lparr>last_checked = ''2026-11-04 09:00:00'', failure_count = 0\<rparr>],
              articles = [?row]\<rparr>"
  let ?tuple = "(''urn:post:1'', ''Python sprint'', ''https://news.opensuse.org/2'',
                 ''No description'', None, datetime_now ex_world_twin)"
  have nb: "\<not> bozo (parse ex_world_twin ex_feed_url)"
    by (simp add: ex_twin_world)
  have e: "entries (parse ex_world_twin ex_feed_url) = [ex_item_guid, ex_item_twin]"
    by (simp add: ex_twin_world)
  have g: "get_article_identifier ex_world_twin ex_item_guid = ''urn:post:1''"
    by (simp add: ex_identifiers)
  have s: "''urn:post:1'' \<notin> stored_identifiers ex_empty_db ex_feed_url"
    by (simp add: stored_identifiers_def ex_empty_db_def)
  have c: "entry_content ex_world_twin ex_item_guid
     = (Some ''Leap 16 is out'', [Fetch ''https://news.opensuse.org/1''])"
    using ex_twin_world(2) ex_fetch(1) [of ex_world_twin]
    by (simp add: entry_text_def entry_requests_def prod_eq_iff)
  have tw: "entry_tuple ex_world_twin ex_item_twin = ?tuple"
    by (simp add: entry_tuple_def ex_identifiers ex_twin_world) (simp add: ex_item_twin_def)
  have row: "article_row ex_world_twin ex_feed_url ?tuple = ?row"
    using ex_twin_world(4) by (simp add: now_text_def)
  have l1: "entries_loop ex_world_twin ex_feed_url (Some ''python'')
              (insert_or_ignore_feed ex_world_twin ex_feed_url ex_empty_db)
            = ({''urn:post:1''}, [?tuple],
               [Fetch ''https://news.opensuse.org/1'', Fetch ''https://news.opensuse.org/2''])"
    by (simp add: entries_loop_def stored_identifiers_def ex_empty_db_def e
          process_entry_cases ex_identifiers ex_twin_world(2,3) ex_twin_filter ex_fetch tw)
  have keep: "\<not> text_less ''2026-11-04 09:00:00'' ''2026-10-05 09:00:00''"
    by simp
  have A1: "monitor_feeds ex_world_twin ?rss ex_empty_db
     = Inr (?d1, [Fetch ''https://news.opensuse.org/1'', Fetch ''https://news.opensuse.org/2'',
                  article_mail ex_world_twin ex_feed_url [?tuple]])"
    by (simp add: one_feed_pass process_feed_success [OF nb] batch_def fetches_def l1 row)
       (simp add: insert_or_ignore_feed_def update_feed_def mark_checked_def ex_empty_db_def
          prune_old_articles_def Let_def ex_twin_world(4,5)
          ex_twin_world(4,5) [unfolded now_text_def cutoff_text_def]
          keep)
  have k: "''urn:post:1'' \<in> stored_identifiers ?d1 ex_feed_url"
    by (simp add: stored_identifiers_def)
  have l2: "entries_loop ex_world_twin ex_feed_url (Some ''python'')
              (insert_or_ignore_feed ex_world_twin ex_feed_url ?d1)
            = ({''urn:post:1''}, [], [])"
    by (simp add: entries_loop_def stored_identifiers_def e process_entry_cases ex_identifiers)
  have A2: "monitor_feeds ex_world_twin ?rss ?d1 = Inr (?d1, [])"
    by (simp add: one_feed_pass process_feed_success [OF nb] batch_def fetches_def l2)
       (simp add: insert_or_ignore_feed_def update_feed_def mark_checked_def
          prune_old_articles_def Let_def ex_twin_world(4,5)
          ex_twin_world(4,5) [unfolded now_text_def cutoff_text_def]
          keep)
  from e g s c ex_twin_filter(1) A1 k A2 show ?thesis by (intro conjI)
qed

section \<open>Failing content extraction\<close>

text \<open>
  C7 (amended).  \<^const>\<open>fetch_article_content\<close> always returns: \<^verbatim>\<open>None\<close> exactly when the
  page request, the status check, the extraction of the main content or the stripping of
  the markup raises, the stripped text otherwise.  With the status check of
  \<^verbatim>\<open>requests\<close>, which raises for a status from 400 to 599 and for no other, a response
  with such a status gives \<^verbatim>\<open>None\<close>, and a response with any other status, 2xx or not,
  gives \<^verbatim>\<open>None\<close> only if the extraction or the stripping fails.  An unseen entry whose
  content is \<^verbatim>\<open>None\<close> is collected exactly when it passes the filter on title and
  description alone, which it always does for a feed without keyword; it is then stored
  with no content, and its lines in the notification show the description of the feed
  in place of the content.
\<close>

theorem fetch_failure_absorbed:
  "(fst (fetch_article_content w url) = None \<longleftrightarrow>
      (\<exists>e. requests_get w url = Inl e) \<or>
      (\<exists>r. requests_get w url = Inr r \<and>
         (raise_for_status w r \<noteq> None \<or>
          (\<exists>e. Document_summary w (response_text r) = Inl e) \<or>
          (\<exists>c e. Document_summary w (response_text r) = Inr c \<and> HTMLParser_feed w c = Inl e)))) \<and>
   (fst (fetch_article_content w url) = None \<or> (\<exists>s. fst (fetch_article_content w url) = Some s)) \<and>
   ((\<forall>r. raise_for_status w r \<noteq> None \<longleftrightarrow> 400 \<le> status_code r \<and> status_code r < 600) \<longrightarrow>
      (\<forall>r. requests_get w url = Inr r \<longrightarrow>
         (400 \<le> status_code r \<and> status_code r < 600
            \<longrightarrow> fst (fetch_article_content w url) = None) \<and>
         (\<not> (400 \<le> status_code r \<and> status_code r < 600)
            \<longrightarrow> (fst (fetch_article_content w url) = None \<longleftrightarrow>
                  (\<exists>e. Document_summary w (response_text r) = Inl e) \<or>
                  (\<exists>c e. Document_summary w (response_text r) = Inr c \<and>
                         HTMLParser_feed w c = Inl e))))) \<and>
   (entry_text w it = None \<and> get_article_identifier w it \<notin> seen \<longrightarrow>
      process_entry w kw it (seen, new, tr) =
        (if matches_filter w it None kw
         then (insert (get_article_identifier w it) seen,
               new @ [(get_article_identifier w it, dict_get (title it) ''No title'',
                       dict_get (link it) ''No link'', dict_get (description it) ''No description'',
                       None, parse_pub_date w it)],
               tr @ entry_requests w it)
         else (seen, new, tr @ entry_requests w it))) \<and>
   (kw = None \<or> kw = Some [] \<longrightarrow> matches_filter w it None kw) \<and>
   article_text (i, t, l, ds, None, p)
     = ''Title: '' @ t @ [CHR 0x0A] @ ''Link: '' @ l @ [CHR 0x0A] @ ''Content: '' @ ds
         @ [CHR 0x0A, CHR 0x0A] \<and>
   article_row w u (i, t, l, ds, None, p)
     = \<lparr>feed_url = u, art_identifier = i, art_title = t, art_link = l, art_description = ds,
        fetched_content = None, pub_date = adapt_datetime w p\<rparr> \<and>
   (\<not> bozo (parse w u) \<longrightarrow>
      process_feed w (u, kw) d =
        Inr ((update_feed u (mark_checked w) d)
               \<lparr>articles := articles d @ map (article_row w u) (batch w u kw d)\<rparr>,
             fetches w u kw d @
               (if batch w u kw d = [] then [] else [article_mail w u (batch w u kw d)])))"
proof -
  note 1 = fetch_article_content_None_iff [of w url]
  have 2: "fst (fetch_article_content w url) = None \<or> (\<exists>s. fst (fetch_article_content w url) = Some s)"
    by (cases "fst (fetch_article_content w url)") simp_all
  have 3: "(\<forall>r. raise_for_status w r \<noteq> None \<longleftrightarrow> 400 \<le> status_code r \<and> status_code r < 600) \<longrightarrow>
      (\<forall>r. requests_get w url = Inr r \<longrightarrow>
         (400 \<le> status_code r \<and> status_code r < 600
            \<longrightarrow> fst (fetch_article_content w url) = None) \<and>
         (\<not> (400 \<le> status_code r \<and> status_code r < 600)
            \<longrightarrow> (fst (fetch_article_content w url) = None \<longleftrightarrow>
                  (\<exists>e. Document_summary w (response_text r) = Inl e) \<or>
                  (\<exists>c e. Document_summary w (response_text r) = Inr c \<and>
                         HTMLParser_feed w c = Inl e))))"
  proof (intro impI allI)
    fix r
    assume lib: "\<forall>r. raise_for_status w r \<noteq> None \<longleftrightarrow> 400 \<le> status_code r \<and> status_code r < 600"
      and r: "requests_get w url = Inr r"
    from lib have "raise_for_status w r \<noteq> None \<longleftrightarrow> 400 \<le> status_code r \<and> status_code r < 600"
      by blast
    with r 1 show "(400 \<le> status_code r \<and> status_code r < 600
            \<longrightarrow> fst (fetch_article_content w url) = None) \<and>
         (\<not> (400 \<le> status_code r \<and> status_code r < 600)
            \<longrightarrow> (fst (fetch_article_content w url) = None \<longleftrightarrow>
                  (\<exists>e. Document_summary w (response_text r) = Inl e) \<or>
                  (\<exists>c e. Document_summary w (response_text r) = Inr c \<and>
                         HTMLParser_feed w c = Inl e)))"
      by auto
  qed
  have 4: "entry_text w it = None \<and> get_article_identifier w it \<notin> seen \<longrightarrow>
      process_entry w kw it (seen, new, tr) =
        (if matches_filter w it None kw
         then (insert (get_article_identifier w it) seen,
               new @ [(get_article_identifier w it, dict_get (title it) ''No title'',
                       dict_get (link it) ''No link'', dict_get (description it) ''No description'',
                       None, parse_pub_date w it)],
               tr @ entry_requests w it)
         else (seen, new, tr @ entry_requests w it))"
    by (simp add: process_entry_cases entry_tuple_def)
  have 5: "kw = None \<or> kw = Some [] \<longrightarrow> matches_filter w it None kw"
    by (auto simp: matches_filter_def)
  have 6: "article_text (i, t, l, ds, None, p)
     = ''Title: '' @ t @ [CHR 0x0A] @ ''Link: '' @ l @ [CHR 0x0A] @ ''Content: '' @ ds
         @ [CHR 0x0A, CHR 0x0A]"
    by simp
  have 7: "article_row w u (i, t, l, ds, None, p)
     = \<lparr>feed_url = u, art_identifier = i, art_title = t, art_link = l, art_description = ds,
        fetched_content = None, pub_date = adapt_datetime w p\<rparr>"
    by simp
  have 8: "\<not> bozo (parse w u) \<longrightarrow>
      process_feed w (u, kw) d =
        Inr ((update_feed u (mark_checked w) d)
               \<lparr>articles := articles d @ map (article_row w u) (batch w u kw d)\<rparr>,
             fetches w u kw d @
               (if batch w u kw d = [] then [] else [article_mail w u (batch w u kw d)]))"
    using process_feed_success by blast
  from 1 2 3 4 5 6 7 8 show ?thesis by (intro conjI)
qed

theorem fetch_failure_absorbed_witness:
  "fst (fetch_article_content ex_world_offline ''https://news.opensuse.org/1'') = None \<and>
   fst (fetch_article_content
          (ex_world\<lparr>requests_get := (\<lambda>u. Inr \<lparr>status_code = 404, response_text = ''Leap 16 is out''\<rparr>)\<rparr>)
          ''https://news.opensuse.org/1'') = None \<and>
   entry_text ex_world_offline ex_item_guid = None \<and>
   process_entry ex_world_offline None ex_item_guid ({}, [], [])
     = ({''urn:post:1''},
        [(''urn:post:1'', ''Leap released'', ''https://news.opensuse.org/1'', ''Release notes'',
          None, parse_pub_date ex_world_offline ex_item_guid)],
        [Fetch ''https://news.opensuse.org/1'']) \<and>
   article_text (''urn:post:1'', ''Leap released'', ''https://news.opensuse.org/1'',
       ''Release notes'', None, \<lparr>wall = 63929116800000000, utcoffset = Some 0\<rparr>)
     = ''Title: Leap released'' @ [CHR 0x0A] @ ''Link: https://news.opensuse.org/1'' @ [CHR 0x0A]
         @ ''Content: Release notes'' @ [CHR 0x0A, CHR 0x0A] \<and>
   process_feed ex_world_offline (ex_feed_url, Some []) ex_empty_db
     = Inr (ex_empty_db
              \<lparr>articles :=
                 [\<lparr>feed_url = ex_feed_url, art_identifier = ''urn:post:1'',
                   art_title = ''Leap released'', art_link = ''https://news.opensuse.org/1'',
                   art_description = ''Release notes'', fetched_content = None,
                   pub_date = ''2026-11-01 08:00:00+00:00''\<rparr>,
                  \<lparr>feed_url = ex_feed_url, art_identifier = ''https://news.opensuse.org/2'',
                   art_title = ''Python sprint'', art_link = ''https://news.opensuse.org/2'',
                   art_description = ''No description'', fetched_content = None,
                   pub_date = ''2026-11-04 09:00:00''\<rparr>]\<rparr>,
            [Fetch ''https://news.opensuse.org/1'', Fetch ''https://news.opensuse.org/2'',
             article_mail ex_world_offline ex_feed_url
               [(''urn:post:1'', ''Leap released'', ''https://news.opensuse.org/1'',
                 ''Release notes'', None, \<lparr>wall = 63929116800000000, utcoffset = Some 0\<rparr>),
                (''https://news.opensuse.org/2'', ''Python sprint'', ''https://news.opensuse.org/2'',
                 ''No description'', None, datetime_now ex_world)]])"
proof -
  let ?w404 = "ex_world\<lparr>requests_get := (\<lambda>u. Inr \<lparr>status_code = 404, response_text = ''Leap 16 is out''\<rparr>)\<rparr>"
  let ?date = "\<lparr>wall = 63929116800000000, utcoffset = Some 0\<rparr>"
  note t = fetch_failure_absorbed [where w = ex_world_offline
      and url = "''https://news.opensuse.org/1''" and it = ex_item_guid and seen = "{}"
      and kw = None and new = "[]" and tr = "[]" and i = "''urn:post:1''"
      and t = "''Leap released''" and l = "''https://news.opensuse.org/1''"
      and ds = "''Release notes''" and p = ?date and u = ex_feed_url and d = ex_empty_db]
  note t404 = fetch_failure_absorbed [where w = ?w404 and url = "''https://news.opensuse.org/1''"]
  note tf = fetch_failure_absorbed [where w = ex_world_offline and u = ex_feed_url
      and kw = "Some []" and d = ex_empty_db]
  have r: "requests_get ex_world_offline ''https://news.opensuse.org/1'' = Inl ''ConnectionError''"
    by (simp add: ex_world_offline_def)
  have 1: "fst (fetch_article_content ex_world_offline ''https://news.opensuse.org/1'') = None"
    using t [THEN conjunct1] r by simp
  have lib: "\<forall>r. raise_for_status ?w404 r \<noteq> None \<longleftrightarrow> 400 \<le> status_code r \<and> status_code r < 600"
    by (simp add: ex_world_def requests_raise_for_status_def)
  have r404: "requests_get ?w404 ''https://news.opensuse.org/1''
                = Inr \<lparr>status_code = 404, response_text = ''Leap 16 is out''\<rparr>"
    "400 \<le> status_code \<lparr>status_code = 404, response_text = ''Leap 16 is out''\<rparr> \<and>
     status_code \<lparr>status_code = 404, response_text = ''Leap 16 is out''\<rparr> < 600"
    by simp_all
  from t404 [THEN conjunct2, THEN conjunct2, THEN conjunct1] lib r404
  have 2: "fst (fetch_article_content ?w404 ''https://news.opensuse.org/1'') = None"
    by blast
  have 3: "entry_text ex_world_offline ex_item_guid = None"
    using 1 by (simp add: entry_text_eq ex_item_guid_def)
  have 4: "process_entry ex_world_offline None ex_item_guid ({}, [], [])
     = ({''urn:post:1''},
        [(''urn:post:1'', ''Leap released'', ''https://news.opensuse.org/1'', ''Release notes'',
          None, parse_pub_date ex_world_offline ex_item_guid)],
        [Fetch ''https://news.opensuse.org/1''])"
    using t [THEN conjunct2, THEN conjunct2, THEN conjunct2, THEN conjunct1]
      t [THEN conjunct2, THEN conjunct2, THEN conjunct2, THEN conjunct2, THEN conjunct1] 3
    by (simp add: ex_identifiers ex_fetch) (simp add: ex_item_guid_def)
  have 5: "article_text (''urn:post:1'', ''Leap released'', ''https://news.opensuse.org/1'',
       ''Release notes'', None, ?date)
     = ''Title: Leap released'' @ [CHR 0x0A] @ ''Link: https://news.opensuse.org/1'' @ [CHR 0x0A]
         @ ''Content: Release notes'' @ [CHR 0x0A, CHR 0x0A]"
    using t [THEN conjunct2, THEN conjunct2, THEN conjunct2, THEN conjunct2, THEN conjunct2,
             THEN conjunct1]
    by simp
  have s: "stored_identifiers ex_empty_db ex_feed_url = {}"
    by (simp add: stored_identifiers_def ex_empty_db_def)
  have up: "update_feed ex_feed_url f ex_empty_db = ex_empty_db" for f
    by (simp add: update_feed_def ex_empty_db_def)
  have same: "parse_pub_date ex_world_offline x = parse_pub_date ex_world x"
    "adapt_datetime ex_world_offline = adapt_datetime ex_world" for x
    by (simp_all add: parse_pub_date_def ex_world_offline_def datetime_now_def
          split: option.splits)
  have tuples: "entry_tuple ex_world_offline ex_item_guid
       = (''urn:post:1'', ''Leap released'', ''https://news.opensuse.org/1'', ''Release notes'',
          None, ?date)"
    "entry_tuple ex_world_offline ex_item_link
       = (''https://news.opensuse.org/2'', ''Python sprint'', ''https://news.opensuse.org/2'',
          ''No description'', None, datetime_now ex_world)"
    by (simp_all add: entry_tuple_def ex_identifiers ex_contents same ex_dates)
       (simp_all add: ex_item_guid_def ex_item_link_def)
  have loop: "entries_loop ex_world_offline ex_feed_url (Some []) ex_empty_db
               = ({''urn:post:1'', ''https://news.opensuse.org/2''},
                  [entry_tuple ex_world_offline ex_item_guid,
                   entry_tuple ex_world_offline ex_item_link],
                  [Fetch ''https://news.opensuse.org/1'', Fetch ''https://news.opensuse.org/2''])"
    by (simp add: entries_loop_def s ex_entries process_entry_cases ex_identifiers ex_fetch
          insert_commute)
  have rows: "adapt_datetime ex_world_offline ?date = ''2026-11-01 08:00:00+00:00''"
    "adapt_datetime ex_world_offline (datetime_now ex_world) = ''2026-11-04 09:00:00''"
    by (simp_all add: same) (simp_all add: ex_world_def ex_adapt_def datetime_now_def ex_now_def)
  have 6: "process_feed ex_world_offline (ex_feed_url, Some []) ex_empty_db
     = Inr (ex_empty_db
              \<lparr>articles :=
                 [\<lparr>feed_url = ex_feed_url, art_identifier = ''urn:post:1'',
                   art_title = ''Leap released'', art_link = ''https://news.opensuse.org/1'',
                   art_description = ''Release notes'', fetched_content = None,
                   pub_date = ''2026-11-01 08:00:00+00:00''\<rparr>,
                  \<lparr>feed_url = ex_feed_url, art_identifier = ''https://news.opensuse.org/2'',
                   art_title = ''Python sprint'', art_link = ''https://news.opensuse.org/2'',
                   art_description = ''No description'', fetched_content = None,
                   pub_date = ''2026-11-04 09:00:00''\<rparr>]\<rparr>,
            [Fetch ''https://news.opensuse.org/1'', Fetch ''https://news.opensuse.org/2'',
             article_mail ex_world_offline ex_feed_url
               [(''urn:post:1'', ''Leap released'', ''https://news.opensuse.org/1'',
                 ''Release notes'', None, ?date),
                (''https://news.opensuse.org/2'', ''Python sprint'', ''https://news.opensuse.org/2'',
                 ''No description'', None, datetime_now ex_world)]])"
    using tf [THEN conjunct2, THEN conjunct2, THEN conjunct2, THEN conjunct2, THEN conjunct2,
              THEN conjunct2, THEN conjunct2] ex_entries(4)
    by (simp add: batch_def fetches_def loop up tuples rows) (simp add: ex_empty_db_def rows)
  from 1 2 3 4 5 6 show ?thesis by (intro conjI)
qed

text \<open>
  C7 as stated fails in two ways.  First, a failed extraction can block the ingestion.
  With the keyword \<open>16\<close>, which occurs in the page of the first example entry and not in
  its title or description: when every request fails, the content is \<^verbatim>\<open>None\<close>, the feed's
  pass stores nothing and sends no mail; when the page can be read, the same entry is
  stored and mailed.  Second, a status outside 2xx need not give \<^verbatim>\<open>None\<close>: the status
  check of \<^verbatim>\<open>requests\<close> lets the status 300 pass, and the body of the response is
  returned as the content.
\<close>

theorem fetch_failure_blocks_filtered_entry_counterexample:
  "fst (fetch_article_content ex_world_offline ''https://news.opensuse.org/1'') = None \<and>
   process_feed ex_world_offline (ex_feed_url, Some ''16'') ex_empty_db
     = Inr (ex_empty_db,
            [Fetch ''https://news.opensuse.org/1'', Fetch ''https://news.opensuse.org/2'']) \<and>
   process_feed ex_world (ex_feed_url, Some ''16'') ex_empty_db
     = Inr (ex_empty_db
              \<lparr>articles :=
                 [\<lparr>feed_url = ex_feed_url, art_identifier = ''urn:post:1'',
                   art_title = ''Leap released'', art_link = ''https://news.opensuse.org/1'',
                   art_description = ''Release notes'',
                   fetched_content = Some ''Leap 16 is out'',
                   pub_date = ''2026-11-01 08:00:00+00:00''\<rparr>]\<rparr>,
            [Fetch ''https://news.opensuse.org/1'', Fetch ''https://news.opensuse.org/2'',
             article_mail ex_world ex_feed_url
               [(''urn:post:1'', ''Leap released'', ''https://news.opensuse.org/1'',
                 ''Release notes'', Some ''Leap 16 is out'',
                 \<lparr>wall = 63929116800000000, utcoffset = Some 0\<rparr>)]]) \<and>
   requests_get ex_world_300 ''https://news.opensuse.org/1''
     = Inr \<lparr>status_code = 300, response_text = ''Leap 16 is out''\<rparr> \<and>
   raise_for_status ex_world_300 \<lparr>status_code = 300, response_text = ''Leap 16 is out''\<rparr> = None \<and>
   fetch_article_content ex_world_300 ''https://news.opensuse.org/1''
     = (Some ''Leap 16 is out'', [Fetch ''https://news.opensuse.org/1''])"
proof -
  have s: "stored_identifiers ex_empty_db ex_feed_url = {}"
    by (simp add: stored_identifiers_def ex_empty_db_def)
  have u: "update_feed ex_feed_url f ex_empty_db = ex_empty_db" for f
    by (simp add: update_feed_def ex_empty_db_def)
  have off: "entries_loop ex_world_offline ex_feed_url (Some ''16'') ex_empty_db
               = ({}, [], [Fetch ''https://news.opensuse.org/1'', Fetch ''https://news.opensuse.org/2''])"
    by (simp add: entries_loop_def s ex_entries process_entry_cases ex_identifiers ex_contents
          ex_filter_16 ex_fetch)
  have on: "entries_loop ex_world ex_feed_url (Some ''16'') ex_empty_db
               = ({''urn:post:1''}, [entry_tuple ex_world ex_item_guid],
                  [Fetch ''https://news.opensuse.org/1'', Fetch ''https://news.opensuse.org/2''])"
    by (simp add: entries_loop_def s ex_entries process_entry_cases ex_identifiers ex_contents
          ex_filter_16 ex_fetch)
  have 1: "fst (fetch_article_content ex_world_offline ''https://news.opensuse.org/1'') = None"
    by (simp add: ex_page)
  have ad: "adapt_datetime ex_world \<lparr>wall = 63929116800000000, utcoffset = Some 0\<rparr>
              = ''2026-11-01 08:00:00+00:00''"
    by (simp add: ex_world_def ex_adapt_def)
  have 2: "process_feed ex_world_offline (ex_feed_url, Some ''16'') ex_empty_db
     = Inr (ex_empty_db,
            [Fetch ''https://news.opensuse.org/1'', Fetch ''https://news.opensuse.org/2''])"
    using process_feed_success [OF ex_entries(4), of "Some ''16''" ex_empty_db]
    by (simp add: batch_def fetches_def off u)
  have 3: "process_feed ex_world (ex_feed_url, Some ''16'') ex_empty_db
     = Inr (ex_empty_db
              \<lparr>articles :=
                 [\<lparr>feed_url = ex_feed_url, art_identifier = ''urn:post:1'',
                   art_title = ''Leap released'', art_link = ''https://news.opensuse.org/1'',
                   art_description = ''Release notes'',
                   fetched_content = Some ''Leap 16 is out'',
                   pub_date = ''2026-11-01 08:00:00+00:00''\<rparr>]\<rparr>,
            [Fetch ''https://news.opensuse.org/1'', Fetch ''https://news.opensuse.org/2'',
             article_mail ex_world ex_feed_url
               [(''urn:post:1'', ''Leap released'', ''https://news.opensuse.org/1'',
                 ''Release notes'', Some ''Leap 16 is out'',
                 \<lparr>wall = 63929116800000000, utcoffset = Some 0\<rparr>)]])"
    using process_feed_success [OF ex_entries(3), of "Some ''16''" ex_empty_db]
    by (simp add: batch_def fetches_def on u ex_guid_tuple ad) (simp add: ex_empty_db_def ad)
  have 4: "requests_get ex_world_300 ''https://news.opensuse.org/1''
     = Inr \<lparr>status_code = 300, response_text = ''Leap 16 is out''\<rparr>"
    by (simp add: ex_world_300_def)
  have 5: "raise_for_status ex_world_300 \<lparr>status_code = 300, response_text = ''Leap 16 is out''\<rparr>
             = None"
    by (simp add: ex_world_300_def ex_world_def requests_raise_for_status_def)
  have 6: "fetch_article_content ex_world_300 ''https://news.opensuse.org/1''
     = (Some ''Leap 16 is out'', [Fetch ''https://news.opensuse.org/1''])"
    by (simp add: fetch_article_content_def fetch_try_def ex_world_300_def ex_world_def
          requests_raise_for_status_def)
  from 1 2 3 4 5 6 show ?thesis by (intro conjI)
qed

section \<open>Two passes in a row\<close>

text \<open>
  C2 (amended).  Let a first pass run, and let the pruning at its end delete no row that
  belongs to an entry which its feed still lists.  Let a second pass follow that meets
  the same parsed feeds and, for their entries, the same identifiers and the same
  extracted contents, with the same \<^verbatim>\<open>str.lower\<close>; its clock may show any value.  Then
  the second pass ends normally, inserts no row -- the \<^verbatim>\<open>articles\<close> table before its
  pruning is the table the first pass left -- and every event of it is a page request or
  a mail that reports a failing feed: no notification of new articles is sent.
\<close>

theorem second_pass_idle:
  assumes first: "process_feeds w1 rss_feeds (register_feeds w1 rss_feeds d) = Inr (dm, tr1)"
    and kept: "\<forall>a \<in> set (articles dm).
                 (\<exists>kw. (feed_url a, kw) \<in> set rss_feeds) \<and>
                 art_identifier a \<in> get_article_identifier w1 ` set (entries (parse w1 (feed_url a)))
                 \<longrightarrow> \<not> text_less (pub_date a) (cutoff_text w1)"
    and same_feeds: "parse w2 = parse w1"
    and same_lower: "str_lower w2 = str_lower w1"
    and same_entries: "\<forall>fk \<in> set rss_feeds. \<forall>x \<in> set (entries (parse w1 (fst fk))).
                 get_article_identifier w2 x = get_article_identifier w1 x \<and>
                 entry_text w2 x = entry_text w1 x"
  shows "\<exists>d1 dm2 d2 tr2.
           monitor_feeds w1 rss_feeds d = Inr (d1, tr1) \<and>
           process_feeds w2 rss_feeds (register_feeds w2 rss_feeds d1) = Inr (dm2, tr2) \<and>
           articles dm2 = articles d1 \<and>
           monitor_feeds w2 rss_feeds d1 = Inr (d2, tr2) \<and>
           articles d2 = filter (\<lambda>a. \<not> text_less (pub_date a) (cutoff_text w2)) (articles d1) \<and>
           (\<forall>e \<in> set tr2. (\<exists>l. e = Fetch l) \<or> (\<exists>u b. e = Email (alert_subject u) b))"
proof -
  let ?d1 = "fst (prune_old_articles w1 dm)"
  have m1: "monitor_feeds w1 rss_feeds d = Inr (?d1, tr1)"
    using first by (simp add: monitor_feeds_result)
  have s1: "settled w1 dm fk" if "fk \<in> set rss_feeds" for fk
    using process_feeds_settles [OF first] that by blast
  have s2: "settled w2 ?d1 fk" if fk: "fk \<in> set rss_feeds" for fk
  proof -
    obtain url kw where p: "fk = (url, kw)" by (cases fk)
    have "\<forall>a \<in> set (articles dm). feed_url a = url \<and>
            art_identifier a \<in> get_article_identifier w1 ` set (entries (parse w1 url))
            \<longrightarrow> \<not> text_less (pub_date a) (cutoff_text w1)"
      using kept fk p by blast
    from settled_prune [OF _ this, of kw] s1 [OF fk] p
    have "settled w1 ?d1 fk" by simp
    moreover have "settled w2 ?d1 fk = settled w1 ?d1 fk"
      using same_feeds same_lower same_entries fk by (intro settled_same_observations) auto
    ultimately show ?thesis by simp
  qed
  obtain d2 tr2 where m2: "monitor_feeds w2 rss_feeds ?d1 = Inr (d2, tr2)"
    using monitor_feeds_total by blast
  then obtain dm2 where
    p2: "process_feeds w2 rss_feeds (register_feeds w2 rss_feeds ?d1) = Inr (dm2, tr2)"
    and d2: "d2 = fst (prune_old_articles w2 dm2)"
    by (auto simp: monitor_feeds_result)
  have r: "articles (register_feeds w2 rss_feeds ?d1) = articles ?d1" by simp
  have "\<forall>fk \<in> set rss_feeds. settled w2 (register_feeds w2 rss_feeds ?d1) fk"
    using s2 by (simp add: settled_articles [OF r])
  from process_feeds_idle [OF p2 this] have
    a: "articles dm2 = articles (register_feeds w2 rss_feeds ?d1)"
    and q: "\<forall>e \<in> set tr2. (\<exists>l. e = Fetch l) \<or> (\<exists>u b. e = Email (alert_subject u) b)"
    by (rule conjunct1, rule conjunct2)
  from a r have a': "articles dm2 = articles ?d1" by (rule trans)
  have f: "articles d2 = filter (\<lambda>a. \<not> text_less (pub_date a) (cutoff_text w2)) (articles ?d1)"
    unfolding d2 by (simp add: prune_articles a')
  from m1 p2 a' m2 f q show ?thesis
    by (intro exI [of _ ?d1] exI [of _ dm2] exI [of _ d2] exI [of _ tr2] conjI)
qed

lemma ex_old_world:
  "parse ex_world_old u =
     \<lparr>bozo = False, bozo_exception = [], feed_title = Some ''openSUSE News'', entries = [ex_item_old]\<rparr>"
  "entry_text (ex_world_old\<lparr>now := t\<rparr>) ex_item_old = None"
  "entry_text ex_world_old ex_item_old = None"
  "now ex_world_old = ex_now"
  by (simp_all add: ex_world_old_def ex_world_def ex_item_old_def entry_text_eq
        fetch_article_content_def fetch_try_def)

lemma ex_old_tuple:
  "entry_tuple (ex_world_old\<lparr>now := t\<rparr>) ex_item_old =
     (''urn:post:old'', ''Old'', ''https://news.opensuse.org/old'', ''Old news'', None,
      \<lparr>wall = t, utcoffset = None\<rparr>)"
proof -
  have "replace_Z ''Sun, 04 Oct 2026 09:00:00 GMT'' = ''Sun, 04 Oct 2026 09:00:00 GMT''"
    by (simp add: replace_Z_def)
  then have "parse_pub_date (ex_world_old\<lparr>now := t\<rparr>) ex_item_old = \<lparr>wall = t, utcoffset = None\<rparr>"
    by (simp add: parse_pub_date_def ex_item_old_def)
       (simp add: ex_world_old_def ex_world_def ex_fromisoformat_def datetime_now_def)
  then show ?thesis
    by (simp add: entry_tuple_def ex_identifiers ex_old_world) (simp add: ex_item_old_def)
qed

lemma texts_same_clock:
  assumes "adapt_datetime w' = adapt_datetime w" and "now w' = now w"
  shows "now_text w' = now_text w" and "cutoff_text w' = cutoff_text w"
  using assms by (simp_all add: now_text_def cutoff_text_eq datetime_now_def)

lemma ex_other_texts:
  "now_text ex_world_old = ''2026-11-04 09:00:00''"
  "cutoff_text ex_world_old = ''2026-10-05 09:00:00''"
  "now_text (ex_world_old\<lparr>now := ex_later\<rparr>) = ''2026-11-04 10:00:00''"
  "cutoff_text (ex_world_old\<lparr>now := ex_later\<rparr>) = ''2026-10-05 10:00:00''"
  "now_text ex_world_offline = ''2026-11-04 09:00:00''"
  "cutoff_text ex_world_offline = ''2026-10-05 09:00:00''"
proof -
  have a: "adapt_datetime ex_world_old = adapt_datetime ex_world" "now ex_world_old = now ex_world"
    "adapt_datetime (ex_world_old\<lparr>now := ex_later\<rparr>) = adapt_datetime (ex_world\<lparr>now := ex_later\<rparr>)"
    "now (ex_world_old\<lparr>now := ex_later\<rparr>) = now (ex_world\<lparr>now := ex_later\<rparr>)"
    "adapt_datetime ex_world_offline = adapt_datetime ex_world"
    "now ex_world_offline = now ex_world"
    by (simp_all add: ex_world_old_def ex_world_offline_def)
  from texts_same_clock [OF a(1,2)] texts_same_clock [OF a(3,4)] texts_same_clock [OF a(5,6)]
  show "now_text ex_world_old = ''2026-11-04 09:00:00''"
    "cutoff_text ex_world_old = ''2026-10-05 09:00:00''"
    "now_text (ex_world_old\<lparr>now := ex_later\<rparr>) = ''2026-11-04 10:00:00''"
    "cutoff_text (ex_world_old\<lparr>now := ex_later\<rparr>) = ''2026-10-05 10:00:00''"
    "now_text ex_world_offline = ''2026-11-04 09:00:00''"
    "cutoff_text ex_world_offline = ''2026-10-05 09:00:00''"
    by (simp_all only: ex_texts)
qed

lemma fetch_try_clock: "fetch_try (w\<lparr>now := t\<rparr>) url = fetch_try w url"
  by (simp add: fetch_try_def split: sum.splits option.splits)

lemma clock_irrelevant:
  "get_article_identifier (w\<lparr>now := t\<rparr>) x = get_article_identifier w x"
  "entry_text (w\<lparr>now := t\<rparr>) x = entry_text w x"
  by (simp_all add: get_article_identifier_def entry_text_eq fetch_article_content_def
        fetch_try_clock)

text \<open>A pass is the loop over the feeds followed by the pruning, whose effect on the
  two tables is this.\<close>

lemma monitor_feeds_eq:
  assumes "process_feeds w rss (register_feeds w rss d) = Inr (dm, tr)"
  shows "monitor_feeds w rss d
           = Inr (\<lparr>feeds = feeds dm,
                   articles = filter (\<lambda>a. \<not> text_less (pub_date a) (cutoff_text w)) (articles dm)\<rparr>,
                  tr)"
  using assms
  by (simp add: monitor_feeds_result prune_old_articles_def Let_def cutoff_text_def)

theorem second_pass_idle_witness:
  "process_feeds ex_world [(ex_feed_url, Some [])]
       (register_feeds ex_world [(ex_feed_url, Some [])] ex_empty_db)
     = Inr (\<lparr>feeds = [ex_feed_url \<mapsto> \<lparr>last_checked = ''2026-11-04 09:00:00'', failure_count = 0\<rparr>],
             articles =
               [\<lparr>feed_url = ex_feed_url, art_identifier = ''urn:post:1'',
                 art_title = ''Leap released'', art_link = ''https://news.opensuse.org/1'',
                 art_description = ''Release notes'', fetched_content = Some ''Leap 16 is out'',
                 pub_date = ''2026-11-01 08:00:00+00:00''\<rparr>,
                \<lparr>feed_url = ex_feed_url, art_identifier = ''https://news.opensuse.org/2'',
                 art_title = ''Python sprint'', art_link = ''https://news.opensuse.org/2'',
                 art_description = ''No description'', fetched_content = None,
                 pub_date = ''2026-11-04 09:00:00''\<rparr>]\<rparr>,
            [Fetch ''https://news.opensuse.org/1'', Fetch ''https://news.opensuse.org/2'',
             article_mail ex_world ex_feed_url
               [entry_tuple ex_world ex_item_guid, entry_tuple ex_world ex_item_link]]) \<and>
   parse (ex_world\<lparr>now := ex_later\<rparr>) = parse ex_world \<and>
   str_lower (ex_world\<lparr>now := ex_later\<rparr>) = str_lower ex_world \<and>
   (\<exists>d1 dm2 d2 tr2.
      monitor_feeds ex_world [(ex_feed_url, Some [])] ex_empty_db
        = Inr (d1, [Fetch ''https://news.opensuse.org/1'', Fetch ''https://news.opensuse.org/2'',
                    article_mail ex_world ex_feed_url
                      [entry_tuple ex_world ex_item_guid, entry_tuple ex_world ex_item_link]]) \<and>
      process_feeds (ex_world\<lparr>now := ex_later\<rparr>) [(ex_feed_url, Some [])]
          (register_feeds (ex_world\<lparr>now := ex_later\<rparr>) [(ex_feed_url, Some [])] d1)
        = Inr (dm2, tr2) \<and>
      articles dm2 = articles d1 \<and>
      monitor_feeds (ex_world\<lparr>now := ex_later\<rparr>) [(ex_feed_url, Some [])] d1 = Inr (d2, tr2) \<and>
      articles d2
        = filter (\<lambda>a. \<not> text_less (pub_date a) (cutoff_text (ex_world\<lparr>now := ex_later\<rparr>)))
            (articles d1) \<and>
      (\<forall>e \<in> set tr2. (\<exists>l. e = Fetch l) \<or> (\<exists>u b. e = Email (alert_subject u) b)))"
proof -
  let ?rss = "[(ex_feed_url, Some [])]"
  let ?w2 = "ex_world\<lparr>now := ex_later\<rparr>"
  let ?dm = "\<lparr>feeds = [ex_feed_url \<mapsto> \<lparr>last_checked = ''2026-11-04 09:00:00'', failure_count = 0\<rparr>],
              articles =
               [\<lparr>feed_url = ex_feed_url, art_identifier = ''urn:post:1'',
                 art_title = ''Leap released'', art_link = ''https://news.opensuse.org/1'',
                 art_description = ''Release notes'', fetched_content = Some ''Leap 16 is out'',
                 pub_date = ''2026-11-01 08:00:00+00:00''\<rparr>,
                \<lparr>feed_url = ex_feed_url, art_identifier = ''https://news.opensuse.org/2'',
                 art_title = ''Python sprint'', art_link = ''https://news.opensuse.org/2'',
                 art_description = ''No description'', fetched_content = None,
                 pub_date = ''2026-11-04 09:00:00''\<rparr>]\<rparr>"
  let ?tr1 = "[Fetch ''https://news.opensuse.org/1'', Fetch ''https://news.opensuse.org/2'',
               article_mail ex_world ex_feed_url
                 [entry_tuple ex_world ex_item_guid, entry_tuple ex_world ex_item_link]]"
  note n = ex_texts(1)
  have loop: "entries_loop ex_world ex_feed_url (Some [])
                (insert_or_ignore_feed ex_world ex_feed_url ex_empty_db)
              = ({''urn:post:1'', ''https://news.opensuse.org/2''},
                 [entry_tuple ex_world ex_item_guid, entry_tuple ex_world ex_item_link],
                 [Fetch ''https://news.opensuse.org/1'', Fetch ''https://news.opensuse.org/2''])"
    by (simp add: entries_loop_def stored_identifiers_def ex_empty_db_def ex_entries
          process_entry_cases ex_identifiers ex_fetch insert_commute)
  have rows: "article_row ex_world ex_feed_url (entry_tuple ex_world ex_item_guid)
       = \<lparr>feed_url = ex_feed_url, art_identifier = ''urn:post:1'',
                 art_title = ''Leap released'', art_link = ''https://news.opensuse.org/1'',
                 art_description = ''Release notes'', fetched_content = Some ''Leap 16 is out'',
                 pub_date = ''2026-11-01 08:00:00+00:00''\<rparr>"
    "article_row ex_world ex_feed_url (entry_tuple ex_world ex_item_link)
       = \<lparr>feed_url = ex_feed_url, art_identifier = ''https://news.opensuse.org/2'',
                 art_title = ''Python sprint'', art_link = ''https://news.opensuse.org/2'',
                 art_description = ''No description'', fetched_content = None,
                 pub_date = ''2026-11-04 09:00:00''\<rparr>"
    by (simp_all only: ex_guid_tuple ex_link_tuple ex_rows)
  have first: "process_feeds ex_world ?rss (register_feeds ex_world ?rss ex_empty_db)
                 = Inr (?dm, ?tr1)"
    by (simp add: register_feeds_def process_feed_success [OF ex_entries(3)] batch_def
          fetches_def loop rows del: article_row.simps)
       (simp add: insert_or_ignore_feed_def update_feed_def mark_checked_def ex_empty_db_def n
          n [unfolded now_text_def])
  have kept: "\<forall>a \<in> set (articles ?dm).
                 (\<exists>kw. (feed_url a, kw) \<in> set ?rss) \<and>
                 art_identifier a
                   \<in> get_article_identifier ex_world ` set (entries (parse ex_world (feed_url a)))
                 \<longrightarrow> \<not> text_less (pub_date a) (cutoff_text ex_world)"
    by (simp add: ex_texts)
  have same_feeds: "parse ?w2 = parse ex_world"
    by simp
  have same_lower: "str_lower ?w2 = str_lower ex_world"
    by simp
  have same_entries: "\<forall>fk \<in> set ?rss. \<forall>x \<in> set (entries (parse ex_world (fst fk))).
                 get_article_identifier ?w2 x = get_article_identifier ex_world x \<and>
                 entry_text ?w2 x = entry_text ex_world x"
    by (simp add: clock_irrelevant)
  from second_pass_idle [OF first kept same_feeds same_lower same_entries] first same_feeds
    same_lower
  show ?thesis by blast
qed

text \<open>
  C2 as stated fails in two ways.  First, pruning forgets an article that the feed still
  lists: the store holds the article \<open>urn:post:old\<close>, published 31 days ago; the first
  pass finds it known and prunes it; the second pass, one hour later and with the same
  feed entries, finds it unknown, inserts a row for it and mails it.  Second, the page of
  an entry that failed the filter may read differently: with the keyword \<open>16\<close> and every
  request failing the first pass stores nothing; the second pass, with the same feed
  entries and the page now readable, inserts the entry and mails it.
\<close>

theorem second_pass_notifies_counterexample:
  "monitor_feeds ex_world_old [(ex_feed_url, Some [])] ex_db
     = Inr (\<lparr>feeds = [ex_feed_url \<mapsto> \<lparr>last_checked = ''2026-11-04 09:00:00'', failure_count = 0\<rparr>],
             articles = [ex_recent_article]\<rparr>, []) \<and>
   parse (ex_world_old\<lparr>now := ex_later\<rparr>) = parse ex_world_old \<and>
   monitor_feeds (ex_world_old\<lparr>now := ex_later\<rparr>) [(ex_feed_url, Some [])]
       \<lparr>feeds = [ex_feed_url \<mapsto> \<lparr>last_checked = ''2026-11-04 09:00:00'', failure_count = 0\<rparr>],
        articles = [ex_recent_article]\<rparr>
     = Inr (\<lparr>feeds = [ex_feed_url \<mapsto> \<lparr>last_checked = ''2026-11-04 10:00:00'', failure_count = 0\<rparr>],
             articles =
               [ex_recent_article,
                \<lparr>feed_url = ex_feed_url, art_identifier = ''urn:post:old'', art_title = ''Old'',
                 art_link = ''https://news.opensuse.org/old'', art_description = ''Old news'',
                 fetched_content = None, pub_date = ''2026-11-04 10:00:00''\<rparr>]\<rparr>,
            [Fetch ''https://news.opensuse.org/old'',
             article_mail (ex_world_old\<lparr>now := ex_later\<rparr>) ex_feed_url
               [(''urn:post:old'', ''Old'', ''https://news.opensuse.org/old'', ''Old news'',
                 None, \<lparr>wall = ex_later, utcoffset = None\<rparr>)]]) \<and>
   parse ex_world = parse ex_world_offline \<and>
   monitor_feeds ex_world_offline [(ex_feed_url, Some ''16'')] ex_empty_db
     = Inr (\<lparr>feeds = [ex_feed_url \<mapsto> \<lparr>last_checked = ''2026-11-04 09:00:00'', failure_count = 0\<rparr>],
             articles = []\<rparr>,
            [Fetch ''https://news.opensuse.org/1'', Fetch ''https://news.opensuse.org/2'']) \<and>
   monitor_feeds ex_world [(ex_feed_url, Some ''16'')]
       \<lparr>feeds = [ex_feed_url \<mapsto> \<lparr>last_checked = ''2026-11-04 09:00:00'', failure_count = 0\<rparr>],
        articles = []\<rparr>
     = Inr (\<lparr>feeds = [ex_feed_url \<mapsto> \<lparr>last_checked = ''2026-11-04 09:00:00'', failure_count = 0\<rparr>],
             articles =
               [\<lparr>feed_url = ex_feed_url, art_identifier = ''urn:post:1'',
                 art_title = ''Leap released'', art_link = ''https://news.opensuse.org/1'',
                 art_description = ''Release notes'',
                 fetched_content = Some ''Leap 16 is out'',
                 pub_date = ''2026-11-01 08:00:00+00:00''\<rparr>]\<rparr>,
            [Fetch ''https://news.opensuse.org/1'', Fetch ''https://news.opensuse.org/2'',
             article_mail ex_world ex_feed_url
               [(''urn:post:1'', ''Leap released'', ''https://news.opensuse.org/1'',
                 ''Release notes'', Some ''Leap 16 is out'',
                 \<lparr>wall = 63929116800000000, utcoffset = Some 0\<rparr>)]])"
proof -
  let ?rs = "[(ex_feed_url, Some [])]"
  let ?r16 = "[(ex_feed_url, Some ''16'')]"
  let ?w2 = "ex_world_old\<lparr>now := ex_later\<rparr>"
  let ?f1 = "[ex_feed_url \<mapsto> \<lparr>last_checked = ''2026-11-04 09:00:00'', failure_count = 0\<rparr>]"
  let ?f2 = "[ex_feed_url \<mapsto> \<lparr>last_checked = ''2026-11-04 10:00:00'', failure_count = 0\<rparr>]"
  let ?d1 = "\<lparr>feeds = ?f1, articles = [ex_recent_article]\<rparr>"
  let ?e1 = "\<lparr>feeds = ?f1, articles = []\<rparr> :: db"
  let ?old_tuple = "(''urn:post:old'', ''Old'', ''https://news.opensuse.org/old'', ''Old news'',
                 None, \<lparr>wall = ex_later, utcoffset = None\<rparr>)"
  let ?old_row = "\<lparr>feed_url = ex_feed_url, art_identifier = ''urn:post:old'', art_title = ''Old'',
                 art_link = ''https://news.opensuse.org/old'', art_description = ''Old news'',
                 fetched_content = None, pub_date = ''2026-11-04 10:00:00''\<rparr>"
  let ?guid_row = "\<lparr>feed_url = ex_feed_url, art_identifier = ''urn:post:1'',
                 art_title = ''Leap released'', art_link = ''https://news.opensuse.org/1'',
                 art_description = ''Release notes'',
                 fetched_content = Some ''Leap 16 is out'',
                 pub_date = ''2026-11-01 08:00:00+00:00''\<rparr>"
  have nb: "\<not> bozo (parse ex_world_old ex_feed_url)" "\<not> bozo (parse ?w2 ex_feed_url)"
    by (simp_all add: ex_old_world)
  have e: "entries (parse ex_world_old ex_feed_url) = [ex_item_old]"
    "entries (parse ?w2 ex_feed_url) = [ex_item_old]"
    by (simp_all add: ex_old_world)
  have ids: "art_identifier ex_old_article = ''urn:post:old''"
      "art_identifier ex_recent_article = ''urn:post:recent''"
      "feed_url ex_old_article = ex_feed_url" "feed_url ex_recent_article = ex_feed_url"
      "pub_date ex_old_article = ''2026-10-04 09:00:00''"
      "pub_date ex_recent_article = ''2026-11-03 09:00:00''"
    by (simp_all add: ex_old_article_def ex_recent_article_def)
  have reg: "register_feeds w [(ex_feed_url, k)] d = insert_or_ignore_feed w ex_feed_url d" for w k d
    by (simp add: register_feeds_def)
  have upd: "(update_feed ex_feed_url (mark_checked w) (insert_or_ignore_feed w ex_feed_url d))
                 \<lparr>articles := as\<rparr>
               = \<lparr>feeds = (feeds d)(ex_feed_url \<mapsto>
                                  \<lparr>last_checked = now_text w, failure_count = 0\<rparr>),
                  articles = as\<rparr>" for w d as
    by (cases d)
       (auto simp: insert_or_ignore_feed_def update_feed_def mark_checked_def now_text_def
          split: option.splits)
  have arts: "articles (update_feed ex_feed_url f (insert_or_ignore_feed w ex_feed_url d))
                = articles d" for f w d
    by (simp add: insert_or_ignore_feed_def update_feed_def split: option.splits)
  have l1: "entries_loop ex_world_old ex_feed_url (Some [])
              (insert_or_ignore_feed ex_world_old ex_feed_url ex_db)
            = ({''urn:post:old'', ''urn:post:recent''}, [], [])"
    by (simp add: entries_loop_def stored_identifiers_def ex_db_def ids e
          process_entry_cases ex_identifiers)
  have p1: "process_feeds ex_world_old ?rs (register_feeds ex_world_old ?rs ex_db)
              = Inr (\<lparr>feeds = ?f1, articles = [ex_old_article, ex_recent_article]\<rparr>, [])"
    by (simp add: reg process_feed_success [OF nb(1)] batch_def fetches_def l1)
       (simp add: upd arts ex_other_texts, simp add: ex_db_def)
  have A1: "monitor_feeds ex_world_old ?rs ex_db = Inr (?d1, [])"
    by (simp add: monitor_feeds_eq [OF p1] ex_other_texts ids)
  have P1: "parse ?w2 = parse ex_world_old"
    by simp
  have l2: "entries_loop ?w2 ex_feed_url (Some []) (insert_or_ignore_feed ?w2 ex_feed_url ?d1)
            = ({''urn:post:recent'', ''urn:post:old''}, [?old_tuple],
               [Fetch ''https://news.opensuse.org/old''])"
    by (simp add: entries_loop_def stored_identifiers_def ids ex_old_world
          process_entry_cases ex_identifiers ex_fetch ex_old_tuple insert_commute)
  have r2: "article_row ?w2 ex_feed_url ?old_tuple = ?old_row"
    using ex_other_texts(3) by (simp add: now_text_def datetime_now_def)
  have p2: "process_feeds ?w2 ?rs (register_feeds ?w2 ?rs ?d1)
              = Inr (\<lparr>feeds = ?f2, articles = [ex_recent_article, ?old_row]\<rparr>,
                     [Fetch ''https://news.opensuse.org/old'',
                      article_mail ?w2 ex_feed_url [?old_tuple]])"
    by (simp add: reg process_feed_success [OF nb(2)] batch_def fetches_def l2 r2
          del: article_row.simps)
       (simp add: upd arts ex_other_texts)
  have A2: "monitor_feeds ?w2 ?rs ?d1
     = Inr (\<lparr>feeds = ?f2, articles = [ex_recent_article, ?old_row]\<rparr>,
            [Fetch ''https://news.opensuse.org/old'', article_mail ?w2 ex_feed_url [?old_tuple]])"
    by (simp add: monitor_feeds_eq [OF p2] ex_other_texts ids)
  have P: "parse ex_world = parse ex_world_offline"
    by (simp add: ex_world_offline_def)
  have l3: "entries_loop ex_world_offline ex_feed_url (Some ''16'')
              (insert_or_ignore_feed ex_world_offline ex_feed_url ex_empty_db)
            = ({}, [], [Fetch ''https://news.opensuse.org/1'', Fetch ''https://news.opensuse.org/2''])"
    by (simp add: entries_loop_def stored_identifiers_def ex_empty_db_def ex_entries
          process_entry_cases ex_identifiers ex_contents ex_filter_16 ex_fetch)
  have p3: "process_feeds ex_world_offline ?r16 (register_feeds ex_world_offline ?r16 ex_empty_db)
              = Inr (?e1, [Fetch ''https://news.opensuse.org/1'',
                           Fetch ''https://news.opensuse.org/2''])"
    by (simp add: reg process_feed_success [OF ex_entries(4)] batch_def fetches_def l3)
       (simp add: upd arts ex_other_texts, simp add: ex_empty_db_def)
  have B1: "monitor_feeds ex_world_offline ?r16 ex_empty_db
     = Inr (?e1, [Fetch ''https://news.opensuse.org/1'', Fetch ''https://news.opensuse.org/2''])"
    by (simp add: monitor_feeds_eq [OF p3])
  have l4: "entries_loop ex_world ex_feed_url (Some ''16'')
              (insert_or_ignore_feed ex_world ex_feed_url ?e1)
            = ({''urn:post:1''}, [entry_tuple ex_world ex_item_guid],
               [Fetch ''https://news.opensuse.org/1'', Fetch ''https://news.opensuse.org/2''])"
    by (simp add: entries_loop_def stored_identifiers_def ex_entries
          process_entry_cases ex_identifiers ex_contents ex_filter_16 ex_fetch)
  have r4: "article_row ex_world ex_feed_url (entry_tuple ex_world ex_item_guid) = ?guid_row"
    by (simp only: ex_guid_tuple ex_rows)
  have p4: "process_feeds ex_world ?r16 (register_feeds ex_world ?r16 ?e1)
              = Inr (\<lparr>feeds = ?f1, articles = [?guid_row]\<rparr>,
                     [Fetch ''https://news.opensuse.org/1'', Fetch ''https://news.opensuse.org/2'',
                      article_mail ex_world ex_feed_url [entry_tuple ex_world ex_item_guid]])"
    by (simp add: reg process_feed_success [OF ex_entries(3)] batch_def fetches_def l4 r4
          del: article_row.simps)
       (simp add: upd arts ex_texts)
  have B2: "monitor_feeds ex_world ?r16 ?e1
     = Inr (\<lparr>feeds = ?f1, articles = [?guid_row]\<rparr>,
            [Fetch ''https://news.opensuse.org/1'', Fetch ''https://news.opensuse.org/2'',
             article_mail ex_world ex_feed_url
               [(''urn:post:1'', ''Leap released'', ''https://news.opensuse.org/1'',
                 ''Release notes'', Some ''Leap 16 is out'',
                 \<lparr>wall = 63929116800000000, utcoffset = Some 0\<rparr>)]])"
    by (simp add: monitor_feeds_eq [OF p4] ex_texts ex_guid_tuple)
  from A1 P1 A2 P B1 B2 show ?thesis by (intro conjI)
qed

end
